theory Spec2Isabelle
  imports Complex_Main "HOL-Library.AList"
begin

section \<open>Python values, faults and containers\<close>

text \<open>
  The roster solver of \<^verbatim>\<open>logic.py\<close> builds a boolean constraint model over a dense
  grid of decision variables, hands it to an external engine and projects the solved
  valuation into rosters. The embedding threads the solver object (\<^verbatim>\<open>self\<close>)
  through every method as a record; a method that can raise returns \<open>error + solver\<close>.
  The two faults the code can raise on well-typed input are a missing dictionary key and
  an index outside a list or array.
\<close>

datatype error = KeyError | IndexError

text \<open>Indexing a Python list or a numpy axis of length \<open>len\<close> with an integer: a negative
  index counts from the end, anything outside \<open>[-len, len)\<close> raises.\<close>

definition py_index :: "nat \<Rightarrow> int \<Rightarrow> error + nat" where
  "py_index len i =
     (if 0 \<le> i \<and> i < int len then Inr (nat i)
      else if i < 0 \<and> - int len \<le> i then Inr (nat (int len + i))
      else Inl IndexError)"

definition list_get :: "'a list \<Rightarrow> int \<Rightarrow> error + 'a" where
  "list_get xs i = (case py_index (length xs) i of Inl e \<Rightarrow> Inl e | Inr j \<Rightarrow> Inr (xs ! j))"

text \<open>A dictionary that is only looked up is a map; \<open>d[k]\<close> raises on a missing key.\<close>

definition dict_get :: "('k \<rightharpoonup> 'v) \<Rightarrow> 'k \<Rightarrow> error + 'v" where
  "dict_get m k = (case m k of None \<Rightarrow> Inl KeyError | Some v \<Rightarrow> Inr v)"

text \<open>A dictionary that is iterated is an association list in insertion order
  (its keys are distinct in Python); lookup is by key.\<close>

definition alist_get :: "('k \<times> 'v) list \<Rightarrow> 'k \<Rightarrow> error + 'v" where
  "alist_get d k = dict_get (map_of d) k"

text \<open>A dictionary comprehension \<^verbatim>\<open>{k: v for ...}\<close> stores the pairs one after the other,
  a later pair overwriting an earlier one with the same key.\<close>

definition dict_comp :: "('k \<times> 'v) list \<Rightarrow> ('k \<rightharpoonup> 'v)" where
  "dict_comp kvs = foldl (\<lambda>m kv. m(fst kv \<mapsto> snd kv)) Map.empty kvs"

text \<open>Loops whose body can raise: the first fault ends the loop.\<close>

fun mapM_e :: "('a \<Rightarrow> error + 'b) \<Rightarrow> 'a list \<Rightarrow> error + 'b list" where
  "mapM_e f [] = Inr []"
| "mapM_e f (x # xs) =
     (case f x of Inl e \<Rightarrow> Inl e
      | Inr y \<Rightarrow> (case mapM_e f xs of Inl e \<Rightarrow> Inl e | Inr ys \<Rightarrow> Inr (y # ys)))"

fun foldM_e :: "('s \<Rightarrow> 'a \<Rightarrow> error + 's) \<Rightarrow> 's \<Rightarrow> 'a list \<Rightarrow> error + 's" where
  "foldM_e f s [] = Inr s"
| "foldM_e f s (x # xs) = (case f s x of Inl e \<Rightarrow> Inl e | Inr s' \<Rightarrow> foldM_e f s' xs)"

section \<open>The constraint model handed to the engine\<close>

text \<open>A decision variable is its coordinate (resource, role, day, shift). The engine accepts
  linear equalities and inequalities over sums of variables with integer coefficients and
  one linear objective; a valuation gives every variable a boolean. Coefficients and bounds
  are mathematical integers and \<^verbatim>\<open>model.Add\<close> is taken to accept every constraint it is
  given: the engine's own refusal of a bound outside its 64-bit range is not part of this
  embedding, so a head count that large is outside its scope.\<close>

type_synonym var = "nat \<times> nat \<times> nat \<times> nat"

type_synonym linexpr = "(int \<times> var) list"

datatype constr = EqC linexpr int | GeC linexpr int | LeC linexpr int

datatype status = UNKNOWN | MODEL_INVALID | FEASIBLE | INFEASIBLE | OPTIMAL

definition term_val :: "(var \<Rightarrow> bool) \<Rightarrow> int \<times> var \<Rightarrow> int" where
  "term_val v t = fst t * (if v (snd t) then 1 else 0)"

definition eval_lin :: "(var \<Rightarrow> bool) \<Rightarrow> linexpr \<Rightarrow> int" where
  "eval_lin v e = sum_list (map (term_val v) e)"

fun holds :: "(var \<Rightarrow> bool) \<Rightarrow> constr \<Rightarrow> bool" where
  "holds v (EqC e k) = (eval_lin v e = k)"
| "holds v (GeC e k) = (eval_lin v e \<ge> k)"
| "holds v (LeC e k) = (eval_lin v e \<le> k)"

section \<open>The solver object\<close>

record solver =
  maxSearchTime :: nat
  numCores :: nat
  numDays :: nat
  numShifts :: nat
  numResources :: nat
  numRoles :: nat
  resourcesLookup :: "nat \<rightharpoonup> string"
  resourceIdLookup :: "string \<rightharpoonup> nat"
  rolesLookup :: "nat \<rightharpoonup> string"
  rolesIdLookup :: "string \<rightharpoonup> nat"
  resourceRoleMapping :: "nat \<rightharpoonup> nat list"
  requirementMapping :: "(nat \<times> int) list list list"
  vars :: "var list"
  model :: "constr list"
  objective :: "(real \<times> var) list option"
  non_sequential_shifts_indices :: "int list list"
  solution :: "(var \<Rightarrow> bool) option"

text \<open>The problem description \<^verbatim>\<open>args\<close>: \<^verbatim>\<open>args[0]\<close> to \<^verbatim>\<open>args[3]\<close>.\<close>

record args =
  resourceRoleMap :: "(string \<times> string list) list"
  requirementMatrix :: "(string \<times> int) list list list"
  hardLeaves :: "(string \<times> int) list"
  softLeaves :: "(string \<times> int \<times> real) list"

text \<open>\<^verbatim>\<open>Solver.__init__\<close>; \<open>cpu_count\<close> stands for \<^verbatim>\<open>os.cpu_count()\<close>.\<close>

definition Solver_init :: "nat \<Rightarrow> nat \<Rightarrow> bool \<Rightarrow> solver" where
  "Solver_init cpu_count maxSearchTime' systemCore =
     \<lparr> maxSearchTime = maxSearchTime',
       numCores = (if systemCore then cpu_count else 1),
       numDays = 0, numShifts = 0, numResources = 0, numRoles = 0,
       resourcesLookup = Map.empty, resourceIdLookup = Map.empty,
       rolesLookup = Map.empty, rolesIdLookup = Map.empty,
       resourceRoleMapping = Map.empty, requirementMapping = [],
       vars = [], model = [], objective = None,
       non_sequential_shifts_indices = [], solution = None \<rparr>"

definition HospitalSolver_init :: "nat \<Rightarrow> solver" where
  "HospitalSolver_init cpu_count = (Solver_init cpu_count 250 True)\<lparr> numShifts := 3 \<rparr>"

definition createModel :: "solver \<Rightarrow> solver" where
  "createModel st = st\<lparr> model := [], objective := None \<rparr>"

definition createVars :: "solver \<Rightarrow> solver" where
  "createVars st =
     st\<lparr> vars := [(n, r, d, s). n \<leftarrow> [0..<numResources st], r \<leftarrow> [0..<numRoles st],
                                 d \<leftarrow> [0..<numDays st], s \<leftarrow> [0..<numShifts st]] \<rparr>"

text \<open>\<^verbatim>\<open>self.vars[n][r][d][s]\<close> with indices that come from data.\<close>

definition vars_at :: "solver \<Rightarrow> int \<Rightarrow> int \<Rightarrow> int \<Rightarrow> int \<Rightarrow> error + var" where
  "vars_at st n r d s =
     (case py_index (numResources st) n of Inl e \<Rightarrow> Inl e | Inr n' \<Rightarrow>
      (case py_index (numRoles st) r of Inl e \<Rightarrow> Inl e | Inr r' \<Rightarrow>
       (case py_index (numDays st) d of Inl e \<Rightarrow> Inl e | Inr d' \<Rightarrow>
        (case py_index (numShifts st) s of Inl e \<Rightarrow> Inl e | Inr s' \<Rightarrow>
           Inr (n', r', d', s')))))"

subsection \<open>Identifier registry\<close>

text \<open>The de-duplication loop
  \<^verbatim>\<open>for x in xs: if not (x in acc): acc.append(x)\<close>.\<close>

fun first_seen :: "'a list \<Rightarrow> 'a list \<Rightarrow> 'a list" where
  "first_seen acc [] = acc"
| "first_seen acc (x # xs) = first_seen (if x \<in> set acc then acc else acc @ [x]) xs"

definition roleMapping_step ::
  "solver \<Rightarrow> (string \<times> string list) list \<Rightarrow> (nat \<rightharpoonup> nat list) \<Rightarrow> string
     \<Rightarrow> error + (nat \<rightharpoonup> nat list)" where
  "roleMapping_step st arg m resource =
     (case alist_get arg resource of Inl e \<Rightarrow> Inl e | Inr roleList \<Rightarrow>
      (case mapM_e (dict_get (rolesIdLookup st)) roleList of Inl e \<Rightarrow> Inl e | Inr roleIdList \<Rightarrow>
       (case dict_get (resourceIdLookup st) resource of Inl e \<Rightarrow> Inl e
        | Inr rid \<Rightarrow> Inr (m(rid \<mapsto> roleIdList)))))"

definition createEmployeeRoleLookup ::
  "solver \<Rightarrow> (string \<times> string list) list \<Rightarrow> error + solver" where
  "createEmployeeRoleLookup st arg =
     (let ids = map fst arg;
          resources = first_seen [] ids;
          st1 = st\<lparr> resourcesLookup := dict_comp (enumerate 0 resources),
                    resourceIdLookup := dict_comp (map (\<lambda>p. (snd p, fst p)) (enumerate 0 resources)),
                    numResources := length resources \<rparr>
      in case mapM_e (alist_get arg) (map fst arg) of Inl e \<Rightarrow> Inl e | Inr ids2 \<Rightarrow>
         (let roles = foldl first_seen [] ids2;
              st2 = st1\<lparr> rolesLookup := dict_comp (enumerate 0 roles),
                         rolesIdLookup := dict_comp (map (\<lambda>p. (snd p, fst p)) (enumerate 0 roles)),
                         numRoles := length roles \<rparr>
          in case foldM_e (roleMapping_step st2 arg) Map.empty (map fst arg) of
               Inl e \<Rightarrow> Inl e
             | Inr m \<Rightarrow> Inr (st2\<lparr> resourceRoleMapping := m \<rparr>)))"

subsection \<open>Constraint encoder\<close>

definition removeExtraRoles :: "solver \<Rightarrow> error + solver" where
  "removeExtraRoles st =
     (case mapM_e (\<lambda>resource.
              case dict_get (resourceRoleMapping st) resource of Inl e \<Rightarrow> Inl e
              | Inr roleList \<Rightarrow>
                  Inr (let roleAbsent = filter (\<lambda>role. role \<notin> set roleList) [0..<numRoles st]
                       in [EqC [(1, (resource, role, d, s))] 0.
                             role \<leftarrow> roleAbsent, d \<leftarrow> [0..<numDays st], s \<leftarrow> [0..<numShifts st]]))
            [0..<numResources st] of
        Inl e \<Rightarrow> Inl e
      | Inr css \<Rightarrow> Inr (st\<lparr> model := model st @ concat css \<rparr>))"

definition reindex_shift :: "solver \<Rightarrow> (string \<times> int) list \<Rightarrow> error + (nat \<times> int) list" where
  "reindex_shift st shift =
     foldM_e (\<lambda>acc role.
        case dict_get (rolesIdLookup st) role of Inl e \<Rightarrow> Inl e | Inr rid \<Rightarrow>
        (case alist_get shift role of Inl e \<Rightarrow> Inl e
         | Inr req \<Rightarrow> Inr (AList.update rid req acc)))
       [] (map fst shift)"

definition createRequirementMapping ::
  "solver \<Rightarrow> (string \<times> int) list list list \<Rightarrow> error + solver" where
  "createRequirementMapping st arg =
     (case mapM_e (\<lambda>day. mapM_e (reindex_shift st) day) arg of
        Inl e \<Rightarrow> Inl e
      | Inr rm \<Rightarrow> Inr (st\<lparr> requirementMapping := rm \<rparr>))"

definition headcount :: "solver \<Rightarrow> nat \<Rightarrow> nat \<Rightarrow> nat \<Rightarrow> error + linexpr" where
  "headcount st role d s =
     mapM_e (\<lambda>resource.
        case vars_at st (int resource) (int role) (int d) (int s) of Inl e \<Rightarrow> Inl e
        | Inr x \<Rightarrow> Inr (1, x))
       [0..<numResources st]"

definition requirement_at :: "solver \<Rightarrow> nat \<times> nat \<Rightarrow> error + constr list" where
  "requirement_at st ds =
     (case list_get (requirementMapping st) (int (fst ds)) of Inl e \<Rightarrow> Inl e | Inr day \<Rightarrow>
      (case list_get day (int (snd ds)) of Inl e \<Rightarrow> Inl e | Inr roleRequirements \<Rightarrow>
         mapM_e (\<lambda>role.
            case headcount st role (fst ds) (snd ds) of Inl e \<Rightarrow> Inl e | Inr lhs \<Rightarrow>
            (case alist_get roleRequirements role of Inl e \<Rightarrow> Inl e
             | Inr req \<Rightarrow> Inr (GeC lhs req)))
           (map fst roleRequirements)))"

definition setRequirementConstraint :: "solver \<Rightarrow> error + solver" where
  "setRequirementConstraint st =
     (case mapM_e (requirement_at st)
             [(d, s). d \<leftarrow> [0..<numDays st], s \<leftarrow> [0..<numShifts st]] of
        Inl e \<Rightarrow> Inl e
      | Inr css \<Rightarrow> Inr (st\<lparr> model := model st @ concat css \<rparr>))"

definition maxOneShiftPerDay :: "solver \<Rightarrow> solver" where
  "maxOneShiftPerDay st =
     st\<lparr> model := model st @
           [LeC [(1, (n, r, d, s)). r \<leftarrow> [0..<numRoles st], s \<leftarrow> [0..<numShifts st]] 1.
              n \<leftarrow> [0..<numResources st], d \<leftarrow> [0..<numDays st]] \<rparr>"

text \<open>Marking one declared pair in the matrix: both indices are read from the first
  component of the pair, as the code does.\<close>

definition mark_dependence :: "int list list \<Rightarrow> int \<times> int \<Rightarrow> error + int list list" where
  "mark_dependence M dependence =
     (let i_idx = fst dependence; j_idx = fst dependence
      in case py_index (length M) i_idx of Inl e \<Rightarrow> Inl e | Inr i \<Rightarrow>
         (case py_index (length (M ! i)) j_idx of Inl e \<Rightarrow> Inl e
          | Inr j \<Rightarrow> Inr (M[i := (M ! i)[j := 1]])))"

definition nextDayShift :: "solver \<Rightarrow> (int \<times> int) list \<Rightarrow> error + solver" where
  "nextDayShift st arg =
     (case foldM_e mark_dependence
             (replicate (numShifts st) (replicate (numShifts st) 0)) arg of
        Inl e \<Rightarrow> Inl e
      | Inr M \<Rightarrow>
          Inr (st\<lparr> non_sequential_shifts_indices := M,
                   model := model st @
                     [LeC (concat [[(M ! s ! j, (n, r, d, s)), (1, (n, r, d + 1, j))].
                                     j \<leftarrow> [0..<numShifts st], r \<leftarrow> [0..<numRoles st]]) 1.
                        n \<leftarrow> [0..<numResources st], d \<leftarrow> [0..<numDays st - 1],
                        s \<leftarrow> [0..<numShifts st]] \<rparr>))"

definition banShift :: "solver \<Rightarrow> nat \<times> int \<times> nat \<Rightarrow> error + solver" where
  "banShift st arg =
     (case mapM_e (\<lambda>r.
              case vars_at st (int (fst arg)) (int r) (fst (snd arg)) (int (snd (snd arg))) of
                Inl e \<Rightarrow> Inl e
              | Inr x \<Rightarrow> Inr (EqC [(1, x)] 0))
            [0..<numRoles st] of
        Inl e \<Rightarrow> Inl e
      | Inr cs \<Rightarrow> Inr (st\<lparr> model := model st @ cs \<rparr>))"

definition maxHoursPerWeek :: "solver \<Rightarrow> solver" where
  "maxHoursPerWeek st = st"

definition Solver_childConstraints :: "solver \<Rightarrow> args \<Rightarrow> error + solver" where
  "Solver_childConstraints st a = Inr st"

subsection \<open>Hospital rules and objective\<close>

definition dayAfterNight :: "solver \<Rightarrow> error + solver" where
  "dayAfterNight st = nextDayShift st [(2, 0), (2, 1), (2, 2)]"

definition hardLeave :: "solver \<Rightarrow> (string \<times> int) list \<Rightarrow> error + solver" where
  "hardLeave st arg =
     foldM_e (\<lambda>st1 leave.
        foldM_e (\<lambda>st2 shift.
           case dict_get (resourceIdLookup st2) (fst leave) of Inl e \<Rightarrow> Inl e
           | Inr rid \<Rightarrow> banShift st2 (rid, snd leave, shift))
          st1 [0..<numShifts st1])
       st arg"

definition penalty_step ::
  "solver \<Rightarrow> string \<times> int \<times> real \<Rightarrow> (var \<Rightarrow> real) \<Rightarrow> nat \<times> nat \<Rightarrow> error + (var \<Rightarrow> real)" where
  "penalty_step st request grid sr =
     (case dict_get (resourceIdLookup st) (fst request) of Inl e \<Rightarrow> Inl e | Inr rid \<Rightarrow>
      (case vars_at st (int rid) (int (snd sr)) (fst (snd request)) (int (fst sr)) of
         Inl e \<Rightarrow> Inl e
       | Inr x \<Rightarrow> Inr (grid(x := snd (snd request)))))"

definition penalty_grid ::
  "solver \<Rightarrow> (string \<times> int \<times> real) list \<Rightarrow> error + (var \<Rightarrow> real)" where
  "penalty_grid st arg =
     foldM_e (\<lambda>grid request.
        foldM_e (penalty_step st request) grid
          [(s, r). s \<leftarrow> [0..<numShifts st], r \<leftarrow> [0..<numRoles st]])
       (\<lambda>x. 0) arg"

definition softLeave :: "solver \<Rightarrow> (string \<times> int \<times> real) list \<Rightarrow> error + solver" where
  "softLeave st arg =
     (case penalty_grid st arg of Inl e \<Rightarrow> Inl e
      | Inr resourcesLeaveRequests \<Rightarrow>
          Inr (st\<lparr> objective := Some
                 [(resourcesLeaveRequests (n, r, d, s), (n, r, d, s)).
                    n \<leftarrow> [0..<numResources st], r \<leftarrow> [0..<numRoles st],
                    d \<leftarrow> [0..<numDays st], s \<leftarrow> [0..<numShifts st]] \<rparr>))"

definition HospitalSolver_childConstraints :: "solver \<Rightarrow> args \<Rightarrow> error + solver" where
  "HospitalSolver_childConstraints st a =
     (case dayAfterNight st of Inl e \<Rightarrow> Inl e | Inr st1 \<Rightarrow>
      (case hardLeave st1 (hardLeaves a) of Inl e \<Rightarrow> Inl e | Inr st2 \<Rightarrow>
         softLeave st2 (softLeaves a)))"

subsection \<open>Solve orchestrator\<close>

text \<open>The engine is external: it is a parameter that maps the time budget, the worker
  count, the constraints and the objective to a status and a valuation.\<close>

type_synonym engine =
  "nat \<Rightarrow> nat \<Rightarrow> constr list \<Rightarrow> (real \<times> var) list option \<Rightarrow> status \<times> (var \<Rightarrow> bool)"

definition finalSolve :: "engine \<Rightarrow> solver \<Rightarrow> solver \<times> status" where
  "finalSolve eng st =
     (let res = eng (maxSearchTime st) (numCores st) (model st) (objective st)
      in (st\<lparr> solution := Some (snd res) \<rparr>, fst res))"

text \<open>Model construction: every statement of \<^verbatim>\<open>solve\<close> before \<^verbatim>\<open>_finalSolve\<close>.
  \<open>child\<close> is the \<^verbatim>\<open>childConstraints\<close> of the class of the object.\<close>

definition construct ::
  "(solver \<Rightarrow> args \<Rightarrow> error + solver) \<Rightarrow> solver \<Rightarrow> args \<Rightarrow> error + solver" where
  "construct child st a =
     (let st0 = (createModel st)\<lparr> numDays := length (requirementMatrix a) \<rparr>
      in case list_get (requirementMatrix a) 0 of Inl e \<Rightarrow> Inl e | Inr day0 \<Rightarrow>
         (case createEmployeeRoleLookup (st0\<lparr> numShifts := length day0 \<rparr>) (resourceRoleMap a) of
            Inl e \<Rightarrow> Inl e | Inr st1 \<Rightarrow>
          (case removeExtraRoles (createVars st1) of Inl e \<Rightarrow> Inl e | Inr st2 \<Rightarrow>
           (case createRequirementMapping st2 (requirementMatrix a) of Inl e \<Rightarrow> Inl e | Inr st3 \<Rightarrow>
            (case setRequirementConstraint st3 of Inl e \<Rightarrow> Inl e | Inr st4 \<Rightarrow>
               child (maxOneShiftPerDay st4) a)))))"

text \<open>What a Python call hands back: a function that ends without \<^verbatim>\<open>return\<close> gives
  \<^verbatim>\<open>None\<close>.\<close>

datatype retval = NoneVal | StatusVal status

definition solve ::
  "(solver \<Rightarrow> args \<Rightarrow> error + solver) \<Rightarrow> engine \<Rightarrow> solver \<Rightarrow> args \<Rightarrow> error + solver \<times> retval" where
  "solve child eng st a =
     (case construct child st a of Inl e \<Rightarrow> Inl e
      | Inr st1 \<Rightarrow> (let res = finalSolve eng st1 in Inr (fst res, NoneVal)))"

definition HospitalSolver_solve :: "engine \<Rightarrow> nat \<Rightarrow> args \<Rightarrow> error + solver \<times> retval" where
  "HospitalSolver_solve eng cpu_count a =
     solve HospitalSolver_childConstraints eng (HospitalSolver_init cpu_count) a"

text \<open>A valuation is accepted by the model when it satisfies every constraint added.\<close>

definition accepted :: "(var \<Rightarrow> bool) \<Rightarrow> solver \<Rightarrow> bool" where
  "accepted v st = list_all (holds v) (model st)"

text \<open>A small problem used to run the code: one resource \<open>A\<close> with the single role
  \<open>R1\<close>, one day of three shifts, no head-count needed, no leave.\<close>

definition tiny_args :: args where
  "tiny_args = \<lparr> resourceRoleMap = [(''A'', [''R1''])],
                 requirementMatrix = [[[(''R1'', 0)], [], []]],
                 hardLeaves = [], softLeaves = [] \<rparr>"

definition idle_engine :: engine where
  "idle_engine t w cs ob = (OPTIMAL, (\<lambda>x. False))"

text \<open>Frame condition: two solver objects with the same grid dimensions and registry.\<close>

definition same_registry :: "solver \<Rightarrow> solver \<Rightarrow> bool" where
  "same_registry s t \<longleftrightarrow>
     numDays t = numDays s \<and> numShifts t = numShifts s \<and>
     numResources t = numResources s \<and> numRoles t = numRoles s \<and>
     resourcesLookup t = resourcesLookup s \<and> resourceIdLookup t = resourceIdLookup s \<and>
     rolesLookup t = rolesLookup s \<and> rolesIdLookup t = rolesIdLookup s \<and>
     resourceRoleMapping t = resourceRoleMapping s"

text \<open>A second, larger problem: resources \<open>A\<close> (role \<open>R1\<close>) and \<open>B\<close> (roles \<open>R1\<close>,
  \<open>R2\<close>), two days of three shifts, one \<open>R1\<close> needed on day 0 shift 0, \<open>A\<close> on leave on
  day 1, \<open>B\<close> preferring not to work on day 0. In \<open>demo_val\<close> resource \<open>A\<close> works \<open>R1\<close> on
  day 0, shift 0, and nobody else works.\<close>

definition demo_args :: args where
  "demo_args = \<lparr> resourceRoleMap = [(''A'', [''R1'']), (''B'', [''R1'', ''R2''])],
                 requirementMatrix = [[[(''R1'', 1)], [], []], [[], [], []]],
                 hardLeaves = [(''A'', 1)], softLeaves = [(''B'', 0, 1 / 2)] \<rparr>"

definition demo_val :: "var \<Rightarrow> bool" where
  "demo_val x = (x = (0, 0, 0, 0))"

definition demo_solver :: solver where
  "demo_solver = projr (construct HospitalSolver_childConstraints (HospitalSolver_init 1) demo_args)"

text \<open>A \<^verbatim>\<open>childConstraints\<close> hook that only adds constraints: whenever it returns, the grid,
  the registry and the requirement mapping are the ones it was given and the model is the
  one it was given followed by further constraints. The hooks of both classes of the file
  are of this kind.\<close>

definition appends_constraints :: "(solver \<Rightarrow> args \<Rightarrow> error + solver) \<Rightarrow> bool" where
  "appends_constraints child \<longleftrightarrow>
     (\<forall>st a st'. child st a = Inr st' \<longrightarrow>
        same_registry st st' \<and> requirementMapping st' = requirementMapping st \<and>
        (\<exists>cs. model st' = model st @ cs))"

text \<open>A problem for the base class: resources \<open>A\<close> (role \<open>R1\<close>) and \<open>B\<close> (role \<open>R2\<close>), one
  day of one shift on which one \<open>R1\<close> is needed. In \<open>small_val\<close> resource \<open>A\<close> works it.\<close>

definition small_args :: args where
  "small_args = \<lparr> resourceRoleMap = [(''A'', [''R1'']), (''B'', [''R2''])],
                  requirementMatrix = [[[(''R1'', 1)]]],
                  hardLeaves = [], softLeaves = [] \<rparr>"

definition small_val :: "var \<Rightarrow> bool" where
  "small_val x = (x = (0, 0, 0, 0))"

definition small_solver :: solver where
  "small_solver = projr (construct Solver_childConstraints (Solver_init 1 250 True) small_args)"


text \<open>The hospital problem as the base class leaves it, before the hook of
  \<^verbatim>\<open>HospitalSolver\<close> runs.\<close>

definition demo_base :: solver where
  "demo_base = projr (construct Solver_childConstraints (HospitalSolver_init 1) demo_args)"

text \<open>A hospital problem with two soft-leave requests for the same resource and day: resources
  \<open>A\<close> and \<open>B\<close> with the one role \<open>R1\<close>, one day of three shifts, nobody needed; \<open>B\<close> asks
  for day 0 with weight 1 and then again with weight 2.\<close>

definition overwrite_args :: args where
  "overwrite_args = \<lparr> resourceRoleMap = [(''A'', [''R1'']), (''B'', [''R1''])],
                      requirementMatrix = [[[], [], []]],
                      hardLeaves = [], softLeaves = [(''B'', 0, 1), (''B'', 0, 2)] \<rparr>"

definition overwrite_solver :: solver where
  "overwrite_solver =
     projr (construct HospitalSolver_childConstraints (HospitalSolver_init 1) overwrite_args)"

text \<open>A hospital problem with four shifts a day: one resource \<open>A\<close> with the role \<open>R1\<close>, two
  days, nobody needed, no leave. In \<open>four_val\<close> resource \<open>A\<close> works shift 2 on day 0 and
  shift 3 on day 1. \<open>four_base\<close> is the object before the hook of \<^verbatim>\<open>HospitalSolver\<close> runs.\<close>

definition four_args :: args where
  "four_args = \<lparr> resourceRoleMap = [(''A'', [''R1''])],
                 requirementMatrix = [[[], [], [], []], [[], [], [], []]],
                 hardLeaves = [], softLeaves = [] \<rparr>"

definition four_val :: "var \<Rightarrow> bool" where
  "four_val x = (x = (0, 0, 0, 2) \<or> x = (0, 0, 1, 3))"

definition four_base :: solver where
  "four_base = projr (construct Solver_childConstraints (HospitalSolver_init 1) four_args)"

definition four_solver :: solver where
  "four_solver = projr (construct HospitalSolver_childConstraints (HospitalSolver_init 1) four_args)"

text \<open>The hospital problem after the transition rule of \<^verbatim>\<open>_dayAfterNight\<close> alone. In
  \<open>night_val\<close> resource \<open>A\<close> works the night shift of day 0 and resource \<open>B\<close> the first shift
  of day 0.\<close>

definition demo_night :: solver where
  "demo_night = projr (nextDayShift demo_base [(2, 0), (2, 1), (2, 2)])"

definition night_val :: "var \<Rightarrow> bool" where
  "night_val x = (x = (0, 0, 0, 2) \<or> x = (1, 0, 0, 0))"

section \<open>General facts about the fallible loops\<close>

lemma mapM_e_InrD: "mapM_e f xs = Inr ys \<Longrightarrow> list_all2 (\<lambda>x y. f x = Inr y) xs ys"
  by (induction xs arbitrary: ys) (auto split: sum.splits)

lemma mapM_e_InrI: "list_all2 (\<lambda>x y. f x = Inr y) xs ys \<Longrightarrow> mapM_e f xs = Inr ys"
  by (induction xs ys rule: list_all2_induct) auto

lemma mapM_e_Inr_iff: "mapM_e f xs = Inr ys \<longleftrightarrow> list_all2 (\<lambda>x y. f x = Inr y) xs ys"
  using mapM_e_InrD mapM_e_InrI by blast

lemma mapM_e_map: "(\<And>x. x \<in> set xs \<Longrightarrow> f x = Inr (g x)) \<Longrightarrow> mapM_e f xs = Inr (map g xs)"
  by (induction xs) auto


lemma foldM_e_inv:
  "foldM_e f s xs = Inr s' \<Longrightarrow> P s \<Longrightarrow>
   (\<And>s x s'. P s \<Longrightarrow> x \<in> set xs \<Longrightarrow> f s x = Inr s' \<Longrightarrow> P s') \<Longrightarrow> P s'"
proof (induction xs arbitrary: s)
  case Nil then show ?case by simp
next
  case (Cons x xs)
  from Cons.prems(1) obtain s1 where s1: "f s x = Inr s1" and r: "foldM_e f s1 xs = Inr s'"
    by (auto split: sum.splits)
  have "x \<in> set (x # xs)" by simp
  from Cons.prems(3)[OF Cons.prems(2) this s1] have p1: "P s1" .
  show ?case
  proof (rule Cons.IH[OF r p1])
    fix t y t' assume a: "P t" "y \<in> set xs" "f t y = Inr t'"
    from a(2) have "y \<in> set (x # xs)" by simp
    from Cons.prems(3)[OF a(1) this a(3)] show "P t'" .
  qed
qed

section \<open>The status of the engine and the value of solve\<close>

lemma solve_value:
  "map_sum id snd (solve child eng st a) = map_sum id (\<lambda>_. NoneVal) (construct child st a)"
  by (simp add: solve_def Let_def split: sum.splits)

text \<open>
  C2 (the engine's status is handed back verbatim by \<^verbatim>\<open>solve\<close>). The code does not do
  this: \<^verbatim>\<open>solve\<close> calls \<^verbatim>\<open>_finalSolve\<close> and drops its result, so the call
  evaluates to \<^verbatim>\<open>None\<close>. On the small problem, with an engine that reports
  \<open>OPTIMAL\<close>, model construction succeeds, the engine's status is \<open>OPTIMAL\<close> and the value of
  \<^verbatim>\<open>solve\<close> is \<^verbatim>\<open>None\<close>, not that status.
\<close>

theorem solve_drops_status:
  "map_sum id snd (HospitalSolver_solve idle_engine 1 tiny_args) = Inr NoneVal
   \<and> map_sum id snd (HospitalSolver_solve idle_engine 1 tiny_args) \<noteq> Inr (StatusVal OPTIMAL)
   \<and> map_sum id (\<lambda>st. snd (finalSolve idle_engine st))
        (construct HospitalSolver_childConstraints (HospitalSolver_init 1) tiny_args) = Inr OPTIMAL"
proof -
  have ok: "\<not> isl (construct HospitalSolver_childConstraints (HospitalSolver_init 1) tiny_args)"
    by code_simp
  then obtain st where st:
    "construct HospitalSolver_childConstraints (HospitalSolver_init 1) tiny_args = Inr st"
    by (cases "construct HospitalSolver_childConstraints (HospitalSolver_init 1) tiny_args") auto
  have "map_sum id snd (HospitalSolver_solve idle_engine 1 tiny_args) = Inr NoneVal"
    unfolding HospitalSolver_solve_def solve_value st by simp
  moreover have "snd (finalSolve idle_engine st) = OPTIMAL"
    by (simp add: finalSolve_def idle_engine_def Let_def)
  ultimately show ?thesis using st by simp
qed

section \<open>Indexing and membership\<close>

lemma py_index_nat: "py_index n (int i) = (if i < n then Inr i else Inl IndexError)"
  by (simp add: py_index_def)

lemma list_get_nat: "list_get xs (int i) = (if i < length xs then Inr (xs ! i) else Inl IndexError)"
  by (simp add: list_get_def py_index_nat)

lemma vars_at_nat:
  "vars_at st (int n) (int r) (int d) (int s) =
     (if n < numResources st \<and> r < numRoles st \<and> d < numDays st \<and> s < numShifts st
      then Inr (n, r, d, s) else Inl IndexError)"
  by (simp add: vars_at_def py_index_nat)

lemma in_set_comp3:
  "x \<in> set [f a b c. a \<leftarrow> as, b \<leftarrow> bs, c \<leftarrow> cs] \<longleftrightarrow>
     (\<exists>a\<in>set as. \<exists>b\<in>set bs. \<exists>c\<in>set cs. x = f a b c)"
  by auto

lemma in_set_comp2:
  "x \<in> set [f a b. a \<leftarrow> as, b \<leftarrow> bs] \<longleftrightarrow> (\<exists>a\<in>set as. \<exists>b\<in>set bs. x = f a b)"
  by auto

lemma mapM_e_nth:
  assumes "mapM_e f xs = Inr ys"
  shows "length ys = length xs" and "\<And>i. i < length xs \<Longrightarrow> f (xs ! i) = Inr (ys ! i)"
proof -
  from mapM_e_InrD[OF assms] have l2: "list_all2 (\<lambda>x y. f x = Inr y) xs ys" .
  then show "length ys = length xs" by (simp add: list_all2_lengthD)
  fix i assume "i < length xs"
  with l2 show "f (xs ! i) = Inr (ys ! i)" by (rule list_all2_nthD)
qed

lemma mapM_e_upt:
  assumes "mapM_e f [0..<n] = Inr ys"
  shows "length ys = n" and "\<And>i. i < n \<Longrightarrow> f i = Inr (ys ! i)"
proof -
  show "length ys = n" using mapM_e_nth(1)[OF assms] by simp
  fix i assume "i < n"
  then show "f i = Inr (ys ! i)" using mapM_e_nth(2)[OF assms, of i] by simp
qed

lemma removeExtraRoles_Inr:
  assumes "removeExtraRoles st = Inr st'"
  shows "\<exists>css. st' = st\<lparr>model := model st @ concat css\<rparr> \<and> length css = numResources st \<and>
           (\<forall>n<numResources st. \<exists>rl. resourceRoleMapping st n = Some rl \<and>
              css ! n = [EqC [(1, (n, role, d, s))] 0.
                           role \<leftarrow> filter (\<lambda>role. role \<notin> set rl) [0..<numRoles st],
                           d \<leftarrow> [0..<numDays st], s \<leftarrow> [0..<numShifts st]])"
proof -
  let ?f = "\<lambda>resource.
              case dict_get (resourceRoleMapping st) resource of Inl e \<Rightarrow> Inl e
              | Inr roleList \<Rightarrow>
                  Inr (let roleAbsent = filter (\<lambda>role. role \<notin> set roleList) [0..<numRoles st]
                       in [EqC [(1, (resource, role, d, s))] 0.
                             role \<leftarrow> roleAbsent, d \<leftarrow> [0..<numDays st], s \<leftarrow> [0..<numShifts st]])"
  from assms obtain css where m: "mapM_e ?f [0..<numResources st] = Inr css"
    and st': "st' = st\<lparr>model := model st @ concat css\<rparr>"
    unfolding removeExtraRoles_def by (auto split: sum.splits)
  have len: "length css = numResources st" by (rule mapM_e_upt(1)[OF m])
  have "\<forall>n<numResources st. ?f n = Inr (css ! n)"
    using mapM_e_upt(2)[OF m] by blast
  then have "\<forall>n<numResources st. \<exists>rl. resourceRoleMapping st n = Some rl \<and>
              css ! n = [EqC [(1, (n, role, d, s))] 0.
                           role \<leftarrow> filter (\<lambda>role. role \<notin> set rl) [0..<numRoles st],
                           d \<leftarrow> [0..<numDays st], s \<leftarrow> [0..<numShifts st]]"
    by (auto simp: dict_get_def Let_def split: option.splits sum.splits)
  with st' len show ?thesis by blast
qed

lemma removeExtraRoles_mem:
  assumes "removeExtraRoles st = Inr st'" "n < numResources st" "resourceRoleMapping st n = Some rl"
    "k < numRoles st" "k \<notin> set rl" "d < numDays st" "s < numShifts st"
  shows "EqC [(1, (n, k, d, s))] 0 \<in> set (model st')"
proof -
  from removeExtraRoles_Inr[OF assms(1)] obtain css where
    st': "st' = st\<lparr>model := model st @ concat css\<rparr>" and len: "length css = numResources st"
    and c: "\<forall>n<numResources st. \<exists>rl. resourceRoleMapping st n = Some rl \<and>
              css ! n = [EqC [(1, (n, role, d, s))] 0.
                           role \<leftarrow> filter (\<lambda>role. role \<notin> set rl) [0..<numRoles st],
                           d \<leftarrow> [0..<numDays st], s \<leftarrow> [0..<numShifts st]]" by blast
  from c assms(2,3) have cn: "css ! n = [EqC [(1, (n, role, d, s))] 0.
                           role \<leftarrow> filter (\<lambda>role. role \<notin> set rl) [0..<numRoles st],
                           d \<leftarrow> [0..<numDays st], s \<leftarrow> [0..<numShifts st]]" by auto
  have "EqC [(1, (n, k, d, s))] 0 \<in> set (css ! n)"
    unfolding cn in_set_comp3 using assms(4-7) by (intro bexI[of _ k] bexI[of _ d] bexI[of _ s]) auto
  moreover have "css ! n \<in> set css" using len assms(2) by simp
  ultimately have "EqC [(1, (n, k, d, s))] 0 \<in> set (concat css)" by auto
  then show ?thesis by (simp add: st')
qed

lemma mapM_e_mem:
  assumes "mapM_e f xs = Inr ys" "x \<in> set xs"
  shows "\<exists>y\<in>set ys. f x = Inr y"
proof -
  from assms(2) obtain i where i: "i < length xs" "xs ! i = x" by (auto simp: in_set_conv_nth)
  from mapM_e_nth[OF assms(1)] i have "f x = Inr (ys ! i)" "i < length ys" by auto
  then show ?thesis by (metis nth_mem)
qed

lemma mapM_e_mem2:
  assumes "mapM_e f xs = Inr ys" "y \<in> set ys"
  shows "\<exists>x\<in>set xs. f x = Inr y"
proof -
  from assms(2) obtain i where i: "i < length ys" "ys ! i = y" by (auto simp: in_set_conv_nth)
  from mapM_e_nth[OF assms(1)] i have "f (xs ! i) = Inr y" "i < length xs" by auto
  then show ?thesis by (metis nth_mem)
qed

lemma mapM_e_eq_map:
  assumes "mapM_e f xs = Inr ys" "\<And>x y. x \<in> set xs \<Longrightarrow> f x = Inr y \<Longrightarrow> y = g x"
  shows "ys = map g xs"
proof (rule nth_equalityI)
  show "length ys = length (map g xs)" using mapM_e_nth(1)[OF assms(1)] by simp
  fix i assume "i < length ys"
  then have i: "i < length xs" using mapM_e_nth(1)[OF assms(1)] by simp
  from mapM_e_nth(2)[OF assms(1) i] have "f (xs ! i) = Inr (ys ! i)" .
  from assms(2)[OF _ this] i show "ys ! i = map g xs ! i" by simp
qed

lemma headcount_Inr:
  assumes "headcount st role d s = Inr lhs"
  shows "lhs = map (\<lambda>n. (1, (n, role, d, s))) [0..<numResources st]"
  using assms unfolding headcount_def
  by (rule mapM_e_eq_map) (auto simp: vars_at_nat split: if_splits)

lemma requirement_at_Inr:
  assumes "requirement_at st (d, s) = Inr cs"
  shows "d < length (requirementMapping st) \<and> s < length (requirementMapping st ! d) \<and>
         cs = map (\<lambda>role. GeC (map (\<lambda>n. (1, (n, role, d, s))) [0..<numResources st])
                              (the (map_of (requirementMapping st ! d ! s) role)))
                  (map fst (requirementMapping st ! d ! s))"
proof -
  from assms have d: "d < length (requirementMapping st)"
    unfolding requirement_at_def by (auto simp: list_get_nat split: sum.splits if_splits)
  from assms d have s: "s < length (requirementMapping st ! d)"
    unfolding requirement_at_def by (auto simp: list_get_nat split: sum.splits if_splits)
  let ?rr = "requirementMapping st ! d ! s"
  from assms d s have m: "mapM_e (\<lambda>role.
            case headcount st role d s of Inl e \<Rightarrow> Inl e | Inr lhs \<Rightarrow>
            (case alist_get ?rr role of Inl e \<Rightarrow> Inl e
             | Inr req \<Rightarrow> Inr (GeC lhs req)))
           (map fst ?rr) = Inr cs"
    unfolding requirement_at_def by (simp add: list_get_nat)
  have "cs = map (\<lambda>role. GeC (map (\<lambda>n. (1, (n, role, d, s))) [0..<numResources st])
                              (the (map_of ?rr role))) (map fst ?rr)"
    using m by (rule mapM_e_eq_map)
      (auto simp: alist_get_def dict_get_def dest!: headcount_Inr split: sum.splits option.splits)
  with d s show ?thesis by simp
qed

section \<open>What each encoder step adds to the model\<close>

lemma setRequirementConstraint_Inr:
  assumes "setRequirementConstraint st = Inr st'"
  shows "\<exists>css. st' = st\<lparr>model := model st @ concat css\<rparr> \<and>
           mapM_e (requirement_at st)
             [(d, s). d \<leftarrow> [0..<numDays st], s \<leftarrow> [0..<numShifts st]] = Inr css"
  using assms unfolding setRequirementConstraint_def by (auto split: sum.splits)

lemma banShift_Inr:
  assumes "banShift st (rid, day, shift) = Inr st'"
  shows "\<exists>cs. st' = st\<lparr>model := model st @ cs\<rparr> \<and>
           (\<forall>c\<in>set cs. \<exists>x. c = EqC [(1, x)] 0) \<and>
           (\<forall>r<numRoles st. \<exists>d'. rid < numResources st \<and> shift < numShifts st \<and>
               py_index (numDays st) day = Inr d' \<and> EqC [(1, (rid, r, d', shift))] 0 \<in> set cs)"
proof -
  let ?f = "\<lambda>r. case vars_at st (int rid) (int r) day (int shift) of
                Inl e \<Rightarrow> Inl e
              | Inr x \<Rightarrow> Inr (EqC [(1, x)] 0)"
  from assms obtain cs where m: "mapM_e ?f [0..<numRoles st] = Inr cs"
    and st': "st' = st\<lparr>model := model st @ cs\<rparr>"
    unfolding banShift_def by (auto split: sum.splits)
  have a: "\<forall>c\<in>set cs. \<exists>x. c = EqC [(1, x)] 0"
  proof
    fix c assume "c \<in> set cs"
    from mapM_e_mem2[OF m this] obtain r where r: "?f r = Inr c" by blast
    show "\<exists>x. c = EqC [(1, x)] 0"
    proof (cases "vars_at st (int rid) (int r) day (int shift)")
      case (Inl e) with r show ?thesis by simp
    next
      case (Inr x)
      with r have "c = EqC [(1, x)] 0" by simp
      then show ?thesis by (rule exI)
    qed
  qed
  have b: "\<forall>r<numRoles st. \<exists>d'. rid < numResources st \<and> shift < numShifts st \<and>
               py_index (numDays st) day = Inr d' \<and> EqC [(1, (rid, r, d', shift))] 0 \<in> set cs"
  proof (intro allI impI)
    fix r assume r: "r < numRoles st"
    from mapM_e_upt[OF m] r have fr: "?f r = Inr (cs ! r)" and len: "length cs = numRoles st" by auto
    from fr obtain x where x: "vars_at st (int rid) (int r) day (int shift) = Inr x"
      and c: "cs ! r = EqC [(1, x)] 0" by (auto split: sum.splits)
    from x obtain d' where d': "py_index (numDays st) day = Inr d'" "rid < numResources st"
      "shift < numShifts st" "x = (rid, r, d', shift)"
      unfolding vars_at_def by (auto simp: py_index_nat split: sum.splits if_splits)
    have "cs ! r \<in> set cs" using len r by simp
    with c d' show "\<exists>d'. rid < numResources st \<and> shift < numShifts st \<and>
               py_index (numDays st) day = Inr d' \<and> EqC [(1, (rid, r, d', shift))] 0 \<in> set cs"
      by auto
  qed
  from st' a b show ?thesis by blast
qed

lemma hardLeave_inner:
  assumes "foldM_e (\<lambda>st2 shift.
             case dict_get (resourceIdLookup st2) k of Inl e \<Rightarrow> Inl e
             | Inr rid \<Rightarrow> banShift st2 (rid, day, shift)) st ss = Inr st'"
  shows "\<exists>cs. st' = st\<lparr>model := model st @ cs\<rparr> \<and>
           (\<forall>c\<in>set cs. \<exists>x. c = EqC [(1, x)] 0) \<and>
           (\<forall>s\<in>set ss. \<forall>r<numRoles st. \<exists>n d'. resourceIdLookup st k = Some n \<and>
               n < numResources st \<and> s < numShifts st \<and>
               py_index (numDays st) day = Inr d' \<and> EqC [(1, (n, r, d', s))] 0 \<in> set cs)"
  using assms
proof (induction ss arbitrary: st)
  case Nil
  then have "st' = st\<lparr>model := model st @ []\<rparr>" by simp
  then show ?case by (intro exI[of _ "[]"]) simp
next
  case (Cons s0 ss)
  let ?g = "\<lambda>st2 shift.
             case dict_get (resourceIdLookup st2) k of Inl e \<Rightarrow> Inl e
             | Inr rid \<Rightarrow> banShift st2 (rid, day, shift)"
  from Cons.prems obtain st1 where g0: "?g st s0 = Inr st1" and rest: "foldM_e ?g st1 ss = Inr st'"
    by (auto split: sum.splits)
  from g0 obtain rid where rid: "resourceIdLookup st k = Some rid"
    and b: "banShift st (rid, day, s0) = Inr st1"
    by (auto simp: dict_get_def split: option.splits sum.splits)
  from banShift_Inr[OF b] obtain cs0 where
    st1: "st1 = st\<lparr>model := model st @ cs0\<rparr>"
    and e0: "\<forall>c\<in>set cs0. \<exists>x. c = EqC [(1, x)] 0"
    and m0: "\<forall>r<numRoles st. \<exists>d'. rid < numResources st \<and> s0 < numShifts st \<and>
               py_index (numDays st) day = Inr d' \<and> EqC [(1, (rid, r, d', s0))] 0 \<in> set cs0"
    by blast
  from Cons.IH[OF rest] obtain cs1 where
    st': "st' = st1\<lparr>model := model st1 @ cs1\<rparr>"
    and e1: "\<forall>c\<in>set cs1. \<exists>x. c = EqC [(1, x)] 0"
    and m1: "\<forall>s\<in>set ss. \<forall>r<numRoles st1. \<exists>n d'. resourceIdLookup st1 k = Some n \<and>
               n < numResources st1 \<and> s < numShifts st1 \<and>
               py_index (numDays st1) day = Inr d' \<and> EqC [(1, (n, r, d', s))] 0 \<in> set cs1"
    by blast
  have eq: "st' = st\<lparr>model := model st @ (cs0 @ cs1)\<rparr>" using st' st1 by simp
  have e: "\<forall>c\<in>set (cs0 @ cs1). \<exists>x. c = EqC [(1, x)] 0" using e0 e1 by auto
  have m: "\<forall>s\<in>set (s0 # ss). \<forall>r<numRoles st. \<exists>n d'. resourceIdLookup st k = Some n \<and>
               n < numResources st \<and> s < numShifts st \<and>
               py_index (numDays st) day = Inr d' \<and> EqC [(1, (n, r, d', s))] 0 \<in> set (cs0 @ cs1)"
  proof (intro ballI allI impI)
    fix s r assume s: "s \<in> set (s0 # ss)" and r: "r < numRoles st"
    show "\<exists>n d'. resourceIdLookup st k = Some n \<and>
               n < numResources st \<and> s < numShifts st \<and>
               py_index (numDays st) day = Inr d' \<and> EqC [(1, (n, r, d', s))] 0 \<in> set (cs0 @ cs1)"
    proof (cases "s = s0")
      case True
      with m0 r rid show ?thesis by fastforce
    next
      case False
      with s have "s \<in> set ss" by simp
      with m1 r st1 show ?thesis by fastforce
    qed
  qed
  from eq e m show ?case by blast
qed

lemma hardLeave_Inr:
  assumes "hardLeave st arg = Inr st'"
  shows "\<exists>cs. st' = st\<lparr>model := model st @ cs\<rparr> \<and>
           (\<forall>c\<in>set cs. \<exists>x. c = EqC [(1, x)] 0) \<and>
           (\<forall>leave\<in>set arg. \<forall>s<numShifts st. \<forall>r<numRoles st.
               \<exists>n d'. resourceIdLookup st (fst leave) = Some n \<and> n < numResources st \<and>
               py_index (numDays st) (snd leave) = Inr d' \<and>
               EqC [(1, (n, r, d', s))] 0 \<in> set cs)"
  using assms unfolding hardLeave_def
proof (induction arg arbitrary: st)
  case Nil
  then have "st' = st\<lparr>model := model st @ []\<rparr>" by simp
  then show ?case by (intro exI[of _ "[]"]) simp
next
  case (Cons l ls)
  let ?g = "\<lambda>k day st2 shift.
             case dict_get (resourceIdLookup st2) k of Inl e \<Rightarrow> Inl e
             | Inr rid \<Rightarrow> banShift st2 (rid, day, shift)"
  let ?h = "\<lambda>st1 leave. foldM_e (?g (fst leave) (snd leave)) st1 [0..<numShifts st1]"
  from Cons.prems obtain st1 where h0: "?h st l = Inr st1" and rest: "foldM_e ?h st1 ls = Inr st'"
    by (auto split: sum.splits)
  from hardLeave_inner[OF h0] obtain cs0 where
    st1: "st1 = st\<lparr>model := model st @ cs0\<rparr>"
    and e0: "\<forall>c\<in>set cs0. \<exists>x. c = EqC [(1, x)] 0"
    and m0: "\<forall>s\<in>set [0..<numShifts st]. \<forall>r<numRoles st. \<exists>n d'.
               resourceIdLookup st (fst l) = Some n \<and>
               n < numResources st \<and> s < numShifts st \<and>
               py_index (numDays st) (snd l) = Inr d' \<and> EqC [(1, (n, r, d', s))] 0 \<in> set cs0"
    by blast
  from Cons.IH[OF rest] obtain cs1 where
    st': "st' = st1\<lparr>model := model st1 @ cs1\<rparr>"
    and e1: "\<forall>c\<in>set cs1. \<exists>x. c = EqC [(1, x)] 0"
    and m1: "\<forall>leave\<in>set ls. \<forall>s<numShifts st1. \<forall>r<numRoles st1.
               \<exists>n d'. resourceIdLookup st1 (fst leave) = Some n \<and> n < numResources st1 \<and>
               py_index (numDays st1) (snd leave) = Inr d' \<and>
               EqC [(1, (n, r, d', s))] 0 \<in> set cs1"
    by blast
  have eq: "st' = st\<lparr>model := model st @ (cs0 @ cs1)\<rparr>" using st' st1 by simp
  have e: "\<forall>c\<in>set (cs0 @ cs1). \<exists>x. c = EqC [(1, x)] 0" using e0 e1 by auto
  have m: "\<forall>leave\<in>set (l # ls). \<forall>s<numShifts st. \<forall>r<numRoles st.
               \<exists>n d'. resourceIdLookup st (fst leave) = Some n \<and> n < numResources st \<and>
               py_index (numDays st) (snd leave) = Inr d' \<and>
               EqC [(1, (n, r, d', s))] 0 \<in> set (cs0 @ cs1)"
  proof (intro ballI allI impI)
    fix leave s r assume l: "leave \<in> set (l # ls)" and s: "s < numShifts st" and r: "r < numRoles st"
    show "\<exists>n d'. resourceIdLookup st (fst leave) = Some n \<and> n < numResources st \<and>
               py_index (numDays st) (snd leave) = Inr d' \<and>
               EqC [(1, (n, r, d', s))] 0 \<in> set (cs0 @ cs1)"
    proof (cases "leave = l")
      case True
      from s have "s \<in> set [0..<numShifts st]" by simp
      with m0 r True show ?thesis by fastforce
    next
      case False
      with l have "leave \<in> set ls" by simp
      with m1 r s st1 show ?thesis by fastforce
    qed
  qed
  from eq e m show ?case by blast
qed

lemma reindex_shift_distinct:
  assumes "reindex_shift st shift = Inr rr"
  shows "distinct (map fst rr)"
proof -
  let ?f = "\<lambda>acc role.
        case dict_get (rolesIdLookup st) role of Inl e \<Rightarrow> Inl e | Inr rid \<Rightarrow>
        (case alist_get shift role of Inl e \<Rightarrow> Inl e
         | Inr req \<Rightarrow> Inr (AList.update rid req acc))"
  from assms have f: "foldM_e ?f [] (map fst shift) = Inr rr" unfolding reindex_shift_def .
  show ?thesis
  proof (rule foldM_e_inv[OF f, where P = "\<lambda>acc. distinct (map fst acc)"])
    show "distinct (map fst [])" by simp
  next
    fix s :: "(nat \<times> int) list" and x s'
    assume "distinct (map fst s)" "?f s x = Inr s'"
    then show "distinct (map fst s')"
      by (auto simp: distinct_update split: sum.splits)
  qed
qed

lemma createRequirementMapping_Inr:
  assumes "createRequirementMapping st arg = Inr st'"
  shows "\<exists>rm. st' = st\<lparr>requirementMapping := rm\<rparr> \<and> length rm = length arg \<and>
           (\<forall>d<length rm. length (rm ! d) = length (arg ! d) \<and>
              (\<forall>s<length (rm ! d). reindex_shift st (arg ! d ! s) = Inr (rm ! d ! s)))"
proof -
  from assms obtain rm where m: "mapM_e (\<lambda>day. mapM_e (reindex_shift st) day) arg = Inr rm"
    and st': "st' = st\<lparr>requirementMapping := rm\<rparr>"
    unfolding createRequirementMapping_def by (auto split: sum.splits)
  have len: "length rm = length arg" by (rule mapM_e_nth(1)[OF m])
  have "\<forall>d<length rm. length (rm ! d) = length (arg ! d) \<and>
              (\<forall>s<length (rm ! d). reindex_shift st (arg ! d ! s) = Inr (rm ! d ! s))"
  proof (intro allI impI)
    fix d assume "d < length rm"
    then have d: "d < length arg" using len by simp
    from mapM_e_nth(2)[OF m d] have md: "mapM_e (reindex_shift st) (arg ! d) = Inr (rm ! d)" .
    show "length (rm ! d) = length (arg ! d) \<and>
              (\<forall>s<length (rm ! d). reindex_shift st (arg ! d ! s) = Inr (rm ! d ! s))"
      using mapM_e_nth[OF md] by auto
  qed
  with st' len show ?thesis by blast
qed

lemma mark_dependence_2:
  assumes "3 \<le> length M" "length (M ! 2) = length M"
  shows "mark_dependence M (2, x) = Inr (M[2 := (M ! 2)[2 := 1]])"
  using assms by (simp add: mark_dependence_def py_index_def Let_def)

lemma mark_dependence_2_small:
  assumes "length M < 3"
  shows "mark_dependence M (2, x) = Inl IndexError"
  using assms by (simp add: mark_dependence_def py_index_def Let_def)

lemma dayAfterNight_small:
  assumes "numShifts st < 3"
  shows "dayAfterNight st = Inl IndexError"
  using assms by (simp add: dayAfterNight_def nextDayShift_def mark_dependence_2_small)

lemma dayAfterNight_ok:
  assumes "3 \<le> numShifts st"
  shows "\<exists>M cs. dayAfterNight st = Inr (st\<lparr>non_sequential_shifts_indices := M, model := model st @ cs\<rparr>)
           \<and> (\<forall>c\<in>set cs. \<exists>e. c = LeC e 1)"
proof -
  let ?S = "numShifts st"
  let ?M0 = "replicate ?S (replicate ?S (0::int))"
  let ?M1 = "?M0[2 := (?M0 ! 2)[2 := 1]]"
  have m0: "mark_dependence ?M0 (2, x) = Inr ?M1" for x
    using assms by (intro mark_dependence_2) auto
  have m1: "mark_dependence ?M1 (2, x) = Inr ?M1" for x
  proof -
    have "mark_dependence ?M1 (2, x) = Inr (?M1[2 := (?M1 ! 2)[2 := 1]])"
      using assms by (intro mark_dependence_2) auto
    moreover have "?M1[2 := (?M1 ! 2)[2 := 1]] = ?M1" using assms by simp
    ultimately show ?thesis by simp
  qed
  have f: "foldM_e mark_dependence ?M0 [(2, 0), (2, 1), (2, 2)] = Inr ?M1"
    by (simp add: m0 m1)
  let ?cs = "[LeC (concat [[(?M1 ! s ! j, (n, r, d, s)), (1, (n, r, d + 1, j))].
                                     j \<leftarrow> [0..<numShifts st], r \<leftarrow> [0..<numRoles st]]) 1.
                        n \<leftarrow> [0..<numResources st], d \<leftarrow> [0..<numDays st - 1],
                        s \<leftarrow> [0..<numShifts st]]"
  have a: "dayAfterNight st = Inr (st\<lparr>non_sequential_shifts_indices := ?M1, model := model st @ ?cs\<rparr>)"
    unfolding dayAfterNight_def nextDayShift_def f by simp
  have b: "\<forall>c\<in>set ?cs. \<exists>e. c = LeC e 1" by auto
  from a b show ?thesis by blast
qed

lemma softLeave_Inr:
  assumes "softLeave st arg = Inr st'"
  shows "\<exists>ob. st' = st\<lparr>objective := ob\<rparr>"
  using assms unfolding softLeave_def by (auto split: sum.splits)

lemma same_registry_refl: "same_registry s s"
  by (simp add: same_registry_def)

lemma same_registry_trans: "same_registry s t \<Longrightarrow> same_registry t u \<Longrightarrow> same_registry s u"
  by (simp add: same_registry_def)

lemma construct_child:
  "construct child st a =
     (case construct Solver_childConstraints st a of Inl e \<Rightarrow> Inl e | Inr s \<Rightarrow> child s a)"
  by (simp add: construct_def Solver_childConstraints_def Let_def split: sum.splits)

lemma createEmployeeRoleLookup_frame:
  assumes "createEmployeeRoleLookup st arg = Inr st1"
  shows "numDays st1 = numDays st \<and> numShifts st1 = numShifts st \<and> model st1 = model st"
  using assms unfolding createEmployeeRoleLookup_def
  by (auto simp: Let_def split: sum.splits)

lemma hospital_child:
  assumes "HospitalSolver_childConstraints st5 a = Inr st"
  shows "same_registry st5 st \<and> requirementMapping st = requirementMapping st5 \<and>
         3 \<le> numShifts st5 \<and>
         (\<exists>D E. model st = model st5 @ D @ E \<and> (\<forall>c\<in>set D. \<exists>e. c = LeC e 1) \<and>
            (\<forall>c\<in>set E. \<exists>x. c = EqC [(1, x)] 0) \<and>
            (\<forall>leave\<in>set (hardLeaves a). \<forall>s<numShifts st. \<forall>r<numRoles st.
               \<exists>n d'. resourceIdLookup st (fst leave) = Some n \<and> n < numResources st \<and>
               py_index (numDays st) (snd leave) = Inr d' \<and>
               EqC [(1, (n, r, d', s))] 0 \<in> set E))"
proof -
  from assms obtain st6 st7 where d: "dayAfterNight st5 = Inr st6"
    and h: "hardLeave st6 (hardLeaves a) = Inr st7"
    and s: "softLeave st7 (softLeaves a) = Inr st"
    unfolding HospitalSolver_childConstraints_def by (auto split: sum.splits)
  have s3: "3 \<le> numShifts st5"
  proof (rule ccontr)
    assume "\<not> 3 \<le> numShifts st5"
    then have "dayAfterNight st5 = Inl IndexError" by (intro dayAfterNight_small) simp
    with d show False by simp
  qed
  from dayAfterNight_ok[OF s3] d obtain M D where
    st6: "st6 = st5\<lparr>non_sequential_shifts_indices := M, model := model st5 @ D\<rparr>"
    and D: "\<forall>c\<in>set D. \<exists>e. c = LeC e 1" by auto
  from hardLeave_Inr[OF h] obtain E where
    st7: "st7 = st6\<lparr>model := model st6 @ E\<rparr>"
    and E1: "\<forall>c\<in>set E. \<exists>x. c = EqC [(1, x)] 0"
    and E2: "\<forall>leave\<in>set (hardLeaves a). \<forall>s<numShifts st6. \<forall>r<numRoles st6.
               \<exists>n d'. resourceIdLookup st6 (fst leave) = Some n \<and> n < numResources st6 \<and>
               py_index (numDays st6) (snd leave) = Inr d' \<and>
               EqC [(1, (n, r, d', s))] 0 \<in> set E" by blast
  from softLeave_Inr[OF s] obtain ob where st: "st = st7\<lparr>objective := ob\<rparr>" by blast
  have reg: "same_registry st5 st" by (simp add: same_registry_def st st7 st6)
  have rq: "requirementMapping st = requirementMapping st5" by (simp add: st st7 st6)
  have md: "model st = model st5 @ D @ E" by (simp add: st st7 st6)
  have E2': "\<forall>leave\<in>set (hardLeaves a). \<forall>s<numShifts st. \<forall>r<numRoles st.
               \<exists>n d'. resourceIdLookup st (fst leave) = Some n \<and> n < numResources st \<and>
               py_index (numDays st) (snd leave) = Inr d' \<and>
               EqC [(1, (n, r, d', s))] 0 \<in> set E"
    using E2 by (simp add: st st7 st6)
  from reg rq s3 md D E1 E2' show ?thesis by blast
qed

lemma removeExtraRoles_facts:
  assumes "removeExtraRoles st = Inr st'"
  shows "\<exists>A. st' = st\<lparr>model := model st @ A\<rparr> \<and>
           (\<forall>c\<in>set A. \<exists>x. c = EqC [(1, x)] 0) \<and>
           (\<forall>n<numResources st. \<exists>rl. resourceRoleMapping st n = Some rl) \<and>
           (\<forall>n k d s rl. n < numResources st \<and> resourceRoleMapping st n = Some rl \<and>
               k < numRoles st \<and> k \<notin> set rl \<and> d < numDays st \<and> s < numShifts st
               \<longrightarrow> EqC [(1, (n, k, d, s))] 0 \<in> set A)"
proof -
  from removeExtraRoles_Inr[OF assms] obtain css where
    st': "st' = st\<lparr>model := model st @ concat css\<rparr>" and len: "length css = numResources st"
    and c: "\<forall>n<numResources st. \<exists>rl. resourceRoleMapping st n = Some rl \<and>
              css ! n = [EqC [(1, (n, role, d, s))] 0.
                           role \<leftarrow> filter (\<lambda>role. role \<notin> set rl) [0..<numRoles st],
                           d \<leftarrow> [0..<numDays st], s \<leftarrow> [0..<numShifts st]]" by blast
  have a: "\<forall>c\<in>set (concat css). \<exists>x. c = EqC [(1, x)] 0"
  proof
    fix x assume "x \<in> set (concat css)"
    then obtain cs where cs: "cs \<in> set css" "x \<in> set cs" by auto
    then obtain n where n: "n < length css" "css ! n = cs" by (auto simp: in_set_conv_nth)
    with c len obtain rl where "cs = [EqC [(1, (n, role, d, s))] 0.
                           role \<leftarrow> filter (\<lambda>role. role \<notin> set rl) [0..<numRoles st],
                           d \<leftarrow> [0..<numDays st], s \<leftarrow> [0..<numShifts st]]" by auto
    with cs(2) have "x \<in> set [EqC [(1, (n, role, d, s))] 0.
                           role \<leftarrow> filter (\<lambda>role. role \<notin> set rl) [0..<numRoles st],
                           d \<leftarrow> [0..<numDays st], s \<leftarrow> [0..<numShifts st]]" by simp
    then obtain role d s where "x = EqC [(1, (n, role, d, s))] 0" unfolding in_set_comp3 by blast
    then show "\<exists>y. x = EqC [(1, y)] 0" by (rule exI)
  qed
  have b: "\<forall>n<numResources st. \<exists>rl. resourceRoleMapping st n = Some rl" using c by blast
  have m: "\<forall>n k d s rl. n < numResources st \<and> resourceRoleMapping st n = Some rl \<and>
               k < numRoles st \<and> k \<notin> set rl \<and> d < numDays st \<and> s < numShifts st
               \<longrightarrow> EqC [(1, (n, k, d, s))] 0 \<in> set (concat css)"
  proof (intro allI impI)
    fix n k d s rl
    assume h: "n < numResources st \<and> resourceRoleMapping st n = Some rl \<and>
               k < numRoles st \<and> k \<notin> set rl \<and> d < numDays st \<and> s < numShifts st"
    have "EqC [(1, (n, k, d, s))] 0 \<in> set (model st')"
      using removeExtraRoles_mem[OF assms, of n rl k d s] h by blast
    moreover have "EqC [(1, (n, k, d, s))] 0 \<in> set (css ! n)"
    proof -
      from c h have cn: "css ! n = [EqC [(1, (n, role, d, s))] 0.
                           role \<leftarrow> filter (\<lambda>role. role \<notin> set rl) [0..<numRoles st],
                           d \<leftarrow> [0..<numDays st], s \<leftarrow> [0..<numShifts st]]" by auto
      show ?thesis unfolding cn in_set_comp3 using h
        by (intro bexI[of _ k] bexI[of _ d] bexI[of _ s]) auto
    qed
    moreover have "css ! n \<in> set css" using len h by simp
    ultimately show "EqC [(1, (n, k, d, s))] 0 \<in> set (concat css)" by auto
  qed
  from st' a b m show ?thesis by blast
qed

lemma setRequirementConstraint_facts:
  assumes "setRequirementConstraint st = Inr st'"
  shows "\<exists>B. st' = st\<lparr>model := model st @ B\<rparr> \<and>
           (\<forall>d<numDays st. \<forall>s<numShifts st.
              d < length (requirementMapping st) \<and> s < length (requirementMapping st ! d) \<and>
              (\<forall>role\<in>fst ` set (requirementMapping st ! d ! s).
                 GeC (map (\<lambda>n. (1, (n, role, d, s))) [0..<numResources st])
                     (the (map_of (requirementMapping st ! d ! s) role)) \<in> set B)) \<and>
           (\<forall>c\<in>set B. \<exists>d<numDays st. \<exists>s<numShifts st.
              \<exists>role\<in>fst ` set (requirementMapping st ! d ! s).
                 c = GeC (map (\<lambda>n. (1, (n, role, d, s))) [0..<numResources st])
                         (the (map_of (requirementMapping st ! d ! s) role)))"
proof -
  let ?ds = "[(d, s). d \<leftarrow> [0..<numDays st], s \<leftarrow> [0..<numShifts st]]"
  from setRequirementConstraint_Inr[OF assms] obtain css where
    st': "st' = st\<lparr>model := model st @ concat css\<rparr>"
    and m: "mapM_e (requirement_at st) ?ds = Inr css" by blast
  have p1: "\<forall>d<numDays st. \<forall>s<numShifts st.
              d < length (requirementMapping st) \<and> s < length (requirementMapping st ! d) \<and>
              (\<forall>role\<in>fst ` set (requirementMapping st ! d ! s).
                 GeC (map (\<lambda>n. (1, (n, role, d, s))) [0..<numResources st])
                     (the (map_of (requirementMapping st ! d ! s) role)) \<in> set (concat css))"
  proof (intro allI impI)
    fix d s assume d: "d < numDays st" and s: "s < numShifts st"
    then have "(d, s) \<in> set ?ds" by (auto simp: image_iff)
    from mapM_e_mem[OF m this] obtain cs where cs: "cs \<in> set css" "requirement_at st (d, s) = Inr cs"
      by blast
    from requirement_at_Inr[OF cs(2)] have
      r: "d < length (requirementMapping st)" "s < length (requirementMapping st ! d)"
      "cs = map (\<lambda>role. GeC (map (\<lambda>n. (1, (n, role, d, s))) [0..<numResources st])
                              (the (map_of (requirementMapping st ! d ! s) role)))
                  (map fst (requirementMapping st ! d ! s))" by auto
    have "\<forall>role\<in>fst ` set (requirementMapping st ! d ! s).
                 GeC (map (\<lambda>n. (1, (n, role, d, s))) [0..<numResources st])
                     (the (map_of (requirementMapping st ! d ! s) role)) \<in> set cs"
      unfolding r(3) by auto
    with cs(1) r(1,2) show "d < length (requirementMapping st) \<and> s < length (requirementMapping st ! d) \<and>
              (\<forall>role\<in>fst ` set (requirementMapping st ! d ! s).
                 GeC (map (\<lambda>n. (1, (n, role, d, s))) [0..<numResources st])
                     (the (map_of (requirementMapping st ! d ! s) role)) \<in> set (concat css))"
      by auto
  qed
  have p2: "\<forall>c\<in>set (concat css). \<exists>d<numDays st. \<exists>s<numShifts st.
              \<exists>role\<in>fst ` set (requirementMapping st ! d ! s).
                 c = GeC (map (\<lambda>n. (1, (n, role, d, s))) [0..<numResources st])
                         (the (map_of (requirementMapping st ! d ! s) role))"
  proof
    fix c assume "c \<in> set (concat css)"
    then obtain cs where cs: "cs \<in> set css" "c \<in> set cs" by auto
    from mapM_e_mem2[OF m cs(1)] obtain ds where ds: "ds \<in> set ?ds" "requirement_at st ds = Inr cs"
      by blast
    obtain d s where dseq: "ds = (d, s)" by (cases ds)
    from ds(1) dseq have d: "d < numDays st" and s: "s < numShifts st" by (auto simp: in_set_comp2)
    from requirement_at_Inr[OF ds(2)[unfolded dseq]] have
      "cs = map (\<lambda>role. GeC (map (\<lambda>n. (1, (n, role, d, s))) [0..<numResources st])
                              (the (map_of (requirementMapping st ! d ! s) role)))
                  (map fst (requirementMapping st ! d ! s))" by simp
    with cs(2) have "\<exists>role\<in>fst ` set (requirementMapping st ! d ! s).
                 c = GeC (map (\<lambda>n. (1, (n, role, d, s))) [0..<numResources st])
                         (the (map_of (requirementMapping st ! d ! s) role))" by auto
    with d s show "\<exists>d<numDays st. \<exists>s<numShifts st.
              \<exists>role\<in>fst ` set (requirementMapping st ! d ! s).
                 c = GeC (map (\<lambda>n. (1, (n, role, d, s))) [0..<numResources st])
                         (the (map_of (requirementMapping st ! d ! s) role))" by blast
  qed
  from st' p1 p2 show ?thesis by blast
qed

section \<open>The model built by solve\<close>

lemma reindex_shift_cong:
  "rolesIdLookup s = rolesIdLookup t \<Longrightarrow> reindex_shift s sh = reindex_shift t sh"
  by (simp add: reindex_shift_def)

lemma list_get_0: "list_get xs 0 = (case xs of [] \<Rightarrow> Inl IndexError | x # _ \<Rightarrow> Inr x)"
  by (cases xs) (simp_all add: list_get_def py_index_def)

lemma base_construct:
  assumes "construct Solver_childConstraints st0 a = Inr st5"
  shows "requirementMatrix a \<noteq> [] \<and> numDays st5 = length (requirementMatrix a) \<and>
         numShifts st5 = length (requirementMatrix a ! 0)"
    and "\<exists>st1. createEmployeeRoleLookup
                  ((createModel st0)\<lparr>numDays := length (requirementMatrix a),
                                      numShifts := length (requirementMatrix a ! 0)\<rparr>)
                  (resourceRoleMap a) = Inr st1 \<and> same_registry st1 st5"
    and "length (requirementMapping st5) = length (requirementMatrix a) \<and>
         (\<forall>d<length (requirementMapping st5).
            length (requirementMapping st5 ! d) = length (requirementMatrix a ! d) \<and>
            (\<forall>s<length (requirementMapping st5 ! d).
               reindex_shift st5 (requirementMatrix a ! d ! s) = Inr (requirementMapping st5 ! d ! s)))"
    and "\<forall>n<numResources st5. \<exists>rl. resourceRoleMapping st5 n = Some rl"
    and "\<exists>A B. model st5 = A @ B @
              [LeC [(1, (n, r, d, s)). r \<leftarrow> [0..<numRoles st5], s \<leftarrow> [0..<numShifts st5]] 1.
                 n \<leftarrow> [0..<numResources st5], d \<leftarrow> [0..<numDays st5]] \<and>
            (\<forall>c\<in>set A. \<exists>x. c = EqC [(1, x)] 0) \<and>
            (\<forall>n k d s rl. n < numResources st5 \<and> resourceRoleMapping st5 n = Some rl \<and>
               k < numRoles st5 \<and> k \<notin> set rl \<and> d < numDays st5 \<and> s < numShifts st5
               \<longrightarrow> EqC [(1, (n, k, d, s))] 0 \<in> set A) \<and>
            (\<forall>d<numDays st5. \<forall>s<numShifts st5.
              d < length (requirementMapping st5) \<and> s < length (requirementMapping st5 ! d) \<and>
              (\<forall>role\<in>fst ` set (requirementMapping st5 ! d ! s).
                 GeC (map (\<lambda>n. (1, (n, role, d, s))) [0..<numResources st5])
                     (the (map_of (requirementMapping st5 ! d ! s) role)) \<in> set B)) \<and>
            (\<forall>c\<in>set B. \<exists>d<numDays st5. \<exists>s<numShifts st5.
              \<exists>role\<in>fst ` set (requirementMapping st5 ! d ! s).
                 c = GeC (map (\<lambda>n. (1, (n, role, d, s))) [0..<numResources st5])
                         (the (map_of (requirementMapping st5 ! d ! s) role)))"
proof -
  let ?rm = "requirementMatrix a"
  let ?s0 = "(createModel st0)\<lparr>numDays := length ?rm\<rparr>"
  from assms obtain day0 where g: "list_get ?rm 0 = Inr day0"
    unfolding construct_def by (auto simp: Let_def split: sum.splits)
  then have ne: "?rm \<noteq> []" and day0: "day0 = ?rm ! 0"
    by (auto simp: list_get_0 split: list.splits)
  let ?sX = "?s0\<lparr>numShifts := length day0\<rparr>"
  from assms g obtain st1 st2 st3 st4 where
    c1: "createEmployeeRoleLookup ?sX (resourceRoleMap a) = Inr st1"
    and c2: "removeExtraRoles (createVars st1) = Inr st2"
    and c3: "createRequirementMapping st2 ?rm = Inr st3"
    and c4: "setRequirementConstraint st3 = Inr st4"
    and c5: "st5 = maxOneShiftPerDay st4"
    unfolding construct_def Solver_childConstraints_def
    by (auto simp: Let_def split: sum.splits)
  from createEmployeeRoleLookup_frame[OF c1] have
    f1: "numDays st1 = length ?rm" "numShifts st1 = length day0" "model st1 = []"
    by (simp_all add: createModel_def)
  from removeExtraRoles_facts[OF c2] obtain A where
    st2: "st2 = (createVars st1)\<lparr>model := model (createVars st1) @ A\<rparr>"
    and A1: "\<forall>c\<in>set A. \<exists>x. c = EqC [(1, x)] 0"
    and A0: "\<forall>n<numResources (createVars st1). \<exists>rl. resourceRoleMapping (createVars st1) n = Some rl"
    and A2: "\<forall>n k d s rl. n < numResources (createVars st1) \<and>
               resourceRoleMapping (createVars st1) n = Some rl \<and>
               k < numRoles (createVars st1) \<and> k \<notin> set rl \<and> d < numDays (createVars st1) \<and>
               s < numShifts (createVars st1)
               \<longrightarrow> EqC [(1, (n, k, d, s))] 0 \<in> set A" by blast
  from createRequirementMapping_Inr[OF c3] obtain rmap where
    st3: "st3 = st2\<lparr>requirementMapping := rmap\<rparr>" and r1: "length rmap = length ?rm"
    and r2: "\<forall>d<length rmap. length (rmap ! d) = length (?rm ! d) \<and>
              (\<forall>s<length (rmap ! d). reindex_shift st2 (?rm ! d ! s) = Inr (rmap ! d ! s))" by blast
  from setRequirementConstraint_facts[OF c4] obtain B where
    st4: "st4 = st3\<lparr>model := model st3 @ B\<rparr>"
    and B1: "\<forall>d<numDays st3. \<forall>s<numShifts st3.
              d < length (requirementMapping st3) \<and> s < length (requirementMapping st3 ! d) \<and>
              (\<forall>role\<in>fst ` set (requirementMapping st3 ! d ! s).
                 GeC (map (\<lambda>n. (1, (n, role, d, s))) [0..<numResources st3])
                     (the (map_of (requirementMapping st3 ! d ! s) role)) \<in> set B)"
    and B2: "\<forall>c\<in>set B. \<exists>d<numDays st3. \<exists>s<numShifts st3.
              \<exists>role\<in>fst ` set (requirementMapping st3 ! d ! s).
                 c = GeC (map (\<lambda>n. (1, (n, role, d, s))) [0..<numResources st3])
                         (the (map_of (requirementMapping st3 ! d ! s) role))" by blast
  have flds: "numDays st5 = numDays st1" "numShifts st5 = numShifts st1"
    "numResources st5 = numResources st1" "numRoles st5 = numRoles st1"
    "resourceRoleMapping st5 = resourceRoleMapping st1" "rolesIdLookup st5 = rolesIdLookup st1"
    "requirementMapping st5 = rmap"
    by (simp_all add: c5 st4 st3 st2 maxOneShiftPerDay_def createVars_def)
  have flds3: "numDays st3 = numDays st1" "numShifts st3 = numShifts st1"
    "numResources st3 = numResources st1" "numRoles st3 = numRoles st1"
    "requirementMapping st3 = rmap"
    by (simp_all add: st3 st2 createVars_def)
  have fldsV: "numDays (createVars st1) = numDays st1" "numShifts (createVars st1) = numShifts st1"
    "numResources (createVars st1) = numResources st1" "numRoles (createVars st1) = numRoles st1"
    "resourceRoleMapping (createVars st1) = resourceRoleMapping st1"
    by (simp_all add: createVars_def)
  have reg: "same_registry st1 st5"
    by (simp add: same_registry_def c5 st4 st3 st2 maxOneShiftPerDay_def createVars_def)
  have md: "model st5 = A @ B @
              [LeC [(1, (n, r, d, s)). r \<leftarrow> [0..<numRoles st5], s \<leftarrow> [0..<numShifts st5]] 1.
                 n \<leftarrow> [0..<numResources st5], d \<leftarrow> [0..<numDays st5]]"
    by (simp add: c5 st4 st3 st2 maxOneShiftPerDay_def createVars_def f1)
  have q1: "requirementMatrix a \<noteq> [] \<and> numDays st5 = length (requirementMatrix a) \<and>
         numShifts st5 = length (requirementMatrix a ! 0)"
    using ne flds f1 day0 by simp
  have q2: "\<exists>st1. createEmployeeRoleLookup
                  ((createModel st0)\<lparr>numDays := length (requirementMatrix a),
                                      numShifts := length (requirementMatrix a ! 0)\<rparr>)
                  (resourceRoleMap a) = Inr st1 \<and> same_registry st1 st5"
    using c1 reg day0 by auto
  have rs: "reindex_shift st5 sh = reindex_shift st2 sh" for sh
    by (rule reindex_shift_cong) (simp add: c5 st4 st3 maxOneShiftPerDay_def)
  have q3: "length (requirementMapping st5) = length (requirementMatrix a) \<and>
         (\<forall>d<length (requirementMapping st5).
            length (requirementMapping st5 ! d) = length (requirementMatrix a ! d) \<and>
            (\<forall>s<length (requirementMapping st5 ! d).
               reindex_shift st5 (requirementMatrix a ! d ! s) = Inr (requirementMapping st5 ! d ! s)))"
    using r1 r2 unfolding flds(7) rs by simp
  have q4: "\<forall>n<numResources st5. \<exists>rl. resourceRoleMapping st5 n = Some rl"
    using A0 unfolding fldsV flds by simp
  have q5: "\<forall>n k d s rl. n < numResources st5 \<and> resourceRoleMapping st5 n = Some rl \<and>
               k < numRoles st5 \<and> k \<notin> set rl \<and> d < numDays st5 \<and> s < numShifts st5
               \<longrightarrow> EqC [(1, (n, k, d, s))] 0 \<in> set A"
    using A2 unfolding fldsV flds by simp
  have q6: "\<forall>d<numDays st5. \<forall>s<numShifts st5.
              d < length (requirementMapping st5) \<and> s < length (requirementMapping st5 ! d) \<and>
              (\<forall>role\<in>fst ` set (requirementMapping st5 ! d ! s).
                 GeC (map (\<lambda>n. (1, (n, role, d, s))) [0..<numResources st5])
                     (the (map_of (requirementMapping st5 ! d ! s) role)) \<in> set B)"
    using B1 unfolding flds3 flds by simp
  have q7: "\<forall>c\<in>set B. \<exists>d<numDays st5. \<exists>s<numShifts st5.
              \<exists>role\<in>fst ` set (requirementMapping st5 ! d ! s).
                 c = GeC (map (\<lambda>n. (1, (n, role, d, s))) [0..<numResources st5])
                         (the (map_of (requirementMapping st5 ! d ! s) role))"
    using B2 unfolding flds3 flds by simp
  from md A1 q5 q6 q7 have q8: "\<exists>A B. model st5 = A @ B @
              [LeC [(1, (n, r, d, s)). r \<leftarrow> [0..<numRoles st5], s \<leftarrow> [0..<numShifts st5]] 1.
                 n \<leftarrow> [0..<numResources st5], d \<leftarrow> [0..<numDays st5]] \<and>
            (\<forall>c\<in>set A. \<exists>x. c = EqC [(1, x)] 0) \<and>
            (\<forall>n k d s rl. n < numResources st5 \<and> resourceRoleMapping st5 n = Some rl \<and>
               k < numRoles st5 \<and> k \<notin> set rl \<and> d < numDays st5 \<and> s < numShifts st5
               \<longrightarrow> EqC [(1, (n, k, d, s))] 0 \<in> set A) \<and>
            (\<forall>d<numDays st5. \<forall>s<numShifts st5.
              d < length (requirementMapping st5) \<and> s < length (requirementMapping st5 ! d) \<and>
              (\<forall>role\<in>fst ` set (requirementMapping st5 ! d ! s).
                 GeC (map (\<lambda>n. (1, (n, role, d, s))) [0..<numResources st5])
                     (the (map_of (requirementMapping st5 ! d ! s) role)) \<in> set B)) \<and>
            (\<forall>c\<in>set B. \<exists>d<numDays st5. \<exists>s<numShifts st5.
              \<exists>role\<in>fst ` set (requirementMapping st5 ! d ! s).
                 c = GeC (map (\<lambda>n. (1, (n, role, d, s))) [0..<numResources st5])
                         (the (map_of (requirementMapping st5 ! d ! s) role)))"
    by blast
  show "requirementMatrix a \<noteq> [] \<and> numDays st5 = length (requirementMatrix a) \<and>
         numShifts st5 = length (requirementMatrix a ! 0)" by (rule q1)
  show "\<exists>st1. createEmployeeRoleLookup
                  ((createModel st0)\<lparr>numDays := length (requirementMatrix a),
                                      numShifts := length (requirementMatrix a ! 0)\<rparr>)
                  (resourceRoleMap a) = Inr st1 \<and> same_registry st1 st5" by (rule q2)
  show "length (requirementMapping st5) = length (requirementMatrix a) \<and>
         (\<forall>d<length (requirementMapping st5).
            length (requirementMapping st5 ! d) = length (requirementMatrix a ! d) \<and>
            (\<forall>s<length (requirementMapping st5 ! d).
               reindex_shift st5 (requirementMatrix a ! d ! s) = Inr (requirementMapping st5 ! d ! s)))" by (rule q3)
  show "\<forall>n<numResources st5. \<exists>rl. resourceRoleMapping st5 n = Some rl" by (rule q4)
  show "\<exists>A B. model st5 = A @ B @
              [LeC [(1, (n, r, d, s)). r \<leftarrow> [0..<numRoles st5], s \<leftarrow> [0..<numShifts st5]] 1.
                 n \<leftarrow> [0..<numResources st5], d \<leftarrow> [0..<numDays st5]] \<and>
            (\<forall>c\<in>set A. \<exists>x. c = EqC [(1, x)] 0) \<and>
            (\<forall>n k d s rl. n < numResources st5 \<and> resourceRoleMapping st5 n = Some rl \<and>
               k < numRoles st5 \<and> k \<notin> set rl \<and> d < numDays st5 \<and> s < numShifts st5
               \<longrightarrow> EqC [(1, (n, k, d, s))] 0 \<in> set A) \<and>
            (\<forall>d<numDays st5. \<forall>s<numShifts st5.
              d < length (requirementMapping st5) \<and> s < length (requirementMapping st5 ! d) \<and>
              (\<forall>role\<in>fst ` set (requirementMapping st5 ! d ! s).
                 GeC (map (\<lambda>n. (1, (n, role, d, s))) [0..<numResources st5])
                     (the (map_of (requirementMapping st5 ! d ! s) role)) \<in> set B)) \<and>
            (\<forall>c\<in>set B. \<exists>d<numDays st5. \<exists>s<numShifts st5.
              \<exists>role\<in>fst ` set (requirementMapping st5 ! d ! s).
                 c = GeC (map (\<lambda>n. (1, (n, role, d, s))) [0..<numResources st5])
                         (the (map_of (requirementMapping st5 ! d ! s) role)))" by (rule q8)
qed

lemma eval_lin_ones: "eval_lin v (map (\<lambda>x. (1, g x)) xs) = int (length (filter (\<lambda>x. v (g x)) xs))"
  by (induction xs) (simp_all add: eval_lin_def term_val_def)

lemma accepted_holds: "accepted v st \<Longrightarrow> c \<in> set (model st) \<Longrightarrow> holds v c"
  by (simp add: accepted_def list_all_iff)

lemma single_false: "holds v (EqC [(1, x)] 0) \<Longrightarrow> \<not> v x"
  by (auto simp: eval_lin_def term_val_def split: if_splits)

lemma comp2_product:
  "[f r s. r \<leftarrow> xs, s \<leftarrow> ys] = map (\<lambda>p. f (fst p) (snd p)) (List.product xs ys)"
  by (induction xs) (simp_all add: comp_def)

lemma hospital_construct:
  assumes "construct HospitalSolver_childConstraints st0 a = Inr st"
  obtains st5 where "construct Solver_childConstraints st0 a = Inr st5"
    and "HospitalSolver_childConstraints st5 a = Inr st"
  using assms unfolding construct_child[of HospitalSolver_childConstraints]
  by (auto split: sum.splits)

section \<open>The demonstration problem\<close>

lemma demo_construct:
  "construct HospitalSolver_childConstraints (HospitalSolver_init 1) demo_args = Inr demo_solver"
proof -
  have "\<not> isl (construct HospitalSolver_childConstraints (HospitalSolver_init 1) demo_args)"
    by code_simp
  then show ?thesis unfolding demo_solver_def by simp
qed

lemma demo_accepted: "accepted demo_val demo_solver"
  by code_simp

lemma demo_dims:
  "numResources demo_solver = 2" "numRoles demo_solver = 2"
  "numDays demo_solver = 2" "numShifts demo_solver = 3"
  by code_simp+

lemma demo_eligibility:
  "resourceRoleMapping demo_solver 0 = Some [0]" "resourceRoleMapping demo_solver 1 = Some [0, 1]"
  by code_simp+

section \<open>The hooks of the two classes\<close>

lemma Solver_appends: "appends_constraints Solver_childConstraints"
  unfolding appends_constraints_def Solver_childConstraints_def
  by (auto simp: same_registry_def)

lemma HospitalSolver_appends: "appends_constraints HospitalSolver_childConstraints"
  unfolding appends_constraints_def
proof (intro allI impI)
  fix st a st'
  assume h: "HospitalSolver_childConstraints st a = Inr st'"
  from hospital_child[OF h] obtain D E where "same_registry st st'"
    and "requirementMapping st' = requirementMapping st" and "model st' = model st @ (D @ E)"
    by auto
  then show "same_registry st st' \<and> requirementMapping st' = requirementMapping st \<and>
        (\<exists>cs. model st' = model st @ cs)" by blast
qed

lemma child_construct:
  assumes "construct child st0 a = Inr st" and "appends_constraints child"
  obtains st5 cs where "construct Solver_childConstraints st0 a = Inr st5"
    and "same_registry st5 st" and "requirementMapping st = requirementMapping st5"
    and "model st = model st5 @ cs"
proof -
  from assms(1) obtain st5 where b: "construct Solver_childConstraints st0 a = Inr st5"
    and h: "child st5 a = Inr st"
    unfolding construct_child[of child] by (auto split: sum.splits)
  from assms(2) h obtain cs where "same_registry st5 st"
    and "requirementMapping st = requirementMapping st5" and "model st = model st5 @ cs"
    unfolding appends_constraints_def by blast
  with b that show thesis by blast
qed

lemma small_construct:
  "construct Solver_childConstraints (Solver_init 1 250 True) small_args = Inr small_solver"
proof -
  have "\<not> isl (construct Solver_childConstraints (Solver_init 1 250 True) small_args)"
    by code_simp
  then show ?thesis unfolding small_solver_def by simp
qed

lemma small_accepted: "accepted small_val small_solver"
  by code_simp

lemma small_dims:
  "numResources small_solver = 2" "numRoles small_solver = 2"
  "numDays small_solver = 1" "numShifts small_solver = 1"
  by code_simp+

lemma small_eligibility:
  "resourceRoleMapping small_solver 0 = Some [0]" "resourceRoleMapping small_solver 1 = Some [1]"
  by code_simp+

section \<open>Daily exclusivity\<close>

text \<open>
  C4. In every valuation accepted by the model that \<^verbatim>\<open>solve\<close> constructs, for every
  resource \<open>n\<close> and every day \<open>d\<close> of the grid, the number of (role, shift) pairs whose
  variable \<open>(n, role, d, shift)\<close> is true is at most one: the constraint of
  \<^verbatim>\<open>_maxOneShiftPerDay\<close> for \<open>(n, d)\<close> is in the model. This holds for the base class, for
  \<^verbatim>\<open>HospitalSolver\<close> and for every class whose hook only adds constraints, whatever the
  number of shifts.
\<close>

theorem one_shift_per_day:
  assumes "construct child st0 a = Inr st" and "appends_constraints child"
    and "accepted v st" and "n < numResources st" and "d < numDays st"
  shows "length (filter (\<lambda>p. v (n, fst p, d, snd p))
                   (List.product [0..<numRoles st] [0..<numShifts st])) \<le> 1"
proof -
  from assms(1,2) obtain st5 cs where b: "construct Solver_childConstraints st0 a = Inr st5"
    and reg: "same_registry st5 st" and md: "model st = model st5 @ cs"
    by (rule child_construct)
  from base_construct(5)[OF b] obtain A B where m5: "model st5 = A @ B @
              [LeC [(1, (n, r, d, s)). r \<leftarrow> [0..<numRoles st5], s \<leftarrow> [0..<numShifts st5]] 1.
                 n \<leftarrow> [0..<numResources st5], d \<leftarrow> [0..<numDays st5]]" by blast
  have dims: "numRoles st5 = numRoles st" "numShifts st5 = numShifts st"
    "numResources st5 = numResources st" "numDays st5 = numDays st"
    using reg by (simp_all add: same_registry_def)
  let ?c = "LeC [(1, (n, r, d, s)). r \<leftarrow> [0..<numRoles st], s \<leftarrow> [0..<numShifts st]] 1"
  have "?c \<in> set [LeC [(1, (n, r, d, s)). r \<leftarrow> [0..<numRoles st], s \<leftarrow> [0..<numShifts st]] 1.
                 n \<leftarrow> [0..<numResources st], d \<leftarrow> [0..<numDays st]]"
    unfolding in_set_comp2 using assms(4,5) by (intro bexI[of _ n] bexI[of _ d]) auto
  then have "?c \<in> set (model st)" unfolding md m5 dims by simp
  from accepted_holds[OF assms(3) this]
  have "eval_lin v [(1, (n, r, d, s)). r \<leftarrow> [0..<numRoles st], s \<leftarrow> [0..<numShifts st]] \<le> 1"
    by simp
  moreover have "[(1::int, (n, r, d, s)). r \<leftarrow> [0..<numRoles st], s \<leftarrow> [0..<numShifts st]]
      = map (\<lambda>p. (1, (n, fst p, d, snd p))) (List.product [0..<numRoles st] [0..<numShifts st])"
    by (rule comp2_product)
  ultimately have "int (length (filter (\<lambda>p. v (n, fst p, d, snd p))
                   (List.product [0..<numRoles st] [0..<numShifts st]))) \<le> 1"
    by (simp add: eval_lin_ones)
  then show ?thesis by simp
qed

text \<open>The theorem at the one-shift problem of the base class and at the three-shift problem
  of \<^verbatim>\<open>HospitalSolver\<close>.\<close>

theorem one_shift_per_day_witness:
  "(construct Solver_childConstraints (Solver_init 1 250 True) small_args = Inr small_solver
    \<and> appends_constraints Solver_childConstraints
    \<and> accepted small_val small_solver \<and> 0 < numResources small_solver
    \<and> 0 < numDays small_solver \<and> numShifts small_solver = 1
    \<and> length (filter (\<lambda>p. small_val (0, fst p, 0, snd p))
        (List.product [0..<numRoles small_solver] [0..<numShifts small_solver])) \<le> 1)
   \<and> (construct HospitalSolver_childConstraints (HospitalSolver_init 1) demo_args = Inr demo_solver
    \<and> appends_constraints HospitalSolver_childConstraints
    \<and> accepted demo_val demo_solver \<and> 0 < numResources demo_solver \<and> 0 < numDays demo_solver
    \<and> length (filter (\<lambda>p. demo_val (0, fst p, 0, snd p))
        (List.product [0..<numRoles demo_solver] [0..<numShifts demo_solver])) \<le> 1)"
proof -
  have n: "0 < numResources demo_solver" and d: "0 < numDays demo_solver"
    by (simp_all add: demo_dims)
  have n': "0 < numResources small_solver" and d': "0 < numDays small_solver"
    by (simp_all add: small_dims)
  from one_shift_per_day[OF small_construct Solver_appends small_accepted n' d']
    one_shift_per_day[OF demo_construct HospitalSolver_appends demo_accepted n d]
    small_construct Solver_appends small_accepted n' d' small_dims(4)
    demo_construct HospitalSolver_appends demo_accepted n d
  show ?thesis by simp
qed

section \<open>Eligibility pruning\<close>

text \<open>
  C5. For every resource \<open>n\<close> of the grid and every role \<open>k\<close> that is not in the eligibility
  list \<^verbatim>\<open>resourceRoleMapping[n]\<close>, the constructed model contains the constraint
  \<open>variable(n, k, d, s) = 0\<close> for every day \<open>d\<close> and shift \<open>s\<close>, whether or not the model
  has a solution; so the variable is false in every accepted valuation. This holds for the
  base class, for \<^verbatim>\<open>HospitalSolver\<close> and for every class whose hook only adds constraints.
\<close>

theorem ineligible_roles_false:
  assumes "construct child st0 a = Inr st" and "appends_constraints child"
    and "n < numResources st" and "resourceRoleMapping st n = Some rl"
    and "k < numRoles st" and "k \<notin> set rl" and "d < numDays st" and "s < numShifts st"
  shows "EqC [(1, (n, k, d, s))] 0 \<in> set (model st) \<and>
         (\<forall>v. accepted v st \<longrightarrow> \<not> v (n, k, d, s))"
proof -
  from assms(1,2) obtain st5 cs where b: "construct Solver_childConstraints st0 a = Inr st5"
    and reg: "same_registry st5 st" and md: "model st = model st5 @ cs"
    by (rule child_construct)
  have dims: "numRoles st5 = numRoles st" "numShifts st5 = numShifts st"
    "numResources st5 = numResources st" "numDays st5 = numDays st"
    "resourceRoleMapping st5 = resourceRoleMapping st"
    using reg by (simp_all add: same_registry_def)
  from base_construct(5)[OF b] obtain A B C where m5: "model st5 = A @ B @ C"
    and A2: "\<forall>n k d s rl. n < numResources st5 \<and> resourceRoleMapping st5 n = Some rl \<and>
               k < numRoles st5 \<and> k \<notin> set rl \<and> d < numDays st5 \<and> s < numShifts st5
               \<longrightarrow> EqC [(1, (n, k, d, s))] 0 \<in> set A" by blast
  from A2 assms(3-8) have "EqC [(1, (n, k, d, s))] 0 \<in> set A" unfolding dims by blast
  then have mem: "EqC [(1, (n, k, d, s))] 0 \<in> set (model st)" unfolding md m5 by simp
  have "\<not> v (n, k, d, s)" if "accepted v st" for v
    by (rule single_false[OF accepted_holds[OF that mem]])
  with mem show ?thesis by blast
qed

text \<open>The theorem at the problem of the base class (resource \<open>A\<close> cannot take role \<open>R2\<close>) and
  at the problem of \<^verbatim>\<open>HospitalSolver\<close>.\<close>

theorem ineligible_roles_false_witness:
  "(construct Solver_childConstraints (Solver_init 1 250 True) small_args = Inr small_solver
    \<and> appends_constraints Solver_childConstraints
    \<and> 0 < numResources small_solver \<and> resourceRoleMapping small_solver 0 = Some [0]
    \<and> 1 < numRoles small_solver \<and> 1 \<notin> set [0::nat] \<and> 0 < numDays small_solver
    \<and> 0 < numShifts small_solver
    \<and> EqC [(1, (0, 1, 0, 0))] 0 \<in> set (model small_solver)
    \<and> accepted small_val small_solver \<and> \<not> small_val (0, 1, 0, 0))
   \<and> (construct HospitalSolver_childConstraints (HospitalSolver_init 1) demo_args = Inr demo_solver
    \<and> appends_constraints HospitalSolver_childConstraints
    \<and> 0 < numResources demo_solver \<and> resourceRoleMapping demo_solver 0 = Some [0]
    \<and> 1 < numRoles demo_solver \<and> 1 \<notin> set [0::nat] \<and> 0 < numDays demo_solver
    \<and> 0 < numShifts demo_solver
    \<and> EqC [(1, (0, 1, 0, 0))] 0 \<in> set (model demo_solver)
    \<and> accepted demo_val demo_solver \<and> \<not> demo_val (0, 1, 0, 0))"
proof -
  have n: "0 < numResources demo_solver" and k: "1 < numRoles demo_solver"
    and d: "0 < numDays demo_solver" and s: "0 < numShifts demo_solver"
    by (simp_all add: demo_dims)
  have n': "0 < numResources small_solver" and k': "1 < numRoles small_solver"
    and d': "0 < numDays small_solver" and s': "0 < numShifts small_solver"
    by (simp_all add: small_dims)
  have e: "(1::nat) \<notin> set [0]" by simp
  from ineligible_roles_false[OF small_construct Solver_appends n' small_eligibility(1) k' e d' s']
    small_accepted
  have 1: "EqC [(1, (0, 1, 0, 0))] 0 \<in> set (model small_solver) \<and> \<not> small_val (0, 1, 0, 0)"
    by blast
  from ineligible_roles_false[OF demo_construct HospitalSolver_appends n demo_eligibility(1) k e d s]
    demo_accepted
  have 2: "EqC [(1, (0, 1, 0, 0))] 0 \<in> set (model demo_solver) \<and> \<not> demo_val (0, 1, 0, 0)"
    by blast
  from 1 2 small_construct Solver_appends n' small_eligibility(1) k' e d' s' small_accepted
    demo_construct HospitalSolver_appends n demo_eligibility(1) k e d s demo_accepted
  show ?thesis by simp
qed

section \<open>The identifier registry\<close>

lemma first_seen_set: "set (first_seen acc xs) = set acc \<union> set xs"
  by (induction xs arbitrary: acc) auto

lemma first_seen_distinct: "distinct acc \<Longrightarrow> distinct (first_seen acc xs)"
  by (induction xs arbitrary: acc) auto

lemma first_seen_prefix: "\<exists>ys. first_seen acc xs = acc @ ys"
proof (induction xs arbitrary: acc)
  case Nil
  show ?case by simp
next
  case (Cons x xs)
  from Cons[of "if x \<in> set acc then acc else acc @ [x]"] show ?case
    by (auto split: if_splits)
qed

lemma first_seen_index:
  assumes "distinct acc" and "x \<notin> set acc" and "x \<in> set xs"
  shows "first_seen acc xs ! card (set acc \<union> set (takeWhile (\<lambda>y. y \<noteq> x) xs)) = x"
  using assms
proof (induction xs arbitrary: acc)
  case Nil
  then show ?case by simp
next
  case (Cons y ys)
  show ?case
  proof (cases "y = x")
    case True
    from first_seen_prefix[of "acc @ [x]" ys] obtain zs where
      z: "first_seen (acc @ [x]) ys = (acc @ [x]) @ zs" by blast
    have "card (set acc) = length acc" using Cons.prems(1) by (rule distinct_card)
    with True Cons.prems(2) z show ?thesis by (simp add: nth_append)
  next
    case False
    let ?acc = "if y \<in> set acc then acc else acc @ [y]"
    have d: "distinct ?acc" using Cons.prems(1) by simp
    have n: "x \<notin> set ?acc" using Cons.prems(2) False by simp
    have m: "x \<in> set ys" using Cons.prems(3) False by simp
    have s: "set acc \<union> set (takeWhile (\<lambda>y. y \<noteq> x) (y # ys))
           = set ?acc \<union> set (takeWhile (\<lambda>y. y \<noteq> x) ys)" using False by auto
    from Cons.IH[OF d n m] show ?thesis unfolding s by simp
  qed
qed

lemma first_seen_concat: "foldl first_seen acc xss = first_seen acc (concat xss)"
proof (induction xss arbitrary: acc)
  case Nil show ?case by simp
next
  case (Cons xs xss)
  have a: "first_seen acc (xs @ ys) = first_seen (first_seen acc xs) ys" for ys
    by (induction xs arbitrary: acc) auto
  show ?case by (simp add: Cons a)
qed

lemma foldl_upd:
  "foldl (\<lambda>m kv. m(fst kv \<mapsto> snd kv)) m kvs = m ++ map_of (rev kvs)"
  by (induction kvs arbitrary: m) (auto simp: map_add_upd_left)

lemma dict_comp_map_of: "dict_comp kvs = map_of (rev kvs)"
  unfolding dict_comp_def foldl_upd by simp

lemma dict_comp_distinct:
  assumes "distinct (map fst kvs)"
  shows "dict_comp kvs k = Some v \<longleftrightarrow> (k, v) \<in> set kvs"
proof -
  have "distinct (map fst (rev kvs))" using assms by (simp add: rev_map[symmetric])
  then have "map_of (rev kvs) k = Some v \<longleftrightarrow> (k, v) \<in> set (rev kvs)" by simp
  then show ?thesis by (simp add: dict_comp_map_of)
qed

lemma dict_comp_enumerate:
  "dict_comp (enumerate 0 xs) i = Some x \<longleftrightarrow> i < length xs \<and> xs ! i = x"
proof -
  have "distinct (map fst (enumerate 0 xs))" by simp
  from dict_comp_distinct[OF this] show ?thesis by (auto simp: in_set_enumerate_eq)
qed

lemma dict_comp_index:
  assumes "distinct xs"
  shows "dict_comp (map (\<lambda>p. (snd p, fst p)) (enumerate 0 xs)) x = Some i
         \<longleftrightarrow> i < length xs \<and> xs ! i = x"
proof -
  have "map fst (map (\<lambda>p. (snd p, fst p)) (enumerate 0 xs)) = xs"
    by (simp add: comp_def)
  with assms have "distinct (map fst (map (\<lambda>p. (snd p, fst p)) (enumerate 0 xs)))" by simp
  from dict_comp_distinct[OF this]
  have "dict_comp (map (\<lambda>p. (snd p, fst p)) (enumerate 0 xs)) x = Some i
        \<longleftrightarrow> (x, i) \<in> set (map (\<lambda>p. (snd p, fst p)) (enumerate 0 xs))" .
  also have "\<dots> \<longleftrightarrow> (i, x) \<in> set (enumerate 0 xs)" by force
  also have "\<dots> \<longleftrightarrow> i < length xs \<and> xs ! i = x" by (simp add: in_set_enumerate_eq)
  finally show ?thesis .
qed

lemma dict_comp_first_seen:
  assumes "x \<in> set xs"
  shows "dict_comp (map (\<lambda>p. (snd p, fst p)) (enumerate 0 (first_seen [] xs))) x
           = Some (card (set (takeWhile (\<lambda>y. y \<noteq> x) xs)))"
    and "card (set (takeWhile (\<lambda>y. y \<noteq> x) xs)) < length (first_seen [] xs)"
proof -
  let ?i = "card (set (takeWhile (\<lambda>y. y \<noteq> x) xs))"
  have d: "distinct (first_seen [] xs)" by (rule first_seen_distinct) simp
  from first_seen_index[of "[]" x xs] assms have n: "first_seen [] xs ! ?i = x" by simp
  have "set (takeWhile (\<lambda>y. y \<noteq> x) xs) \<subseteq> set xs - {x}"
    using set_takeWhileD by fastforce
  then have "?i \<le> card (set xs - {x})" by (intro card_mono) auto
  also have "\<dots> < card (set xs)" using assms by (intro psubset_card_mono) auto
  also have "\<dots> = length (first_seen [] xs)"
    using distinct_card[OF d] by (simp add: first_seen_set)
  finally show l: "?i < length (first_seen [] xs)" .
  from dict_comp_index[OF d, of x ?i] n l
  show "dict_comp (map (\<lambda>p. (snd p, fst p)) (enumerate 0 (first_seen [] xs))) x = Some ?i"
    by simp
qed

lemma role_lists:
  "mapM_e (alist_get arg) (map fst arg) = Inr (map (\<lambda>k. the (map_of arg k)) (map fst arg))"
proof (rule mapM_e_map)
  fix x assume "x \<in> set (map fst arg)"
  then have "map_of arg x \<noteq> None" by (simp add: map_of_eq_None_iff)
  then show "alist_get arg x = Inr (the (map_of arg x))"
    by (auto simp: alist_get_def dict_get_def)
qed

lemma roleMapping_fold:
  assumes "\<forall>k\<in>set ks. map_of arg k \<noteq> None \<and> resourceIdLookup st k \<noteq> None \<and>
             (\<forall>r\<in>set (the (map_of arg k)). rolesIdLookup st r \<noteq> None)"
  shows "foldM_e (roleMapping_step st arg) m ks =
           Inr (foldl (\<lambda>m k. m(the (resourceIdLookup st k) \<mapsto>
                               map (\<lambda>r. the (rolesIdLookup st r)) (the (map_of arg k)))) m ks)"
  using assms
proof (induction ks arbitrary: m)
  case Nil
  show ?case by simp
next
  case (Cons k ks)
  from Cons.prems obtain rl rid where a: "map_of arg k = Some rl"
    and b: "resourceIdLookup st k = Some rid"
    and c: "\<forall>r\<in>set rl. rolesIdLookup st r \<noteq> None" by fastforce
  have "mapM_e (dict_get (rolesIdLookup st)) rl = Inr (map (\<lambda>r. the (rolesIdLookup st r)) rl)"
    using c by (intro mapM_e_map) (auto simp: dict_get_def)
  then have s: "roleMapping_step st arg m k =
      Inr (m(the (resourceIdLookup st k) \<mapsto>
             map (\<lambda>r. the (rolesIdLookup st r)) (the (map_of arg k))))"
    using a b by (simp add: roleMapping_step_def alist_get_def dict_get_def)
  from Cons.prems have "\<forall>k\<in>set ks. map_of arg k \<noteq> None \<and> resourceIdLookup st k \<noteq> None \<and>
             (\<forall>r\<in>set (the (map_of arg k)). rolesIdLookup st r \<noteq> None)" by simp
  from Cons.IH[OF this] s show ?case by simp
qed

lemma foldl_upd_key:
  assumes "k \<in> set ks"
  shows "\<exists>k'\<in>set ks. f k' = f k \<and> foldl (\<lambda>m k. m(f k \<mapsto> g k)) m ks (f k) = Some (g k')"
  using assms
proof (induction ks rule: rev_induct)
  case Nil
  then show ?case by simp
next
  case (snoc x xs)
  show ?case
  proof (cases "f x = f k")
    case True
    then show ?thesis by (intro bexI[of _ x]) auto
  next
    case False
    with snoc.prems have "k \<in> set xs" by auto
    from snoc.IH[OF this] False show ?thesis by auto
  qed
qed

lemma createEmployeeRoleLookup_Inr:
  fixes st :: solver and arg :: "(string \<times> string list) list"
  defines "resources \<equiv> first_seen [] (map fst arg)"
  defines "roles \<equiv> first_seen [] (concat (map (\<lambda>k. the (map_of arg k)) (map fst arg)))"
  defines "rid \<equiv> dict_comp (map (\<lambda>p. (snd p, fst p)) (enumerate 0 resources))"
  defines "lid \<equiv> dict_comp (map (\<lambda>p. (snd p, fst p)) (enumerate 0 roles))"
  defines "m \<equiv> foldl (\<lambda>m k. m(the (rid k) \<mapsto> map (\<lambda>r. the (lid r)) (the (map_of arg k))))
                     Map.empty (map fst arg)"
  shows "createEmployeeRoleLookup st arg =
           Inr (st\<lparr> resourcesLookup := dict_comp (enumerate 0 resources),
                    resourceIdLookup := rid,
                    numResources := length resources,
                    rolesLookup := dict_comp (enumerate 0 roles),
                    rolesIdLookup := lid,
                    numRoles := length roles,
                    resourceRoleMapping := m \<rparr>)"
    and "\<forall>n<length resources.
           m n = Some (map (\<lambda>r. the (lid r)) (the (map_of arg (resources ! n))))"
proof -
  let ?lists = "map (\<lambda>k. the (map_of arg k)) (map fst arg)"
  let ?st2 = "st\<lparr> resourcesLookup := dict_comp (enumerate 0 resources),
                    resourceIdLookup := rid,
                    numResources := length resources,
                    rolesLookup := dict_comp (enumerate 0 roles),
                    rolesIdLookup := lid,
                    numRoles := length roles \<rparr>"
  let ?f = "\<lambda>k. the (rid k)"
  let ?g = "\<lambda>k. map (\<lambda>r. the (lid r)) (the (map_of arg k))"
  have dres: "distinct resources" unfolding resources_def by (rule first_seen_distinct) simp
  have sres: "set resources = fst ` set arg" unfolding resources_def by (simp add: first_seen_set)
  have rid: "rid k = Some (card (set (takeWhile (\<lambda>y. y \<noteq> k) (map fst arg))))"
    if "k \<in> set (map fst arg)" for k
    unfolding rid_def resources_def by (rule dict_comp_first_seen(1)[OF that])
  have ridx: "rid x = Some i \<longleftrightarrow> i < length resources \<and> resources ! i = x" for x i
    unfolding rid_def by (rule dict_comp_index[OF dres])
  have lid: "lid r \<noteq> None" if "r \<in> set (concat ?lists)" for r
    unfolding lid_def roles_def using dict_comp_first_seen(1)[OF that] by simp
  have pre: "\<forall>k\<in>set (map fst arg). map_of arg k \<noteq> None \<and> resourceIdLookup ?st2 k \<noteq> None \<and>
             (\<forall>r\<in>set (the (map_of arg k)). rolesIdLookup ?st2 r \<noteq> None)"
  proof
    fix k assume k: "k \<in> set (map fst arg)"
    then have 1: "map_of arg k \<noteq> None" by (simp add: map_of_eq_None_iff)
    have 2: "resourceIdLookup ?st2 k \<noteq> None" using rid[OF k] by simp
    have 3: "\<forall>r\<in>set (the (map_of arg k)). rolesIdLookup ?st2 r \<noteq> None"
    proof
      fix r assume "r \<in> set (the (map_of arg k))"
      with k have "r \<in> set (concat ?lists)" by auto
      from lid[OF this] show "rolesIdLookup ?st2 r \<noteq> None" by simp
    qed
    from 1 2 3 show "map_of arg k \<noteq> None \<and> resourceIdLookup ?st2 k \<noteq> None \<and>
             (\<forall>r\<in>set (the (map_of arg k)). rolesIdLookup ?st2 r \<noteq> None)" by blast
  qed
  have fold: "foldM_e (roleMapping_step ?st2 arg) Map.empty (map fst arg) = Inr m"
    using roleMapping_fold[OF pre, of Map.empty] by (simp add: m_def)
  show "createEmployeeRoleLookup st arg = Inr (?st2\<lparr> resourceRoleMapping := m \<rparr>)"
    using fold unfolding resources_def roles_def rid_def lid_def
    by (simp add: createEmployeeRoleLookup_def Let_def role_lists first_seen_concat)
  show "\<forall>n<length resources. m n = Some (?g (resources ! n))"
  proof (intro allI impI)
    fix n assume n: "n < length resources"
    then have mem: "resources ! n \<in> set (map fst arg)" using sres nth_mem by fastforce
    from ridx[of "resources ! n" n] n have fn: "?f (resources ! n) = n" by simp
    from foldl_upd_key[OF mem, of ?f ?g Map.empty] obtain k' where
      k': "k' \<in> set (map fst arg)" and fk: "?f k' = ?f (resources ! n)"
      and v: "m (?f (resources ! n)) = Some (?g k')" unfolding m_def by blast
    from rid[OF k'] obtain i where i: "rid k' = Some i" by blast
    with fk fn have "rid k' = Some n" by simp
    with ridx[of k' n] have "k' = resources ! n" by simp
    with v fn show "m n = Some (?g (resources ! n))" by simp
  qed
qed
text \<open>What the registry looks like after \<^verbatim>\<open>_createEmployeeRoleLookup\<close>, whatever it was
  before.\<close>

lemma registry_facts:
  assumes "createEmployeeRoleLookup st arg = Inr st1"
  shows "\<forall>x i. resourceIdLookup st1 x = Some i \<longleftrightarrow> i < numResources st1 \<and> resourcesLookup st1 i = Some x"
    and "\<forall>x i. rolesIdLookup st1 x = Some i \<longleftrightarrow> i < numRoles st1 \<and> rolesLookup st1 i = Some x"
    and "\<forall>x\<in>set (map fst arg). resourceIdLookup st1 x
            = Some (card (set (takeWhile (\<lambda>y. y \<noteq> x) (map fst arg))))"
    and "\<forall>r\<in>set (concat (map (\<lambda>k. the (map_of arg k)) (map fst arg))). rolesIdLookup st1 r
            = Some (card (set (takeWhile (\<lambda>y. y \<noteq> r)
                        (concat (map (\<lambda>k. the (map_of arg k)) (map fst arg))))))"
    and "numResources st1 = card (set (map fst arg))"
    and "numRoles st1 = card (set (concat (map (\<lambda>k. the (map_of arg k)) (map fst arg))))"
    and "\<forall>n<numResources st1. \<exists>rl. resourceRoleMapping st1 n = Some rl \<and> (\<forall>r\<in>set rl. r < numRoles st1)"
    and "createEmployeeRoleLookup st1 arg = Inr st1"
    and "\<forall>x. resourceIdLookup st1 x \<noteq> None \<longleftrightarrow> x \<in> set (map fst arg)"
    and "\<forall>r. rolesIdLookup st1 r \<noteq> None
           \<longleftrightarrow> r \<in> set (concat (map (\<lambda>k. the (map_of arg k)) (map fst arg)))"
proof -
  let ?ids = "map fst arg"
  let ?rs = "concat (map (\<lambda>k. the (map_of arg k)) (map fst arg))"
  let ?resources = "first_seen [] ?ids"
  let ?roles = "first_seen [] ?rs"
  note e = createEmployeeRoleLookup_Inr(1)[of st arg]
  from assms[unfolded e] have st1: "st1 = st\<lparr> resourcesLookup := dict_comp (enumerate 0 ?resources),
                    resourceIdLookup := dict_comp (map (\<lambda>p. (snd p, fst p)) (enumerate 0 ?resources)),
                    numResources := length ?resources,
                    rolesLookup := dict_comp (enumerate 0 ?roles),
                    rolesIdLookup := dict_comp (map (\<lambda>p. (snd p, fst p)) (enumerate 0 ?roles)),
                    numRoles := length ?roles,
                    resourceRoleMapping := foldl (\<lambda>m k. m(the (dict_comp (map (\<lambda>p. (snd p, fst p)) (enumerate 0 ?resources)) k) \<mapsto> map (\<lambda>r. the (dict_comp (map (\<lambda>p. (snd p, fst p)) (enumerate 0 ?roles)) r)) (the (map_of arg k))))
                     Map.empty (map fst arg) \<rparr>" by simp
  have fields:
    "resourceIdLookup st1 = dict_comp (map (\<lambda>p. (snd p, fst p)) (enumerate 0 ?resources))"
    "resourcesLookup st1 = dict_comp (enumerate 0 ?resources)"
    "numResources st1 = length ?resources"
    "rolesIdLookup st1 = dict_comp (map (\<lambda>p. (snd p, fst p)) (enumerate 0 ?roles))"
    "rolesLookup st1 = dict_comp (enumerate 0 ?roles)"
    "numRoles st1 = length ?roles"
    by (simp_all add: st1)
  have dres: "distinct ?resources" by (rule first_seen_distinct) simp
  have drol: "distinct ?roles" by (rule first_seen_distinct) simp
  show "\<forall>x i. resourceIdLookup st1 x = Some i \<longleftrightarrow> i < numResources st1 \<and> resourcesLookup st1 i = Some x"
    unfolding fields dict_comp_index[OF dres] dict_comp_enumerate by blast
  show ri: "\<forall>x i. rolesIdLookup st1 x = Some i \<longleftrightarrow> i < numRoles st1 \<and> rolesLookup st1 i = Some x"
    unfolding fields dict_comp_index[OF drol] dict_comp_enumerate by blast
  show "\<forall>x\<in>set ?ids. resourceIdLookup st1 x = Some (card (set (takeWhile (\<lambda>y. y \<noteq> x) ?ids)))"
    unfolding fields using dict_comp_first_seen(1)[of _ ?ids] by blast
  show rr: "\<forall>r\<in>set ?rs. rolesIdLookup st1 r = Some (card (set (takeWhile (\<lambda>y. y \<noteq> r) ?rs)))"
    unfolding fields using dict_comp_first_seen(1)[of _ ?rs] by blast
  show "numResources st1 = card (set ?ids)"
    unfolding fields using distinct_card[OF dres] first_seen_set[of "[]" ?ids] by simp
  show "numRoles st1 = card (set ?rs)"
    unfolding fields using distinct_card[OF drol] first_seen_set[of "[]" ?rs] by simp
  show "\<forall>n<numResources st1. \<exists>rl. resourceRoleMapping st1 n = Some rl \<and> (\<forall>r\<in>set rl. r < numRoles st1)"
  proof (intro allI impI)
    fix n assume "n < numResources st1"
    then have n: "n < length ?resources" by (simp add: fields)
    have "resourceRoleMapping st1 = foldl (\<lambda>m k. m(the (dict_comp (map (\<lambda>p. (snd p, fst p)) (enumerate 0 ?resources)) k) \<mapsto> map (\<lambda>r. the (dict_comp (map (\<lambda>p. (snd p, fst p)) (enumerate 0 ?roles)) r)) (the (map_of arg k))))
                     Map.empty (map fst arg)" by (simp add: st1)
    with createEmployeeRoleLookup_Inr(2)[of arg] n
    have v: "resourceRoleMapping st1 n = Some (map (\<lambda>r. the (rolesIdLookup st1 r))
                (the (map_of arg (?resources ! n))))"
      unfolding fields by simp
    have "?resources ! n \<in> set ?ids" using n nth_mem first_seen_set[of "[]" ?ids] by fastforce
    then have sub: "set (the (map_of arg (?resources ! n))) \<subseteq> set ?rs" by auto
    have "\<forall>r\<in>set (map (\<lambda>r. the (rolesIdLookup st1 r)) (the (map_of arg (?resources ! n)))). r < numRoles st1"
    proof
      fix i assume "i \<in> set (map (\<lambda>r. the (rolesIdLookup st1 r)) (the (map_of arg (?resources ! n))))"
      then obtain r where r: "r \<in> set (the (map_of arg (?resources ! n)))"
        and i: "i = the (rolesIdLookup st1 r)" by auto
      from r sub rr obtain j where "rolesIdLookup st1 r = Some j" by blast
      with ri i show "i < numRoles st1" by simp
    qed
    with v show "\<exists>rl. resourceRoleMapping st1 n = Some rl \<and> (\<forall>r\<in>set rl. r < numRoles st1)" by blast
  qed
  show "createEmployeeRoleLookup st1 arg = Inr st1"
    unfolding createEmployeeRoleLookup_Inr(1)[of st1 arg] by (simp add: st1)
  have dom: "dict_comp (map (\<lambda>p. (snd p, fst p)) (enumerate 0 xs)) x \<noteq> None \<longleftrightarrow> x \<in> set xs"
    if "distinct xs" for xs :: "string list" and x
    using dict_comp_index[OF that, of x] by (auto simp: in_set_conv_nth)
  show "\<forall>x. resourceIdLookup st1 x \<noteq> None \<longleftrightarrow> x \<in> set ?ids"
    unfolding fields dom[OF dres] first_seen_set by simp
  show "\<forall>r. rolesIdLookup st1 r \<noteq> None \<longleftrightarrow> r \<in> set ?rs"
    unfolding fields dom[OF drol] first_seen_set by simp
qed

lemma role_lists_distinct:
  assumes "distinct (map fst arg)"
  shows "map (\<lambda>k. the (map_of arg k)) (map fst arg) = map snd arg"
proof -
  have "the (map_of arg (fst p)) = snd p" if "p \<in> set arg" for p
  proof -
    from that have "(fst p, snd p) \<in> set arg" by simp
    from map_of_is_SomeI[OF assms this] show ?thesis by simp
  qed
  then show ?thesis by simp
qed

text \<open>
  C7. Registry construction never fails and is idempotent and deterministic: for every
  \<^verbatim>\<open>resourceRoleMap\<close>, \<^verbatim>\<open>_createEmployeeRoleLookup\<close> returns; running it again on the object it
  returned changes nothing; run on any other object it yields the same registry. The index of
  a resource key is the number of distinct keys before its first occurrence in key order, and
  the index of a role is the number of distinct roles before its first occurrence in the
  role lists read in key order, each list in its own order: indices follow the order of
  first occurrence, and every later occurrence of a name has the index of the first. The
  two lookup tables of each kind are inverse to each other, so different names have different
  indices below the count. (For a dictionary, whose keys are distinct, the role lists read
  are the values in insertion order.)
\<close>

theorem registry_idempotent_first_seen:
  "\<exists>st1. createEmployeeRoleLookup st arg = Inr st1 \<and>
     createEmployeeRoleLookup st1 arg = Inr st1 \<and>
     (\<forall>st'. \<exists>st2. createEmployeeRoleLookup st' arg = Inr st2 \<and>
        resourceIdLookup st2 = resourceIdLookup st1 \<and> resourcesLookup st2 = resourcesLookup st1 \<and>
        rolesIdLookup st2 = rolesIdLookup st1 \<and> rolesLookup st2 = rolesLookup st1 \<and>
        resourceRoleMapping st2 = resourceRoleMapping st1 \<and>
        numResources st2 = numResources st1 \<and> numRoles st2 = numRoles st1) \<and>
     (\<forall>x\<in>set (map fst arg). resourceIdLookup st1 x
        = Some (card (set (takeWhile (\<lambda>y. y \<noteq> x) (map fst arg))))) \<and>
     (\<forall>r\<in>set (concat (map (\<lambda>k. the (map_of arg k)) (map fst arg))). rolesIdLookup st1 r
        = Some (card (set (takeWhile (\<lambda>y. y \<noteq> r)
                    (concat (map (\<lambda>k. the (map_of arg k)) (map fst arg))))))) \<and>
     (\<forall>x i. resourceIdLookup st1 x = Some i
        \<longleftrightarrow> i < numResources st1 \<and> resourcesLookup st1 i = Some x) \<and>
     (\<forall>x i. rolesIdLookup st1 x = Some i \<longleftrightarrow> i < numRoles st1 \<and> rolesLookup st1 i = Some x) \<and>
     (distinct (map fst arg) \<longrightarrow>
        map (\<lambda>k. the (map_of arg k)) (map fst arg) = map snd arg)"
proof -
  from createEmployeeRoleLookup_Inr(1)[of st arg] obtain st1 where
    c: "createEmployeeRoleLookup st arg = Inr st1" by blast
  note f = registry_facts[OF c]
  have other: "\<exists>st2. createEmployeeRoleLookup st' arg = Inr st2 \<and>
        resourceIdLookup st2 = resourceIdLookup st1 \<and> resourcesLookup st2 = resourcesLookup st1 \<and>
        rolesIdLookup st2 = rolesIdLookup st1 \<and> rolesLookup st2 = rolesLookup st1 \<and>
        resourceRoleMapping st2 = resourceRoleMapping st1 \<and>
        numResources st2 = numResources st1 \<and> numRoles st2 = numRoles st1" for st'
  proof -
    from createEmployeeRoleLookup_Inr(1)[of st' arg] obtain st2 where
      c2: "createEmployeeRoleLookup st' arg = Inr st2" by blast
    from c[unfolded createEmployeeRoleLookup_Inr(1)[of st arg]]
      c2[unfolded createEmployeeRoleLookup_Inr(1)[of st' arg]]
    have "resourceIdLookup st2 = resourceIdLookup st1 \<and> resourcesLookup st2 = resourcesLookup st1 \<and>
        rolesIdLookup st2 = rolesIdLookup st1 \<and> rolesLookup st2 = rolesLookup st1 \<and>
        resourceRoleMapping st2 = resourceRoleMapping st1 \<and>
        numResources st2 = numResources st1 \<and> numRoles st2 = numRoles st1" by auto
    with c2 show ?thesis by blast
  qed
  have dist: "distinct (map fst arg) \<longrightarrow>
        map (\<lambda>k. the (map_of arg k)) (map fst arg) = map snd arg"
    using role_lists_distinct by blast
  from c f(8) other f(3) f(4) f(1) f(2) dist show ?thesis by blast
qed

text \<open>The theorem at the registry of the hospital problem: \<open>R1\<close> occurs in the role lists
  of both resources and has one index.\<close>

theorem registry_idempotent_first_seen_witness:
  "\<exists>st1. createEmployeeRoleLookup (HospitalSolver_init 1) (resourceRoleMap demo_args) = Inr st1 \<and>
     createEmployeeRoleLookup st1 (resourceRoleMap demo_args) = Inr st1 \<and>
     ''B'' \<in> set (map fst (resourceRoleMap demo_args)) \<and>
     resourceIdLookup st1 ''A'' = Some 0 \<and> resourceIdLookup st1 ''B'' = Some 1 \<and>
     distinct (map fst (resourceRoleMap demo_args)) \<and>
     concat (map snd (resourceRoleMap demo_args)) = [''R1'', ''R1'', ''R2''] \<and>
     rolesIdLookup st1 ''R1'' = Some 0 \<and> rolesIdLookup st1 ''R2'' = Some 1 \<and>
     resourcesLookup st1 1 = Some ''B'' \<and> rolesLookup st1 1 = Some ''R2''"
proof -
  let ?arg = "resourceRoleMap demo_args"
  from registry_idempotent_first_seen[of "HospitalSolver_init 1" ?arg] obtain st1 where
    c: "createEmployeeRoleLookup (HospitalSolver_init 1) ?arg = Inr st1"
    and i: "createEmployeeRoleLookup st1 ?arg = Inr st1"
    and r: "\<forall>x\<in>set (map fst ?arg). resourceIdLookup st1 x
        = Some (card (set (takeWhile (\<lambda>y. y \<noteq> x) (map fst ?arg))))"
    and l: "\<forall>r\<in>set (concat (map (\<lambda>k. the (map_of ?arg k)) (map fst ?arg))). rolesIdLookup st1 r
        = Some (card (set (takeWhile (\<lambda>y. y \<noteq> r)
                    (concat (map (\<lambda>k. the (map_of ?arg k)) (map fst ?arg))))))"
    and ri: "\<forall>x i. resourceIdLookup st1 x = Some i
        \<longleftrightarrow> i < numResources st1 \<and> resourcesLookup st1 i = Some x"
    and li: "\<forall>x i. rolesIdLookup st1 x = Some i \<longleftrightarrow> i < numRoles st1 \<and> rolesLookup st1 i = Some x"
    and d: "distinct (map fst ?arg) \<longrightarrow>
        map (\<lambda>k. the (map_of ?arg k)) (map fst ?arg) = map snd ?arg"
    by blast
  have ids: "map fst ?arg = [''A'', ''B'']" by (simp add: demo_args_def)
  have dd: "distinct (map fst ?arg)" by (simp add: ids)
  have rs: "concat (map snd ?arg) = [''R1'', ''R1'', ''R2'']" by (simp add: demo_args_def)
  from d dd have "map (\<lambda>k. the (map_of ?arg k)) (map fst ?arg) = map snd ?arg" by (rule mp)
  then have rs': "concat (map (\<lambda>k. the (map_of ?arg k)) (map fst ?arg))
      = [''R1'', ''R1'', ''R2'']" by (simp only: rs)
  from r have a: "resourceIdLookup st1 ''A'' = Some 0" and b: "resourceIdLookup st1 ''B'' = Some 1"
    unfolding ids by simp_all
  from l have r1: "rolesIdLookup st1 ''R1'' = Some 0" and r2: "rolesIdLookup st1 ''R2'' = Some 1"
    unfolding rs' by simp_all
  from ri b have b': "resourcesLookup st1 1 = Some ''B''" by blast
  from li r2 have r2': "rolesLookup st1 1 = Some ''R2''" by blast
  have m: "''B'' \<in> set (map fst ?arg)" by (simp add: ids)
  from c i m a b dd rs r1 r2 b' r2' show ?thesis by blast
qed

section \<open>Head counts\<close>

lemma reindex_step:
  assumes "(case dict_get (rolesIdLookup st) role of Inl e \<Rightarrow> Inl e | Inr rid \<Rightarrow>
        (case alist_get shift role of Inl e \<Rightarrow> Inl e
         | Inr req \<Rightarrow> Inr (AList.update rid req acc))) = Inr acc'"
  shows "\<exists>rid req. rolesIdLookup st role = Some rid \<and> map_of shift role = Some req \<and>
           acc' = AList.update rid req acc"
  using assms by (auto simp: dict_get_def alist_get_def split: sum.splits option.splits)

lemma foldM_e_ConsD:
  assumes "foldM_e f s (x # xs) = Inr r"
  obtains s' where "f s x = Inr s'" and "foldM_e f s' xs = Inr r"
  using assms by (auto split: sum.splits)

lemma reindex_fold:
  fixes st :: solver and shift :: "(string \<times> int) list"
  defines "step \<equiv> \<lambda>acc role.
        case dict_get (rolesIdLookup st) role of Inl e \<Rightarrow> Inl e | Inr rid \<Rightarrow>
        (case alist_get shift role of Inl e \<Rightarrow> Inl e
         | Inr req \<Rightarrow> Inr (AList.update rid req acc))"
  assumes f: "foldM_e step acc ks = Inr rr"
    and inj: "\<forall>x y i. rolesIdLookup st x = Some i \<and> rolesIdLookup st y = Some i \<longrightarrow> x = y"
  shows "(map_of rr r = Some k \<longleftrightarrow>
           (\<exists>role\<in>set ks. rolesIdLookup st role = Some r \<and> map_of shift role = Some k) \<or>
           ((\<forall>role\<in>set ks. rolesIdLookup st role \<noteq> Some r) \<and> map_of acc r = Some k)) \<and>
         (\<forall>role\<in>set ks. \<exists>i. rolesIdLookup st role = Some i)"
  using f
proof (induction ks arbitrary: acc)
  case Nil
  then show ?case by simp
next
  case (Cons x xs)
  from Cons.prems obtain acc' where s: "step acc x = Inr acc'"
    and c: "foldM_e step acc' xs = Inr rr" by (rule foldM_e_ConsD)
  from reindex_step[OF s[unfolded step_def]] obtain rid req where
    a: "rolesIdLookup st x = Some rid" and b: "map_of shift x = Some req"
    and acc': "acc' = AList.update rid req acc" by blast
  from Cons.IH[OF c] have
    ih: "map_of rr r = Some k \<longleftrightarrow>
           (\<exists>role\<in>set xs. rolesIdLookup st role = Some r \<and> map_of shift role = Some k) \<or>
           ((\<forall>role\<in>set xs. rolesIdLookup st role \<noteq> Some r) \<and> map_of acc' r = Some k)"
    and ih2: "\<forall>role\<in>set xs. \<exists>i. rolesIdLookup st role = Some i" by blast+
  have p2: "\<forall>role\<in>set (x # xs). \<exists>i. rolesIdLookup st role = Some i" using ih2 a by simp
  have p1: "map_of rr r = Some k \<longleftrightarrow>
           (\<exists>role\<in>set (x # xs). rolesIdLookup st role = Some r \<and> map_of shift role = Some k) \<or>
           ((\<forall>role\<in>set (x # xs). rolesIdLookup st role \<noteq> Some r) \<and> map_of acc r = Some k)"
  proof (cases "\<exists>role\<in>set xs. rolesIdLookup st role = Some r")
    case True
    then obtain role where role: "role \<in> set xs" "rolesIdLookup st role = Some r" by blast
    have u: "role' = role" if "rolesIdLookup st role' = Some r" for role'
      using inj that role(2) by blast
    have 1: "map_of rr r = Some k \<longleftrightarrow> map_of shift role = Some k"
      unfolding ih using role u by blast
    have 2: "(\<exists>role\<in>set (x # xs). rolesIdLookup st role = Some r \<and> map_of shift role = Some k)
          \<longleftrightarrow> map_of shift role = Some k" using role u by (metis list.set_intros(2))
    have 3: "\<not> (\<forall>role\<in>set (x # xs). rolesIdLookup st role \<noteq> Some r)"
      using role by (metis list.set_intros(2))
    show ?thesis unfolding 1 2 using 3 by blast
  next
    case False
    with ih have e: "map_of rr r = Some k \<longleftrightarrow> map_of acc' r = Some k" by blast
    show ?thesis
    proof (cases "rid = r")
      case True
      with e have 1: "map_of rr r = Some k \<longleftrightarrow> req = k" by (simp add: acc' update_conv')
      have 2: "(\<exists>role\<in>set (x # xs). rolesIdLookup st role = Some r \<and> map_of shift role = Some k)
          \<longleftrightarrow> req = k" using a b True False by auto
      have 3: "\<not> (\<forall>role\<in>set (x # xs). rolesIdLookup st role \<noteq> Some r)" using a True by simp
      show ?thesis unfolding 1 2 using 3 by blast
    next
      case rf: False
      with e have 1: "map_of rr r = Some k \<longleftrightarrow> map_of acc r = Some k"
        by (simp add: acc' update_conv')
      have 2: "\<not> (\<exists>role\<in>set (x # xs). rolesIdLookup st role = Some r \<and> map_of shift role = Some k)"
        using a rf False by auto
      have 3: "\<forall>role\<in>set (x # xs). rolesIdLookup st role \<noteq> Some r" using a rf False by auto
      show ?thesis unfolding 1 using 2 3 by blast
    qed
  qed
  from p1 p2 show ?case by blast
qed

lemma reindex_shift_lookup:
  assumes "reindex_shift st shift = Inr rr"
    and inj: "\<forall>x y i. rolesIdLookup st x = Some i \<and> rolesIdLookup st y = Some i \<longrightarrow> x = y"
  shows "(r, k) \<in> set rr \<longleftrightarrow> (\<exists>role. rolesIdLookup st role = Some r \<and> map_of shift role = Some k)"
    and "map_of shift role = Some k \<Longrightarrow> \<exists>i. rolesIdLookup st role = Some i"
proof -
  from assms(1) have f: "foldM_e (\<lambda>acc role.
        case dict_get (rolesIdLookup st) role of Inl e \<Rightarrow> Inl e | Inr rid \<Rightarrow>
        (case alist_get shift role of Inl e \<Rightarrow> Inl e
         | Inr req \<Rightarrow> Inr (AList.update rid req acc))) [] (map fst shift) = Inr rr"
    unfolding reindex_shift_def .
  note rf = reindex_fold[OF f inj]
  have d: "distinct (map fst rr)" by (rule reindex_shift_distinct[OF assms(1)])
  have key: "role \<in> set (map fst shift)" if "map_of shift role = Some k" for role k
    using map_of_SomeD[OF that] by force
  have "(r, k) \<in> set rr \<longleftrightarrow> map_of rr r = Some k" using d by simp
  also have "\<dots> \<longleftrightarrow> (\<exists>role\<in>set (map fst shift). rolesIdLookup st role = Some r \<and>
                         map_of shift role = Some k)"
    using rf[where r = r and k = k] by simp
  also have "\<dots> \<longleftrightarrow> (\<exists>role. rolesIdLookup st role = Some r \<and> map_of shift role = Some k)"
    using key by blast
  finally show "(r, k) \<in> set rr \<longleftrightarrow>
      (\<exists>role. rolesIdLookup st role = Some r \<and> map_of shift role = Some k)" .
  show "\<exists>i. rolesIdLookup st role = Some i" if "map_of shift role = Some k"
    using rf key[OF that] by blast
qed

lemma construct_registry:
  assumes "construct child st0 a = Inr st" and "appends_constraints child"
  shows "\<forall>x i. resourceIdLookup st x = Some i \<longleftrightarrow> i < numResources st \<and> resourcesLookup st i = Some x"
    and "\<forall>x i. rolesIdLookup st x = Some i \<longleftrightarrow> i < numRoles st \<and> rolesLookup st i = Some x"
    and "\<forall>x\<in>set (map fst (resourceRoleMap a)). resourceIdLookup st x
            = Some (card (set (takeWhile (\<lambda>y. y \<noteq> x) (map fst (resourceRoleMap a)))))"
    and "\<forall>n<numResources st. \<exists>rl. resourceRoleMapping st n = Some rl \<and> (\<forall>r\<in>set rl. r < numRoles st)"
proof -
  from assms obtain st5 cs where b: "construct Solver_childConstraints st0 a = Inr st5"
    and reg: "same_registry st5 st" by (rule child_construct)
  from base_construct(2)[OF b] obtain st1 where
    c: "createEmployeeRoleLookup
                  ((createModel st0)\<lparr>numDays := length (requirementMatrix a),
                                      numShifts := length (requirementMatrix a ! 0)\<rparr>)
                  (resourceRoleMap a) = Inr st1" and reg1: "same_registry st1 st5" by blast
  from same_registry_trans[OF reg1 reg] have eq:
    "numResources st1 = numResources st" "numRoles st1 = numRoles st"
    "resourcesLookup st1 = resourcesLookup st" "resourceIdLookup st1 = resourceIdLookup st"
    "rolesLookup st1 = rolesLookup st" "rolesIdLookup st1 = rolesIdLookup st"
    "resourceRoleMapping st1 = resourceRoleMapping st"
    by (simp_all add: same_registry_def)
  note f = registry_facts[OF c, unfolded eq]
  show "\<forall>x i. resourceIdLookup st x = Some i \<longleftrightarrow> i < numResources st \<and> resourcesLookup st i = Some x"
    by (rule f(1))
  show "\<forall>x i. rolesIdLookup st x = Some i \<longleftrightarrow> i < numRoles st \<and> rolesLookup st i = Some x"
    by (rule f(2))
  show "\<forall>x\<in>set (map fst (resourceRoleMap a)). resourceIdLookup st x
            = Some (card (set (takeWhile (\<lambda>y. y \<noteq> x) (map fst (resourceRoleMap a)))))"
    by (rule f(3))
  show "\<forall>n<numResources st. \<exists>rl. resourceRoleMapping st n = Some rl \<and> (\<forall>r\<in>set rl. r < numRoles st)"
    by (rule f(7))
qed

lemma class_child:
  assumes "child = Solver_childConstraints \<or> child = HospitalSolver_childConstraints"
  shows "appends_constraints child"
    and "child st5 a = Inr st \<Longrightarrow> \<exists>X. model st = model st5 @ X \<and> (\<forall>c\<in>set X. \<forall>e q. c \<noteq> GeC e q)"
proof -
  show "appends_constraints child" using assms Solver_appends HospitalSolver_appends by blast
  show "\<exists>X. model st = model st5 @ X \<and> (\<forall>c\<in>set X. \<forall>e q. c \<noteq> GeC e q)" if h: "child st5 a = Inr st"
  proof -
    from assms consider "child = Solver_childConstraints" | "child = HospitalSolver_childConstraints"
      by blast
    then show ?thesis
    proof cases
      case 1
      with h have "model st = model st5 @ []" by (simp add: Solver_childConstraints_def)
      then show ?thesis by (intro exI[of _ "[]"]) simp
    next
      case 2
      from hospital_child[OF h[unfolded 2]] obtain D E where md: "model st = model st5 @ D @ E"
        and D: "\<forall>c\<in>set D. \<exists>e. c = LeC e 1" and E: "\<forall>c\<in>set E. \<exists>x. c = EqC [(1, x)] 0" by blast
      have "\<forall>c\<in>set (D @ E). \<forall>e q. c \<noteq> GeC e q" using D E by auto
      with md show ?thesis by blast
    qed
  qed
qed

text \<open>
  C3. After model construction by either class, for every day \<open>d\<close> and shift \<open>s\<close> of the grid
  and every role name that is a key of \<^verbatim>\<open>RequirementMatrix[d][s]\<close> with requirement \<open>k\<close>, the
  role has an index \<open>r\<close> and the model contains the constraint that the sum over all
  resources of the variables \<open>(n, r, d, s)\<close> is at least \<open>k\<close>; hence in every accepted
  valuation at least \<open>k\<close> resources have that variable true. Conversely every \<open>\<ge>\<close>
  constraint of the model is the head-count constraint of some day, shift and role name
  that is a key of the matrix there, with the requirement stored for it: a role absent from
  \<^verbatim>\<open>RequirementMatrix[d][s]\<close> gets no requirement constraint, not even one with bound zero.
\<close>

theorem requirement_satisfaction:
  assumes "construct child st0 a = Inr st"
    and "child = Solver_childConstraints \<or> child = HospitalSolver_childConstraints"
  shows "(\<forall>d<numDays st. \<forall>s<numShifts st. \<forall>role k.
            map_of (requirementMatrix a ! d ! s) role = Some k \<longrightarrow>
            (\<exists>r<numRoles st. rolesIdLookup st role = Some r \<and>
               GeC (map (\<lambda>n. (1, (n, r, d, s))) [0..<numResources st]) k \<in> set (model st) \<and>
               (\<forall>v. accepted v st \<longrightarrow>
                  k \<le> int (length (filter (\<lambda>n. v (n, r, d, s)) [0..<numResources st])))))
       \<and> (\<forall>e q. GeC e q \<in> set (model st) \<longrightarrow>
            (\<exists>d<numDays st. \<exists>s<numShifts st. \<exists>role r.
               map_of (requirementMatrix a ! d ! s) role = Some q \<and>
               rolesIdLookup st role = Some r \<and>
               e = map (\<lambda>n. (1, (n, r, d, s))) [0..<numResources st]))"
proof -
  note app = class_child(1)[OF assms(2)]
  from assms(1) obtain st5 where b: "construct Solver_childConstraints st0 a = Inr st5"
    and h: "child st5 a = Inr st"
    unfolding construct_child[of child] by (auto split: sum.splits)
  from app h have reg: "same_registry st5 st" and rq: "requirementMapping st = requirementMapping st5"
    unfolding appends_constraints_def by blast+
  from class_child(2)[OF assms(2) h] obtain X where md: "model st = model st5 @ X"
    and X: "\<forall>c\<in>set X. \<forall>e q. c \<noteq> GeC e q" by blast
  have dims: "numRoles st5 = numRoles st" "numShifts st5 = numShifts st"
    "numResources st5 = numResources st" "numDays st5 = numDays st"
    "rolesIdLookup st5 = rolesIdLookup st"
    using reg by (simp_all add: same_registry_def)
  let ?C = "[LeC [(1, (n, r, d, s)). r \<leftarrow> [0..<numRoles st5], s \<leftarrow> [0..<numShifts st5]] 1.
                 n \<leftarrow> [0..<numResources st5], d \<leftarrow> [0..<numDays st5]]"
  from base_construct(5)[OF b] obtain A B where m5: "model st5 = A @ B @ ?C"
    and A: "\<forall>c\<in>set A. \<exists>x. c = EqC [(1, x)] 0"
    and B1: "\<forall>d<numDays st5. \<forall>s<numShifts st5.
              d < length (requirementMapping st5) \<and> s < length (requirementMapping st5 ! d) \<and>
              (\<forall>role\<in>fst ` set (requirementMapping st5 ! d ! s).
                 GeC (map (\<lambda>n. (1, (n, role, d, s))) [0..<numResources st5])
                     (the (map_of (requirementMapping st5 ! d ! s) role)) \<in> set B)"
    and B2: "\<forall>c\<in>set B. \<exists>d<numDays st5. \<exists>s<numShifts st5.
              \<exists>role\<in>fst ` set (requirementMapping st5 ! d ! s).
                 c = GeC (map (\<lambda>n. (1, (n, role, d, s))) [0..<numResources st5])
                         (the (map_of (requirementMapping st5 ! d ! s) role))" by blast
  have C: "\<forall>c\<in>set ?C. \<exists>e. c = LeC e 1" by auto
  note rf = construct_registry(2)[OF assms(1) app]
  have inj: "\<forall>x y i. rolesIdLookup st x = Some i \<and> rolesIdLookup st y = Some i \<longrightarrow> x = y"
  proof (intro allI impI)
    fix x y i assume "rolesIdLookup st x = Some i \<and> rolesIdLookup st y = Some i"
    with rf have "rolesLookup st i = Some x" "rolesLookup st i = Some y" by blast+
    then show "x = y" by simp
  qed
  from base_construct(3)[OF b] have r3: "\<forall>d<length (requirementMapping st5).
            (\<forall>s<length (requirementMapping st5 ! d).
               reindex_shift st5 (requirementMatrix a ! d ! s) = Inr (requirementMapping st5 ! d ! s))"
    by blast
  have cell: "reindex_shift st (requirementMatrix a ! d ! s) = Inr (requirementMapping st5 ! d ! s)"
    if "d < numDays st" "s < numShifts st" for d s
  proof -
    from B1 that have "d < length (requirementMapping st5)" "s < length (requirementMapping st5 ! d)"
      unfolding dims by blast+
    with r3 have "reindex_shift st5 (requirementMatrix a ! d ! s) = Inr (requirementMapping st5 ! d ! s)"
      by blast
    then show ?thesis using reindex_shift_cong[OF dims(5)] by simp
  qed
  have val: "the (map_of (requirementMapping st5 ! d ! s) r) = k"
    if "d < numDays st" "s < numShifts st" "(r, k) \<in> set (requirementMapping st5 ! d ! s)" for d s r k
  proof -
    have "distinct (map fst (requirementMapping st5 ! d ! s))"
      by (rule reindex_shift_distinct[OF cell[OF that(1,2)]])
    from map_of_is_SomeI[OF this that(3)] show ?thesis by simp
  qed
  have p1: "\<forall>d<numDays st. \<forall>s<numShifts st. \<forall>role k.
            map_of (requirementMatrix a ! d ! s) role = Some k \<longrightarrow>
            (\<exists>r<numRoles st. rolesIdLookup st role = Some r \<and>
               GeC (map (\<lambda>n. (1, (n, r, d, s))) [0..<numResources st]) k \<in> set (model st) \<and>
               (\<forall>v. accepted v st \<longrightarrow>
                  k \<le> int (length (filter (\<lambda>n. v (n, r, d, s)) [0..<numResources st]))))"
  proof (intro allI impI)
    fix d s role k
    assume d: "d < numDays st" and s: "s < numShifts st"
      and key: "map_of (requirementMatrix a ! d ! s) role = Some k"
    note lk = reindex_shift_lookup[OF cell[OF d s] inj]
    from lk(2)[OF key] obtain r where r: "rolesIdLookup st role = Some r" by blast
    with rf have rlt: "r < numRoles st" by blast
    from lk(1)[of r k] r key have mem: "(r, k) \<in> set (requirementMapping st5 ! d ! s)" by blast
    then have "r \<in> fst ` set (requirementMapping st5 ! d ! s)" by force
    with B1 d s have "GeC (map (\<lambda>n. (1, (n, r, d, s))) [0..<numResources st])
                     (the (map_of (requirementMapping st5 ! d ! s) r)) \<in> set B"
      unfolding dims by blast
    then have g: "GeC (map (\<lambda>n. (1, (n, r, d, s))) [0..<numResources st]) k \<in> set (model st)"
      unfolding md m5 val[OF d s mem] by simp
    have "k \<le> int (length (filter (\<lambda>n. v (n, r, d, s)) [0..<numResources st]))"
      if "accepted v st" for v
      using accepted_holds[OF that g] by (simp add: eval_lin_ones)
    with r rlt g show "\<exists>r<numRoles st. rolesIdLookup st role = Some r \<and>
               GeC (map (\<lambda>n. (1, (n, r, d, s))) [0..<numResources st]) k \<in> set (model st) \<and>
               (\<forall>v. accepted v st \<longrightarrow>
                  k \<le> int (length (filter (\<lambda>n. v (n, r, d, s)) [0..<numResources st])))"
      by blast
  qed
  have p2: "\<forall>e q. GeC e q \<in> set (model st) \<longrightarrow>
            (\<exists>d<numDays st. \<exists>s<numShifts st. \<exists>role r.
               map_of (requirementMatrix a ! d ! s) role = Some q \<and>
               rolesIdLookup st role = Some r \<and>
               e = map (\<lambda>n. (1, (n, r, d, s))) [0..<numResources st])"
  proof (intro allI impI)
    fix e q assume "GeC e q \<in> set (model st)"
    with A C X have "GeC e q \<in> set B" unfolding md m5 by auto
    with B2 obtain d s r where d: "d < numDays st" and s: "s < numShifts st"
      and r: "r \<in> fst ` set (requirementMapping st5 ! d ! s)"
      and ceq: "GeC e q = GeC (map (\<lambda>n. (1, (n, r, d, s))) [0..<numResources st])
                         (the (map_of (requirementMapping st5 ! d ! s) r))"
      unfolding dims by blast
    from r obtain k where mem: "(r, k) \<in> set (requirementMapping st5 ! d ! s)" by force
    from ceq val[OF d s mem] have e: "e = map (\<lambda>n. (1, (n, r, d, s))) [0..<numResources st]"
      and q: "q = k" by simp_all
    from reindex_shift_lookup(1)[OF cell[OF d s] inj, of r k] mem obtain role where
      "rolesIdLookup st role = Some r" "map_of (requirementMatrix a ! d ! s) role = Some k" by blast
    with d s e q show "\<exists>d<numDays st. \<exists>s<numShifts st. \<exists>role r.
               map_of (requirementMatrix a ! d ! s) role = Some q \<and>
               rolesIdLookup st role = Some r \<and>
               e = map (\<lambda>n. (1, (n, r, d, s))) [0..<numResources st]" by blast
  qed
  from p1 p2 show ?thesis by blast
qed

lemma small_roles: "rolesIdLookup small_solver ''R1'' = Some 0"
  by code_simp

lemma demo_roles: "rolesIdLookup demo_solver ''R1'' = Some 0"
  by code_simp

text \<open>The theorem at the base-class problem and at the hospital problem: one \<open>R1\<close> is needed
  on day 0, shift 0, and the only \<open>\<ge>\<close> constraint of either model is the one for it.\<close>

theorem requirement_satisfaction_witness:
  "(construct Solver_childConstraints (Solver_init 1 250 True) small_args = Inr small_solver
    \<and> 0 < numDays small_solver \<and> 0 < numShifts small_solver
    \<and> map_of (requirementMatrix small_args ! 0 ! 0) ''R1'' = Some 1
    \<and> rolesIdLookup small_solver ''R1'' = Some 0
    \<and> GeC (map (\<lambda>n. (1, (n, 0, 0, 0))) [0..<numResources small_solver]) 1
         \<in> set (model small_solver)
    \<and> accepted small_val small_solver
    \<and> 1 \<le> int (length (filter (\<lambda>n. small_val (n, 0, 0, 0)) [0..<numResources small_solver]))
    \<and> (\<exists>d<numDays small_solver. \<exists>s<numShifts small_solver. \<exists>role r.
          map_of (requirementMatrix small_args ! d ! s) role = Some 1 \<and>
          rolesIdLookup small_solver role = Some r \<and>
          map (\<lambda>n. (1::int, (n, 0::nat, 0::nat, 0::nat))) [0..<numResources small_solver]
            = map (\<lambda>n. (1, (n, r, d, s))) [0..<numResources small_solver]))
   \<and> (construct HospitalSolver_childConstraints (HospitalSolver_init 1) demo_args = Inr demo_solver
    \<and> 0 < numDays demo_solver \<and> 0 < numShifts demo_solver
    \<and> map_of (requirementMatrix demo_args ! 0 ! 0) ''R1'' = Some 1
    \<and> rolesIdLookup demo_solver ''R1'' = Some 0
    \<and> GeC (map (\<lambda>n. (1, (n, 0, 0, 0))) [0..<numResources demo_solver]) 1
         \<in> set (model demo_solver)
    \<and> accepted demo_val demo_solver
    \<and> 1 \<le> int (length (filter (\<lambda>n. demo_val (n, 0, 0, 0)) [0..<numResources demo_solver]))
    \<and> (\<exists>d<numDays demo_solver. \<exists>s<numShifts demo_solver. \<exists>role r.
          map_of (requirementMatrix demo_args ! d ! s) role = Some 1 \<and>
          rolesIdLookup demo_solver role = Some r \<and>
          map (\<lambda>n. (1::int, (n, 0::nat, 0::nat, 0::nat))) [0..<numResources demo_solver]
            = map (\<lambda>n. (1, (n, r, d, s))) [0..<numResources demo_solver]))"
proof -
  have c1: "Solver_childConstraints = Solver_childConstraints \<or>
            Solver_childConstraints = HospitalSolver_childConstraints" by simp
  have c2: "HospitalSolver_childConstraints = Solver_childConstraints \<or>
            HospitalSolver_childConstraints = HospitalSolver_childConstraints" by simp
  note t1 = requirement_satisfaction[OF small_construct c1]
  note t2 = requirement_satisfaction[OF demo_construct c2]
  have d1: "0 < numDays small_solver" and s1: "0 < numShifts small_solver"
    by (simp_all add: small_dims)
  have d2: "0 < numDays demo_solver" and s2: "0 < numShifts demo_solver"
    by (simp_all add: demo_dims)
  have k1: "map_of (requirementMatrix small_args ! 0 ! 0) ''R1'' = Some 1"
    by (simp add: small_args_def)
  have k2: "map_of (requirementMatrix demo_args ! 0 ! 0) ''R1'' = Some 1"
    by (simp add: demo_args_def)
  from t1 d1 s1 k1 obtain r where "rolesIdLookup small_solver ''R1'' = Some r"
    and "GeC (map (\<lambda>n. (1, (n, r, 0, 0))) [0..<numResources small_solver]) 1
           \<in> set (model small_solver)"
    and "\<forall>v. accepted v small_solver \<longrightarrow>
           1 \<le> int (length (filter (\<lambda>n. v (n, r, 0, 0)) [0..<numResources small_solver]))"
    by blast
  with small_roles small_accepted
  have g1: "GeC (map (\<lambda>n. (1, (n, 0, 0, 0))) [0..<numResources small_solver]) 1
           \<in> set (model small_solver)"
    and a1: "1 \<le> int (length (filter (\<lambda>n. small_val (n, 0, 0, 0)) [0..<numResources small_solver]))"
    by auto
  from t1 g1 have b1: "\<exists>d<numDays small_solver. \<exists>s<numShifts small_solver. \<exists>role r.
          map_of (requirementMatrix small_args ! d ! s) role = Some 1 \<and>
          rolesIdLookup small_solver role = Some r \<and>
          map (\<lambda>n. (1::int, (n, 0::nat, 0::nat, 0::nat))) [0..<numResources small_solver]
            = map (\<lambda>n. (1, (n, r, d, s))) [0..<numResources small_solver]" by blast
  from t2 d2 s2 k2 obtain r' where "rolesIdLookup demo_solver ''R1'' = Some r'"
    and "GeC (map (\<lambda>n. (1, (n, r', 0, 0))) [0..<numResources demo_solver]) 1
           \<in> set (model demo_solver)"
    and "\<forall>v. accepted v demo_solver \<longrightarrow>
           1 \<le> int (length (filter (\<lambda>n. v (n, r', 0, 0)) [0..<numResources demo_solver]))"
    by blast
  with demo_roles demo_accepted
  have g2: "GeC (map (\<lambda>n. (1, (n, 0, 0, 0))) [0..<numResources demo_solver]) 1
           \<in> set (model demo_solver)"
    and a2: "1 \<le> int (length (filter (\<lambda>n. demo_val (n, 0, 0, 0)) [0..<numResources demo_solver]))"
    by auto
  from t2 g2 have b2: "\<exists>d<numDays demo_solver. \<exists>s<numShifts demo_solver. \<exists>role r.
          map_of (requirementMatrix demo_args ! d ! s) role = Some 1 \<and>
          rolesIdLookup demo_solver role = Some r \<and>
          map (\<lambda>n. (1::int, (n, 0::nat, 0::nat, 0::nat))) [0..<numResources demo_solver]
            = map (\<lambda>n. (1, (n, r, d, s))) [0..<numResources demo_solver]" by blast
  from small_construct d1 s1 k1 small_roles g1 small_accepted a1 b1
    demo_construct d2 s2 k2 demo_roles g2 demo_accepted a2 b2
  show ?thesis by blast
qed

section \<open>Hard leave\<close>

lemma py_index_Inr: "py_index len i = Inr d \<Longrightarrow> d < len \<and> (0 \<le> i \<longrightarrow> d = nat i)"
  by (auto simp: py_index_def split: if_splits)

lemma demo_resources: "resourceIdLookup demo_solver ''A'' = Some 0"
  by code_simp

text \<open>
  C6. For every \<open>(resourceKey, day)\<close> pair of the \<^verbatim>\<open>hardLeaves\<close> input of \<^verbatim>\<open>HospitalSolver\<close>, every
  role \<open>r\<close> and every shift \<open>s\<close> of the grid: the resource key has an index \<open>n\<close>, the day is
  a day \<open>d\<close> of the grid (the day itself when it is not negative), and the constructed model
  contains the constraint \<open>variable(n, r, d, s) = 0\<close>, whether or not the model has a
  solution. So in every accepted valuation the resource has no assignment on that day.
\<close>

theorem hard_leave_bans_day:
  assumes "construct HospitalSolver_childConstraints st0 a = Inr st"
    and "(key, day) \<in> set (hardLeaves a)" and "r < numRoles st" and "s < numShifts st"
  shows "\<exists>n d. resourceIdLookup st key = Some n \<and> n < numResources st \<and>
           py_index (numDays st) day = Inr d \<and> d < numDays st \<and> (0 \<le> day \<longrightarrow> d = nat day) \<and>
           EqC [(1, (n, r, d, s))] 0 \<in> set (model st) \<and>
           (\<forall>v. accepted v st \<longrightarrow> \<not> v (n, r, d, s))"
proof -
  from assms(1) obtain st5 where b: "construct Solver_childConstraints st0 a = Inr st5"
    and h: "HospitalSolver_childConstraints st5 a = Inr st" by (rule hospital_construct)
  from hospital_child[OF h] obtain D E where md: "model st = model st5 @ D @ E"
    and E: "\<forall>leave\<in>set (hardLeaves a). \<forall>s<numShifts st. \<forall>r<numRoles st.
               \<exists>n d'. resourceIdLookup st (fst leave) = Some n \<and> n < numResources st \<and>
               py_index (numDays st) (snd leave) = Inr d' \<and>
               EqC [(1, (n, r, d', s))] 0 \<in> set E" by blast
  from E assms(2-4) obtain n d where n: "resourceIdLookup st key = Some n"
    and nl: "n < numResources st" and d: "py_index (numDays st) day = Inr d"
    and e: "EqC [(1, (n, r, d, s))] 0 \<in> set E" by fastforce
  from e have m: "EqC [(1, (n, r, d, s))] 0 \<in> set (model st)" unfolding md by simp
  have "\<not> v (n, r, d, s)" if "accepted v st" for v
    by (rule single_false[OF accepted_holds[OF that m]])
  with py_index_Inr[OF d] n nl d m show ?thesis by blast
qed

text \<open>The theorem at the hospital problem: \<open>A\<close> is on leave on day 1.\<close>

theorem hard_leave_bans_day_witness:
  "construct HospitalSolver_childConstraints (HospitalSolver_init 1) demo_args = Inr demo_solver
   \<and> (''A'', 1) \<in> set (hardLeaves demo_args)
   \<and> 0 < numRoles demo_solver \<and> 2 < numShifts demo_solver
   \<and> resourceIdLookup demo_solver ''A'' = Some 0
   \<and> py_index (numDays demo_solver) 1 = Inr 1
   \<and> EqC [(1, (0, 0, 1, 2))] 0 \<in> set (model demo_solver)
   \<and> accepted demo_val demo_solver \<and> \<not> demo_val (0, 0, 1, 2)"
proof -
  have l: "(''A'', 1) \<in> set (hardLeaves demo_args)" by (simp add: demo_args_def)
  have r: "0 < numRoles demo_solver" and s: "2 < numShifts demo_solver"
    by (simp_all add: demo_dims)
  have p: "py_index (numDays demo_solver) 1 = Inr 1" by (simp add: demo_dims py_index_def)
  from hard_leave_bans_day[OF demo_construct l r s] obtain n d where
    "resourceIdLookup demo_solver ''A'' = Some n" "py_index (numDays demo_solver) 1 = Inr d"
    "EqC [(1, (n, 0, d, 2))] 0 \<in> set (model demo_solver)"
    "\<forall>v. accepted v demo_solver \<longrightarrow> \<not> v (n, 0, d, 2)" by blast
  with demo_resources p demo_accepted
  have "EqC [(1, (0, 0, 1, 2))] 0 \<in> set (model demo_solver)" "\<not> demo_val (0, 0, 1, 2)"
    by auto
  with demo_construct l r s demo_resources p demo_accepted show ?thesis by blast
qed

section \<open>How construction fails\<close>














section \<open>Soft leave and the objective\<close>

lemma foldM_e_append:
  "foldM_e f s (xs @ ys) = (case foldM_e f s xs of Inl e \<Rightarrow> Inl e | Inr s' \<Rightarrow> foldM_e f s' ys)"
  by (induction xs arbitrary: s) (auto split: sum.splits)

lemma vars_at_day:
  "vars_at st (int n) (int r) day (int s) =
     (if n < numResources st \<and> r < numRoles st \<and> s < numShifts st
      then (case py_index (numDays st) day of Inl e \<Rightarrow> Inl e | Inr d \<Rightarrow> Inr (n, r, d, s))
      else Inl IndexError)"
  by (auto simp: vars_at_def py_index_nat py_index_def split: sum.splits if_splits)

lemma penalty_step_Inr:
  assumes "penalty_step st req g sr = Inr g1"
  shows "\<exists>n d. resourceIdLookup st (fst req) = Some n \<and> n < numResources st \<and>
           py_index (numDays st) (fst (snd req)) = Inr d \<and>
           snd sr < numRoles st \<and> fst sr < numShifts st \<and>
           g1 = g((n, snd sr, d, fst sr) := snd (snd req))"
  using assms unfolding penalty_step_def
  by (auto simp: dict_get_def vars_at_day split: option.splits sum.splits if_splits)

lemma penalty_inner:
  assumes "foldM_e (penalty_step st req) g cells = Inr g'"
  shows "(cells \<noteq> [] \<longrightarrow> (\<exists>n d. resourceIdLookup st (fst req) = Some n \<and> n < numResources st \<and>
            py_index (numDays st) (fst (snd req)) = Inr d)) \<and>
         (\<forall>x. g' x = (if \<exists>sr\<in>set cells. \<exists>n d. resourceIdLookup st (fst req) = Some n \<and>
                            py_index (numDays st) (fst (snd req)) = Inr d \<and>
                            x = (n, snd sr, d, fst sr)
                       then snd (snd req) else g x))"
  using assms
proof (induction cells arbitrary: g)
  case Nil
  then show ?case by simp
next
  case (Cons sr cells)
  from Cons.prems obtain g1 where s: "penalty_step st req g sr = Inr g1"
    and c: "foldM_e (penalty_step st req) g1 cells = Inr g'" by (rule foldM_e_ConsD)
  from penalty_step_Inr[OF s] obtain n d where n: "resourceIdLookup st (fst req) = Some n"
    and nl: "n < numResources st" and d: "py_index (numDays st) (fst (snd req)) = Inr d"
    and g1: "g1 = g((n, snd sr, d, fst sr) := snd (snd req))" by blast
  from Cons.IH[OF c] have ih: "\<forall>x. g' x = (if \<exists>sr\<in>set cells. \<exists>n d.
                            resourceIdLookup st (fst req) = Some n \<and>
                            py_index (numDays st) (fst (snd req)) = Inr d \<and>
                            x = (n, snd sr, d, fst sr)
                       then snd (snd req) else g1 x)" by blast
  have 1: "\<exists>n d. resourceIdLookup st (fst req) = Some n \<and> n < numResources st \<and>
            py_index (numDays st) (fst (snd req)) = Inr d" using n nl d by blast
  have 2: "g' x = (if \<exists>sr\<in>set (sr # cells). \<exists>n d. resourceIdLookup st (fst req) = Some n \<and>
                            py_index (numDays st) (fst (snd req)) = Inr d \<and>
                            x = (n, snd sr, d, fst sr)
                       then snd (snd req) else g x)" for x
    using ih[rule_format, of x] n d by (auto simp: g1)
  from 1 2 show ?case by blast
qed

lemma penalty_request:
  assumes "foldM_e (penalty_step st req) g
             [(s, r). s \<leftarrow> [0..<numShifts st], r \<leftarrow> [0..<numRoles st]] = Inr g'"
    and "r < numRoles st" and "s < numShifts st"
  shows "\<exists>n d. resourceIdLookup st (fst req) = Some n \<and> n < numResources st \<and>
            py_index (numDays st) (fst (snd req)) = Inr d"
    and "g' (n, r, d, s) = (if resourceIdLookup st (fst req) = Some n \<and>
                              py_index (numDays st) (fst (snd req)) = Inr d
                            then snd (snd req) else g (n, r, d, s))"
proof -
  let ?cells = "[(s, r). s \<leftarrow> [0..<numShifts st], r \<leftarrow> [0..<numRoles st]]"
  have mem: "(s, r) \<in> set ?cells" using assms(2,3) by (auto simp: image_iff)
  then have ne: "?cells \<noteq> []" by auto
  note p = penalty_inner[OF assms(1)]
  from p ne show "\<exists>n d. resourceIdLookup st (fst req) = Some n \<and> n < numResources st \<and>
            py_index (numDays st) (fst (snd req)) = Inr d" by blast
  have "(\<exists>sr\<in>set ?cells. \<exists>n' d'. resourceIdLookup st (fst req) = Some n' \<and>
                            py_index (numDays st) (fst (snd req)) = Inr d' \<and>
                            (n, r, d, s) = (n', snd sr, d', fst sr))
        \<longleftrightarrow> resourceIdLookup st (fst req) = Some n \<and>
            py_index (numDays st) (fst (snd req)) = Inr d"
    using mem by force
  with p show "g' (n, r, d, s) = (if resourceIdLookup st (fst req) = Some n \<and>
                              py_index (numDays st) (fst (snd req)) = Inr d
                            then snd (snd req) else g (n, r, d, s))" by simp
qed

lemma penalty_grid_value:
  assumes "penalty_grid st arg = Inr g" and "r < numRoles st" and "s < numShifts st"
  shows "g (n, r, d, s) =
           (case filter (\<lambda>req. resourceIdLookup st (fst req) = Some n \<and>
                                py_index (numDays st) (fst (snd req)) = Inr d) (rev arg) of
              [] \<Rightarrow> 0 | req # _ \<Rightarrow> snd (snd req)) \<and>
         (\<forall>req\<in>set arg. \<exists>n d. resourceIdLookup st (fst req) = Some n \<and> n < numResources st \<and>
            py_index (numDays st) (fst (snd req)) = Inr d)"
  using assms(1) unfolding penalty_grid_def
proof (induction arg arbitrary: g rule: rev_induct)
  case Nil
  then show ?case by auto
next
  case (snoc req arg)
  let ?cells = "[(s, r). s \<leftarrow> [0..<numShifts st], r \<leftarrow> [0..<numRoles st]]"
  let ?f = "\<lambda>grid request. foldM_e (penalty_step st request) grid ?cells"
  from snoc.prems obtain g0 where a: "foldM_e ?f (\<lambda>x. 0) arg = Inr g0"
    and b: "foldM_e (penalty_step st req) g0 ?cells = Inr g"
    by (auto simp: foldM_e_append split: sum.splits)
  note ih = snoc.IH[OF a]
  note pr = penalty_request[OF b assms(2,3)]
  have 1: "g (n, r, d, s) =
           (case filter (\<lambda>req. resourceIdLookup st (fst req) = Some n \<and>
                                py_index (numDays st) (fst (snd req)) = Inr d) (rev (arg @ [req])) of
              [] \<Rightarrow> 0 | req # _ \<Rightarrow> snd (snd req))"
    using pr(2)[of n d] ih by simp
  have 2: "\<forall>req\<in>set (arg @ [req]). \<exists>n d. resourceIdLookup st (fst req) = Some n \<and>
            n < numResources st \<and> py_index (numDays st) (fst (snd req)) = Inr d"
    using pr(1) ih by auto
  from 1 2 show ?case by blast
qed

lemma comp4_cong:
  assumes "\<And>n r d s. n \<in> set ns \<Longrightarrow> r \<in> set rs \<Longrightarrow> d \<in> set ds \<Longrightarrow> s \<in> set ss
             \<Longrightarrow> f n r d s = h n r d s"
  shows "[f n r d s. n \<leftarrow> ns, r \<leftarrow> rs, d \<leftarrow> ds, s \<leftarrow> ss]
       = [h n r d s. n \<leftarrow> ns, r \<leftarrow> rs, d \<leftarrow> ds, s \<leftarrow> ss]"
  using assms by (intro arg_cong[where f = concat] map_cong refl) simp

lemma last_match:
  "(case filter P (rev xs) of [] \<Rightarrow> z | x # _ \<Rightarrow> f x)
     = (if filter P xs = [] then z else f (last (filter P xs)))"
proof -
  have "filter P (rev xs) = rev (filter P xs)" by (simp add: rev_filter)
  then show ?thesis
    by (cases "filter P xs" rule: rev_cases) simp_all
qed

lemma softLeave_objective:
  assumes "softLeave st7 arg = Inr st"
  shows "\<exists>g. penalty_grid st arg = Inr g \<and> same_registry st7 st \<and> model st = model st7 \<and>
           objective st = Some [(g (n, r, d, s), (n, r, d, s)).
                    n \<leftarrow> [0..<numResources st], r \<leftarrow> [0..<numRoles st],
                    d \<leftarrow> [0..<numDays st], s \<leftarrow> [0..<numShifts st]]"
proof -
  from assms obtain g where g: "penalty_grid st7 arg = Inr g"
    and st: "st = st7\<lparr> objective := Some
                 [(g (n, r, d, s), (n, r, d, s)).
                    n \<leftarrow> [0..<numResources st7], r \<leftarrow> [0..<numRoles st7],
                    d \<leftarrow> [0..<numDays st7], s \<leftarrow> [0..<numShifts st7]] \<rparr>"
    unfolding softLeave_def by (auto split: sum.splits)
  have dims: "numResources st = numResources st7" "numRoles st = numRoles st7"
    "numDays st = numDays st7" "numShifts st = numShifts st7" by (simp_all add: st)
  have v: "vars_at st = vars_at st7"
    by (intro ext) (simp only: vars_at_def dims)
  have l: "resourceIdLookup st = resourceIdLookup st7" by (simp add: st)
  have "penalty_step st = penalty_step st7"
    by (intro ext) (simp only: penalty_step_def v l)
  then have "penalty_grid st arg = penalty_grid st7 arg"
    by (simp add: penalty_grid_def) (simp add: st)
  with g st show ?thesis by (auto simp: same_registry_def)
qed

text \<open>
  C8. In the model built by \<^verbatim>\<open>HospitalSolver.solve\<close> the objective to minimise is the sum,
  over all coordinates \<open>(n, r, d, s)\<close> of the grid, of a penalty times the variable. The
  penalty at \<open>(n, r, d, s)\<close> does not depend on the role \<open>r\<close> or the shift \<open>s\<close>: it is the
  weight of the last request of the \<^verbatim>\<open>softLeaves\<close> sequence that targets resource \<open>n\<close> and
  day \<open>d\<close> (earlier requests for the same resource and day are overwritten, not added),
  and it is zero when no request targets \<open>(n, d)\<close>. When the grid has a role, every
  request targets a resource and a day of the grid (the day itself when it is not negative).
\<close>

theorem soft_leave_last_wins:
  assumes "construct HospitalSolver_childConstraints st0 a = Inr st"
  shows "objective st = Some
           [(if filter (\<lambda>req. resourceIdLookup st (fst req) = Some n \<and>
                               py_index (numDays st) (fst (snd req)) = Inr d) (softLeaves a) = []
             then 0
             else snd (snd (last (filter (\<lambda>req. resourceIdLookup st (fst req) = Some n \<and>
                               py_index (numDays st) (fst (snd req)) = Inr d) (softLeaves a)))),
             (n, r, d, s)).
              n \<leftarrow> [0..<numResources st], r \<leftarrow> [0..<numRoles st],
              d \<leftarrow> [0..<numDays st], s \<leftarrow> [0..<numShifts st]]
         \<and> (0 < numRoles st \<longrightarrow>
              (\<forall>req\<in>set (softLeaves a). \<exists>n<numResources st. \<exists>d<numDays st.
                 resourceIdLookup st (fst req) = Some n \<and>
                 py_index (numDays st) (fst (snd req)) = Inr d \<and>
                 (0 \<le> fst (snd req) \<longrightarrow> d = nat (fst (snd req)))))"
proof -
  from assms obtain st5 where b: "construct Solver_childConstraints st0 a = Inr st5"
    and h: "HospitalSolver_childConstraints st5 a = Inr st" by (rule hospital_construct)
  from h obtain st7 where s: "softLeave st7 (softLeaves a) = Inr st"
    unfolding HospitalSolver_childConstraints_def by (auto split: sum.splits)
  from softLeave_objective[OF s] obtain g where g: "penalty_grid st (softLeaves a) = Inr g"
    and ob: "objective st = Some [(g (n, r, d, s), (n, r, d, s)).
                    n \<leftarrow> [0..<numResources st], r \<leftarrow> [0..<numRoles st],
                    d \<leftarrow> [0..<numDays st], s \<leftarrow> [0..<numShifts st]]" by blast
  from hospital_child[OF h] have "3 \<le> numShifts st" by (simp add: same_registry_def)
  then have ns: "0 < numShifts st" by simp
  let ?w = "\<lambda>n d. if filter (\<lambda>req. resourceIdLookup st (fst req) = Some n \<and>
                               py_index (numDays st) (fst (snd req)) = Inr d) (softLeaves a) = []
             then 0
             else snd (snd (last (filter (\<lambda>req. resourceIdLookup st (fst req) = Some n \<and>
                               py_index (numDays st) (fst (snd req)) = Inr d) (softLeaves a))))"
  have val: "g (n, r, d, s) = ?w n d" if "r < numRoles st" "s < numShifts st" for n r d s
    using penalty_grid_value[OF g that, of n d] unfolding last_match by blast
  have "[(g (n, r, d, s), (n, r, d, s)).
                    n \<leftarrow> [0..<numResources st], r \<leftarrow> [0..<numRoles st],
                    d \<leftarrow> [0..<numDays st], s \<leftarrow> [0..<numShifts st]]
      = [(?w n d, (n, r, d, s)).
                    n \<leftarrow> [0..<numResources st], r \<leftarrow> [0..<numRoles st],
                    d \<leftarrow> [0..<numDays st], s \<leftarrow> [0..<numShifts st]]"
    by (rule comp4_cong) (simp add: val)
  with ob have 1: "objective st = Some [(?w n d, (n, r, d, s)).
                    n \<leftarrow> [0..<numResources st], r \<leftarrow> [0..<numRoles st],
                    d \<leftarrow> [0..<numDays st], s \<leftarrow> [0..<numShifts st]]" by simp
  have 2: "\<forall>req\<in>set (softLeaves a). \<exists>n<numResources st. \<exists>d<numDays st.
                 resourceIdLookup st (fst req) = Some n \<and>
                 py_index (numDays st) (fst (snd req)) = Inr d \<and>
                 (0 \<le> fst (snd req) \<longrightarrow> d = nat (fst (snd req)))" if r: "0 < numRoles st"
  proof
    fix req assume "req \<in> set (softLeaves a)"
    with penalty_grid_value[OF g r ns, of 0 0] obtain n d where
      "resourceIdLookup st (fst req) = Some n" "n < numResources st"
      and d: "py_index (numDays st) (fst (snd req)) = Inr d" by blast
    with py_index_Inr[OF d] show "\<exists>n<numResources st. \<exists>d<numDays st.
                 resourceIdLookup st (fst req) = Some n \<and>
                 py_index (numDays st) (fst (snd req)) = Inr d \<and>
                 (0 \<le> fst (snd req) \<longrightarrow> d = nat (fst (snd req)))" by blast
  qed
  from 1 2 show ?thesis by blast
qed

lemma overwrite_construct:
  "construct HospitalSolver_childConstraints (HospitalSolver_init 1) overwrite_args
     = Inr overwrite_solver"
proof -
  have "\<not> isl (construct HospitalSolver_childConstraints (HospitalSolver_init 1) overwrite_args)"
    by code_simp
  then show ?thesis unfolding overwrite_solver_def by simp
qed

lemma overwrite_dims:
  "numResources overwrite_solver = 2" "numRoles overwrite_solver = 1"
  "numDays overwrite_solver = 1" "numShifts overwrite_solver = 3"
  by code_simp+

lemma overwrite_resources:
  "resourceIdLookup overwrite_solver ''A'' = Some 0"
  "resourceIdLookup overwrite_solver ''B'' = Some 1"
  by code_simp+

text \<open>The theorem at the problem with two requests of \<open>B\<close> for day 0: the second weight is the
  penalty of all three shifts of \<open>B\<close>, and \<open>A\<close> has penalty zero.\<close>

theorem soft_leave_last_wins_witness:
  "construct HospitalSolver_childConstraints (HospitalSolver_init 1) overwrite_args
     = Inr overwrite_solver
   \<and> softLeaves overwrite_args = [(''B'', 0, 1), (''B'', 0, 2)]
   \<and> objective overwrite_solver = Some
        [(0, (0, 0, 0, 0)), (0, (0, 0, 0, 1)), (0, (0, 0, 0, 2)),
         (2, (1, 0, 0, 0)), (2, (1, 0, 0, 1)), (2, (1, 0, 0, 2))]
   \<and> 0 < numRoles overwrite_solver
   \<and> resourceIdLookup overwrite_solver ''B'' = Some 1
   \<and> py_index (numDays overwrite_solver) 0 = Inr 0"
proof -
  have sl: "softLeaves overwrite_args = [(''B'', 0, 1), (''B'', 0, 2)]"
    by (simp add: overwrite_args_def)
  have r: "0 < numRoles overwrite_solver" by (simp add: overwrite_dims)
  have p: "py_index (numDays overwrite_solver) 0 = Inr 0"
    by (simp add: overwrite_dims py_index_def)
  have u: "[0..<2] = [0, 1]" "[0..<1] = [0]" "[0..<3] = [0, 1, 2]"
    by (simp_all add: upt_rec)
  from soft_leave_last_wins[OF overwrite_construct]
  have "objective overwrite_solver = Some
        [(0, (0, 0, 0, 0)), (0, (0, 0, 0, 1)), (0, (0, 0, 0, 2)),
         (2, (1, 0, 0, 0)), (2, (1, 0, 0, 1)), (2, (1, 0, 0, 2))]"
    unfolding sl overwrite_dims u by (simp add: overwrite_resources py_index_def)
  with overwrite_construct sl r overwrite_resources(2) p show ?thesis by blast
qed

section \<open>Transitions between consecutive days\<close>

lemma mark_dependence_Inr:
  assumes "mark_dependence M p = Inr M'" and "length M = S" and "\<forall>i<S. length (M ! i) = S"
  shows "\<exists>i<S. py_index S (fst p) = Inr i \<and> M' = M[i := (M ! i)[i := 1]]"
proof -
  from assms(1) obtain i where i: "py_index (length M) (fst p) = Inr i"
    unfolding mark_dependence_def Let_def by (auto split: sum.splits)
  from py_index_Inr[OF i] assms(2) have il: "i < S" by simp
  with assms(3) have "length (M ! i) = S" by simp
  with assms(1,2) i have "M' = M[i := (M ! i)[i := 1]]"
    unfolding mark_dependence_def Let_def by (auto split: sum.splits)
  with i il assms(2) show ?thesis by auto
qed

lemma mark_fold:
  assumes "foldM_e mark_dependence M0 arg = Inr M"
    and "length M0 = S" and "\<forall>i<S. length (M0 ! i) = S"
  shows "length M = S \<and> (\<forall>i<S. length (M ! i) = S) \<and>
         (\<forall>p\<in>set arg. \<exists>s<S. py_index S (fst p) = Inr s) \<and>
         (\<forall>i<S. \<forall>j<S. M ! i ! j =
            (if i = j \<and> (\<exists>p\<in>set arg. py_index S (fst p) = Inr i) then 1 else M0 ! i ! j))"
  using assms
proof (induction arg arbitrary: M0)
  case Nil
  then show ?case by simp
next
  case (Cons p arg)
  from Cons.prems(1) obtain M1 where s: "mark_dependence M0 p = Inr M1"
    and f: "foldM_e mark_dependence M1 arg = Inr M" by (rule foldM_e_ConsD)
  from mark_dependence_Inr[OF s Cons.prems(2,3)] obtain k where k: "k < S"
    and pk: "py_index S (fst p) = Inr k" and M1: "M1 = M0[k := (M0 ! k)[k := 1]]" by blast
  have l1: "length M1 = S" using Cons.prems(2) by (simp add: M1)
  have l2: "\<forall>i<S. length (M1 ! i) = S"
    using Cons.prems(2,3) k by (auto simp: M1 nth_list_update)
  note ih = Cons.IH[OF f l1 l2]
  have e1: "M1 ! i ! j = (if i = j \<and> i = k then 1 else M0 ! i ! j)" if "i < S" "j < S" for i j
    using that Cons.prems(2,3) k by (auto simp: M1 nth_list_update)
  have 3: "\<forall>q\<in>set (p # arg). \<exists>s<S. py_index S (fst q) = Inr s" using ih k pk by auto
  have 4: "\<forall>i<S. \<forall>j<S. M ! i ! j =
            (if i = j \<and> (\<exists>q\<in>set (p # arg). py_index S (fst q) = Inr i) then 1 else M0 ! i ! j)"
  proof (intro allI impI)
    fix i j assume i: "i < S" and j: "j < S"
    from ih i j have "M ! i ! j =
        (if i = j \<and> (\<exists>q\<in>set arg. py_index S (fst q) = Inr i) then 1 else M1 ! i ! j)" by blast
    with e1[OF i j] pk show "M ! i ! j =
            (if i = j \<and> (\<exists>q\<in>set (p # arg). py_index S (fst q) = Inr i) then 1 else M0 ! i ! j)"
      by auto
  qed
  from ih 3 4 show ?case by blast
qed

lemma nextDayShift_Inr:
  assumes "nextDayShift st arg = Inr st'"
  shows "\<exists>M. st' = st\<lparr> non_sequential_shifts_indices := M,
                   model := model st @
                     [LeC (concat [[(M ! s ! j, (n, r, d, s)), (1, (n, r, d + 1, j))].
                                     j \<leftarrow> [0..<numShifts st], r \<leftarrow> [0..<numRoles st]]) 1.
                        n \<leftarrow> [0..<numResources st], d \<leftarrow> [0..<numDays st - 1],
                        s \<leftarrow> [0..<numShifts st]] \<rparr> \<and>
           (\<forall>p\<in>set arg. \<exists>s<numShifts st. py_index (numShifts st) (fst p) = Inr s) \<and>
           (\<forall>i<numShifts st. \<forall>j<numShifts st. M ! i ! j =
              (if i = j \<and> (\<exists>p\<in>set arg. py_index (numShifts st) (fst p) = Inr i) then 1 else 0))"
proof -
  let ?S = "numShifts st"
  from assms obtain M where f: "foldM_e mark_dependence (replicate ?S (replicate ?S 0)) arg = Inr M"
    and st': "st' = st\<lparr> non_sequential_shifts_indices := M,
                   model := model st @
                     [LeC (concat [[(M ! s ! j, (n, r, d, s)), (1, (n, r, d + 1, j))].
                                     j \<leftarrow> [0..<numShifts st], r \<leftarrow> [0..<numRoles st]]) 1.
                        n \<leftarrow> [0..<numResources st], d \<leftarrow> [0..<numDays st - 1],
                        s \<leftarrow> [0..<numShifts st]] \<rparr>"
    unfolding nextDayShift_def by (auto split: sum.splits)
  have "length (replicate ?S (replicate ?S (0::int))) = ?S" by simp
  moreover have "\<forall>i<?S. length (replicate ?S (replicate ?S (0::int)) ! i) = ?S" by simp
  ultimately have m: "(\<forall>p\<in>set arg. \<exists>s<?S. py_index ?S (fst p) = Inr s) \<and>
         (\<forall>i<?S. \<forall>j<?S. M ! i ! j =
            (if i = j \<and> (\<exists>p\<in>set arg. py_index ?S (fst p) = Inr i) then 1
             else replicate ?S (replicate ?S (0::int)) ! i ! j))"
    using mark_fold[OF f] by blast
  then have "\<forall>i<?S. \<forall>j<?S. M ! i ! j =
            (if i = j \<and> (\<exists>p\<in>set arg. py_index ?S (fst p) = Inr i) then 1 else 0)" by simp
  with m st' show ?thesis by blast
qed

lemma eval_lin_append: "eval_lin v (xs @ ys) = eval_lin v xs + eval_lin v ys"
  by (simp add: eval_lin_def)

lemma eval_lin_concat: "eval_lin v (concat xss) = sum_list (map (eval_lin v) xss)"
  by (induction xss) (simp_all add: eval_lin_append, simp add: eval_lin_def)

lemma sum_list_delta:
  "sum_list (map (\<lambda>j. if j = s then (x::int) else 0) [0..<S]) = (if s < S then x else 0)"
  by (induction S) auto

lemma sum_list_map_concat:
  "sum_list (map f (concat xss)) = sum_list (map (\<lambda>xs. sum_list (map f xs)) xss)"
  for f :: "'a \<Rightarrow> int"
  by (induction xss) simp_all

lemma transition_pairs:
  "sum_list (map (\<lambda>r. eval_lin v [(c, (n, r, d, s)), (1, (n, r, d', j))]) rs)
     = c * int (length (filter (\<lambda>r. v (n, r, d, s)) rs))
       + int (length (filter (\<lambda>r. v (n, r, d', j)) rs))"
  by (induction rs) (simp_all add: eval_lin_def term_val_def algebra_simps)

lemma transition_sum:
  assumes "s < S"
  shows "eval_lin v (concat [[(if s = j \<and> P then 1 else 0, (n, r, d, s)), (1, (n, r, d', j))].
                               j \<leftarrow> [0..<S], r \<leftarrow> rs])
       = (if P then int (length (filter (\<lambda>r. v (n, r, d, s)) rs)) else 0)
         + sum_list (map (\<lambda>j. int (length (filter (\<lambda>r. v (n, r, d', j)) rs))) [0..<S])"
proof -
  let ?cnt = "int (length (filter (\<lambda>r. v (n, r, d, s)) rs))"
  have "eval_lin v (concat [[(if s = j \<and> P then 1 else 0, (n, r, d, s)), (1, (n, r, d', j))].
                               j \<leftarrow> [0..<S], r \<leftarrow> rs])
      = sum_list (map (\<lambda>j. (if s = j \<and> P then 1 else 0) * ?cnt
                            + int (length (filter (\<lambda>r. v (n, r, d', j)) rs))) [0..<S])"
    by (simp add: eval_lin_concat sum_list_map_concat comp_def transition_pairs)
  also have "\<dots> = sum_list (map (\<lambda>j. if j = s then (if P then ?cnt else 0) else 0) [0..<S])
                  + sum_list (map (\<lambda>j. int (length (filter (\<lambda>r. v (n, r, d', j)) rs))) [0..<S])"
    unfolding sum_list_addf[symmetric] by (intro arg_cong[where f = sum_list] map_cong refl) auto
  finally show ?thesis using assms by (simp add: sum_list_delta)
qed

lemma comp2_concat_cong:
  assumes "\<And>j r. j \<in> set js \<Longrightarrow> r \<in> set rs \<Longrightarrow> f j r = h j r"
  shows "concat [f j r. j \<leftarrow> js, r \<leftarrow> rs] = concat [h j r. j \<leftarrow> js, r \<leftarrow> rs]"
  using assms by (intro arg_cong[where f = concat] map_cong refl) simp

lemma count_product:
  "sum_list (map (\<lambda>j. int (length (filter (\<lambda>r. P j r) rs))) js)
     = int (length (filter (\<lambda>p. P (fst p) (snd p)) (List.product js rs)))"
  by (induction js) (simp_all add: filter_map comp_def)

lemma transition_holds:
  assumes "s < numShifts st"
    and "\<forall>i<numShifts st. \<forall>j<numShifts st. M ! i ! j = (if i = j \<and> marked i then 1 else 0)"
  shows "holds v (LeC (concat [[(M ! s ! j, (n, r, d, s)), (1, (n, r, d + 1, j))].
                                 j \<leftarrow> [0..<numShifts st], r \<leftarrow> [0..<numRoles st]]) 1)
         \<longleftrightarrow> (if marked s then int (length (filter (\<lambda>r. v (n, r, d, s)) [0..<numRoles st])) else 0)
              + int (length (filter (\<lambda>p. v (n, snd p, d + 1, fst p))
                       (List.product [0..<numShifts st] [0..<numRoles st]))) \<le> 1"
proof -
  have "concat [[(M ! s ! j, (n, r, d, s)), (1, (n, r, d + 1, j))].
                                 j \<leftarrow> [0..<numShifts st], r \<leftarrow> [0..<numRoles st]]
      = concat [[(if s = j \<and> marked s then 1 else 0, (n, r, d, s)), (1, (n, r, d + 1, j))].
                                 j \<leftarrow> [0..<numShifts st], r \<leftarrow> [0..<numRoles st]]"
    by (rule comp2_concat_cong) (use assms in simp)
  then show ?thesis
    by (simp only: holds.simps transition_sum[OF assms(1)]
          count_product[of "\<lambda>j r. v (n, r, d + 1, j)"])
qed

lemma filter_pos: "x \<in> set xs \<Longrightarrow> P x \<Longrightarrow> 1 \<le> int (length (filter P xs))"
  by (induction xs) auto

lemma filter_zero: "length (filter P xs) = 0 \<Longrightarrow> x \<in> set xs \<Longrightarrow> \<not> P x"
  by (induction xs) (auto split: if_splits)

text \<open>
  C1. The claim as stated does not hold: a pair that was never declared is restricted as soon
  as some pair with the same first shift was. \<^verbatim>\<open>HospitalSolver\<close> declares the pairs \<open>(2, 0)\<close>,
  \<open>(2, 1)\<close> and \<open>(2, 2)\<close>. On a roster of two days with four shifts the valuation \<open>four_val\<close>
  puts the only resource on shift 2 on day 0 and on shift 3 on day 1; the pair \<open>(2, 3)\<close> is
  not declared, the valuation satisfies every constraint of the base class, and the model of
  \<^verbatim>\<open>HospitalSolver\<close>, which adds the transition constraints only (there is no leave),
  rejects it.
\<close>

theorem undeclared_transition_rejected:
  "construct Solver_childConstraints (HospitalSolver_init 1) four_args = Inr four_base \<and>
   construct HospitalSolver_childConstraints (HospitalSolver_init 1) four_args = Inr four_solver \<and>
   hardLeaves four_args = [] \<and> (2, 3) \<notin> set [(2, 0), (2, 1), (2 :: int, 2 :: int)] \<and>
   four_val (0, 0, 0, 2) \<and> four_val (0, 0, 1, 3) \<and>
   accepted four_val four_base \<and> \<not> accepted four_val four_solver"
proof -
  have "\<not> isl (construct Solver_childConstraints (HospitalSolver_init 1) four_args)"
    by code_simp
  then have 1: "construct Solver_childConstraints (HospitalSolver_init 1) four_args = Inr four_base"
    unfolding four_base_def by simp
  have "\<not> isl (construct HospitalSolver_childConstraints (HospitalSolver_init 1) four_args)"
    by code_simp
  then have 2: "construct HospitalSolver_childConstraints (HospitalSolver_init 1) four_args
                  = Inr four_solver"
    unfolding four_solver_def by simp
  have 3: "hardLeaves four_args = []" by (simp add: four_args_def)
  have 4: "four_val (0, 0, 0, 2)" "four_val (0, 0, 1, 3)" by (simp_all add: four_val_def)
  have 5: "accepted four_val four_base" by code_simp
  have 6: "\<not> accepted four_val four_solver" by code_simp
  from 1 2 3 4 5 6 show ?thesis by simp
qed

text \<open>
  C1, amended. For every declared pair \<open>(fromShift, toShift)\<close> handed to \<^verbatim>\<open>_nextDayShift\<close>, the
  first component is a shift \<open>s\<close> of the grid (itself when it is not negative), and in every
  valuation accepted afterwards a resource that has shift \<open>s\<close> on a day \<open>d\<close> with a successor,
  in any role, has no shift at all on day \<open>d + 1\<close> in any role, so in particular not
  \<open>toShift\<close>. The constraints added restrict only resources on a declared first shift: a
  valuation accepted before, in which every resource has at most one (shift, role) on every
  day after the first and no resource is on the first shift of a declared pair on a day with
  a successor, is accepted afterwards.
\<close>

theorem next_day_transitions:
  assumes "nextDayShift st arg = Inr st'"
  shows "(\<forall>p\<in>set arg. \<exists>s<numShifts st. py_index (numShifts st) (fst p) = Inr s \<and>
            (0 \<le> fst p \<longrightarrow> s = nat (fst p)) \<and>
            (\<forall>v. accepted v st' \<longrightarrow>
               (\<forall>n<numResources st. \<forall>d. d + 1 < numDays st \<longrightarrow>
                  (\<forall>r<numRoles st. v (n, r, d, s) \<longrightarrow>
                     (\<forall>r'<numRoles st. \<forall>t<numShifts st. \<not> v (n, r', d + 1, t))))))
       \<and> (\<forall>v. accepted v st \<and>
              (\<forall>n<numResources st. \<forall>d. d + 1 < numDays st \<longrightarrow>
                 length (filter (\<lambda>p. v (n, snd p, d + 1, fst p))
                           (List.product [0..<numShifts st] [0..<numRoles st])) \<le> 1) \<and>
              (\<forall>p\<in>set arg. \<forall>s. py_index (numShifts st) (fst p) = Inr s \<longrightarrow>
                 (\<forall>n<numResources st. \<forall>d. d + 1 < numDays st \<longrightarrow>
                    (\<forall>r<numRoles st. \<not> v (n, r, d, s))))
              \<longrightarrow> accepted v st')"
proof -
  let ?S = "numShifts st" and ?R = "numRoles st" and ?N = "numResources st" and ?D = "numDays st"
  let ?marked = "\<lambda>i. \<exists>p\<in>set arg. py_index ?S (fst p) = Inr i"
  from nextDayShift_Inr[OF assms] obtain M where
    st': "st' = st\<lparr> non_sequential_shifts_indices := M,
                   model := model st @
                     [LeC (concat [[(M ! s ! j, (n, r, d, s)), (1, (n, r, d + 1, j))].
                                     j \<leftarrow> [0..<?S], r \<leftarrow> [0..<?R]]) 1.
                        n \<leftarrow> [0..<?N], d \<leftarrow> [0..<?D - 1], s \<leftarrow> [0..<?S]] \<rparr>"
    and ok: "\<forall>p\<in>set arg. \<exists>s<?S. py_index ?S (fst p) = Inr s"
    and M: "\<forall>i<?S. \<forall>j<?S. M ! i ! j = (if i = j \<and> ?marked i then 1 else 0)" by blast
  let ?c = "\<lambda>n d s. LeC (concat [[(M ! s ! j, (n, r, d, s)), (1, (n, r, d + 1, j))].
                                     j \<leftarrow> [0..<?S], r \<leftarrow> [0..<?R]]) 1"
  let ?cs = "[?c n d s. n \<leftarrow> [0..<?N], d \<leftarrow> [0..<?D - 1], s \<leftarrow> [0..<?S]]"
  have md: "model st' = model st @ ?cs" by (simp add: st')
  have acc: "accepted v st' \<longleftrightarrow> accepted v st \<and> list_all (holds v) ?cs" for v
    by (simp add: accepted_def md)
  have mem: "?c n d s \<in> set ?cs" if "n < ?N" "d + 1 < ?D" "s < ?S" for n d s
    unfolding in_set_comp3 using that by (intro bexI[of _ n] bexI[of _ d] bexI[of _ s]) auto
  have A: "\<exists>s<?S. py_index ?S (fst p) = Inr s \<and> (0 \<le> fst p \<longrightarrow> s = nat (fst p)) \<and>
            (\<forall>v. accepted v st' \<longrightarrow>
               (\<forall>n<?N. \<forall>d. d + 1 < ?D \<longrightarrow>
                  (\<forall>r<?R. v (n, r, d, s) \<longrightarrow> (\<forall>r'<?R. \<forall>t<?S. \<not> v (n, r', d + 1, t)))))"
    if p: "p \<in> set arg" for p
  proof -
    from ok p obtain s where s: "s < ?S" and ps: "py_index ?S (fst p) = Inr s" by blast
    from p ps have ms: "?marked s" by blast
    have "\<not> v (n, r', d + 1, t)"
      if a: "accepted v st'" and n: "n < ?N" and d: "d + 1 < ?D" and r: "r < ?R"
        and on: "v (n, r, d, s)" and r': "r' < ?R" and t: "t < ?S" for v n d r r' t
    proof -
      from a have "\<forall>c\<in>set ?cs. holds v c" unfolding acc list_all_iff by blast
      with mem[OF n d s] have "holds v (?c n d s)" by blast
      with transition_holds[OF s M, of v n d] ms
      have le: "int (length (filter (\<lambda>r. v (n, r, d, s)) [0..<?R]))
              + int (length (filter (\<lambda>p. v (n, snd p, d + 1, fst p))
                       (List.product [0..<?S] [0..<?R]))) \<le> 1" by simp
      have "1 \<le> int (length (filter (\<lambda>r. v (n, r, d, s)) [0..<?R]))"
        using r on by (intro filter_pos[of r]) auto
      with le have z: "length (filter (\<lambda>p. v (n, snd p, d + 1, fst p))
                       (List.product [0..<?S] [0..<?R])) = 0" by linarith
      have "(t, r') \<in> set (List.product [0..<?S] [0..<?R])" using t r' by simp
      from filter_zero[OF z this] show ?thesis by simp
    qed
    with s ps py_index_Inr[OF ps] show ?thesis by blast
  qed
  have B: "accepted v st'"
    if a: "accepted v st"
      and one: "\<forall>n<?N. \<forall>d. d + 1 < ?D \<longrightarrow>
                 length (filter (\<lambda>p. v (n, snd p, d + 1, fst p))
                           (List.product [0..<?S] [0..<?R])) \<le> 1"
      and off: "\<forall>p\<in>set arg. \<forall>s. py_index ?S (fst p) = Inr s \<longrightarrow>
                 (\<forall>n<?N. \<forall>d. d + 1 < ?D \<longrightarrow> (\<forall>r<?R. \<not> v (n, r, d, s)))" for v
  proof -
    have "holds v c" if c: "c \<in> set ?cs" for c
    proof -
      from c[unfolded in_set_comp3] obtain n d s where n': "n \<in> set [0..<?N]"
        and d': "d \<in> set [0..<?D - 1]" and s': "s \<in> set [0..<?S]"
        and ceq: "c = ?c n d s" by blast
      from n' d' s' have n: "n < ?N" and d: "d + 1 < ?D" and s: "s < ?S" by auto
      have "(if ?marked s then int (length (filter (\<lambda>r. v (n, r, d, s)) [0..<?R])) else 0) = 0"
      proof (cases "?marked s")
        case True
        with off n d have "\<forall>r<?R. \<not> v (n, r, d, s)" by blast
        then have "filter (\<lambda>r. v (n, r, d, s)) [0..<?R] = []" by (auto simp: filter_empty_conv)
        with True show ?thesis by simp
      next
        case False
        then show ?thesis by simp
      qed
      moreover from one n d have "int (length (filter (\<lambda>p. v (n, snd p, d + 1, fst p))
                           (List.product [0..<?S] [0..<?R]))) \<le> 1" by simp
      ultimately show ?thesis unfolding ceq transition_holds[OF s M, of v n d] by linarith
    qed
    then have "\<forall>c\<in>set ?cs. holds v c" by blast
    with a show ?thesis unfolding acc list_all_iff by blast
  qed
  have A': "\<forall>p\<in>set arg. \<exists>s<?S. py_index ?S (fst p) = Inr s \<and> (0 \<le> fst p \<longrightarrow> s = nat (fst p)) \<and>
            (\<forall>v. accepted v st' \<longrightarrow>
               (\<forall>n<?N. \<forall>d. d + 1 < ?D \<longrightarrow>
                  (\<forall>r<?R. v (n, r, d, s) \<longrightarrow> (\<forall>r'<?R. \<forall>t<?S. \<not> v (n, r', d + 1, t)))))"
  proof (rule ballI)
    fix p assume "p \<in> set arg"
    then show "\<exists>s<?S. py_index ?S (fst p) = Inr s \<and> (0 \<le> fst p \<longrightarrow> s = nat (fst p)) \<and>
            (\<forall>v. accepted v st' \<longrightarrow>
               (\<forall>n<?N. \<forall>d. d + 1 < ?D \<longrightarrow>
                  (\<forall>r<?R. v (n, r, d, s) \<longrightarrow> (\<forall>r'<?R. \<forall>t<?S. \<not> v (n, r', d + 1, t)))))"
      by (rule A)
  qed
  have B': "\<forall>v. accepted v st \<and>
              (\<forall>n<?N. \<forall>d. d + 1 < ?D \<longrightarrow>
                 length (filter (\<lambda>p. v (n, snd p, d + 1, fst p))
                           (List.product [0..<?S] [0..<?R])) \<le> 1) \<and>
              (\<forall>p\<in>set arg. \<forall>s. py_index ?S (fst p) = Inr s \<longrightarrow>
                 (\<forall>n<?N. \<forall>d. d + 1 < ?D \<longrightarrow> (\<forall>r<?R. \<not> v (n, r, d, s))))
              \<longrightarrow> accepted v st'"
  proof (intro allI impI)
    fix v
    assume h: "accepted v st \<and>
              (\<forall>n<?N. \<forall>d. d + 1 < ?D \<longrightarrow>
                 length (filter (\<lambda>p. v (n, snd p, d + 1, fst p))
                           (List.product [0..<?S] [0..<?R])) \<le> 1) \<and>
              (\<forall>p\<in>set arg. \<forall>s. py_index ?S (fst p) = Inr s \<longrightarrow>
                 (\<forall>n<?N. \<forall>d. d + 1 < ?D \<longrightarrow> (\<forall>r<?R. \<not> v (n, r, d, s))))"
    show "accepted v st'"
      by (rule B[OF h[THEN conjunct1] h[THEN conjunct2, THEN conjunct1]
                    h[THEN conjunct2, THEN conjunct2]])
  qed
  from A' B' show ?thesis by (rule conjI)
qed

lemma demo_night_construct:
  "nextDayShift demo_base [(2, 0), (2, 1), (2, 2)] = Inr demo_night"
proof -
  have "\<not> isl (nextDayShift demo_base [(2, 0), (2, 1), (2, 2)])" by code_simp
  then show ?thesis unfolding demo_night_def by simp
qed

lemma demo_base_dims:
  "numResources demo_base = 2" "numRoles demo_base = 2"
  "numDays demo_base = 2" "numShifts demo_base = 3"
  by code_simp+

lemma night_accepted: "accepted night_val demo_night"
  by code_simp

lemma demo_base_accepted: "accepted demo_val demo_base"
  by code_simp

text \<open>The amended statement at the hospital problem with the pairs that \<^verbatim>\<open>_dayAfterNight\<close>
  declares: a valuation with \<open>A\<close> on the night shift of day 0 gives \<open>A\<close> nothing on day 1,
  and the valuation \<open>demo_val\<close>, which uses no night shift, is still accepted.\<close>

theorem next_day_transitions_witness:
  "nextDayShift demo_base [(2, 0), (2, 1), (2, 2)] = Inr demo_night
   \<and> py_index (numShifts demo_base) 2 = Inr 2
   \<and> accepted night_val demo_night \<and> night_val (0, 0, 0, 2)
   \<and> \<not> night_val (0, 0, 1, 0) \<and> \<not> night_val (0, 1, 1, 2)
   \<and> accepted demo_val demo_base \<and> accepted demo_val demo_night"
proof -
  note t = next_day_transitions[OF demo_night_construct]
  have p: "py_index (numShifts demo_base) 2 = Inr 2" by (simp add: demo_base_dims py_index_def)
  have m: "(2, 0) \<in> set [(2, 0), (2, 1), (2 :: int, 2 :: int)]" by simp
  from t[THEN conjunct1, rule_format, OF m] obtain s where
    ps: "py_index (numShifts demo_base) (fst (2 :: int, 0 :: int)) = Inr s"
    and a: "\<forall>v. accepted v demo_night \<longrightarrow>
               (\<forall>n<numResources demo_base. \<forall>d. d + 1 < numDays demo_base \<longrightarrow>
                  (\<forall>r<numRoles demo_base. v (n, r, d, s) \<longrightarrow>
                     (\<forall>r'<numRoles demo_base. \<forall>t<numShifts demo_base. \<not> v (n, r', d + 1, t))))"
    by (elim exE conjE)
  from ps p have s: "s = 2" by simp
  have on: "night_val (0, 0, 0, 2)" by (simp add: night_val_def)
  have off: "\<not> night_val (0, r', 0 + 1, t)" if "r' < 2" "t < 3" for r' t
    using a[rule_format, OF night_accepted, of 0 0 0 r' t] on that
    by (simp add: demo_base_dims s)
  have o1: "\<not> night_val (0, 0, 1, 0)" using off[of 0 0] by simp
  have o2: "\<not> night_val (0, 1, 1, 2)" using off[of 1 2] by simp
  have one: "\<forall>n<numResources demo_base. \<forall>d. d + 1 < numDays demo_base \<longrightarrow>
                 length (filter (\<lambda>p. demo_val (n, snd p, d + 1, fst p))
                   (List.product [0..<numShifts demo_base] [0..<numRoles demo_base])) \<le> 1"
    by (simp add: demo_val_def)
  have none: "\<forall>p\<in>set [(2, 0), (2, 1), (2 :: int, 2 :: int)]. \<forall>s.
                 py_index (numShifts demo_base) (fst p) = Inr s \<longrightarrow>
                 (\<forall>n<numResources demo_base. \<forall>d. d + 1 < numDays demo_base \<longrightarrow>
                    (\<forall>r<numRoles demo_base. \<not> demo_val (n, r, d, s)))"
    by (auto simp: demo_val_def demo_base_dims py_index_def)
  have b: "accepted demo_val demo_night"
    by (rule t[THEN conjunct2, rule_format]) (intro conjI demo_base_accepted one none)
  from demo_night_construct p night_accepted on o1 o2 demo_base_accepted b show ?thesis
    by (intro conjI)
qed

end
